(* ===== verification/Prelude.thy ===== *)
theory Prelude
  imports Main "HOL-Library.Product_Lexorder"
begin

text \<open>
  What every component shares: Go's \<open>error\<close> values with \<open>errors.Is\<close>, \<open>errors.As\<close> and
  \<open>errors.Join\<close>, the 64-bit wrap-around of \<open>int\<close> arithmetic, instants and durations,
  the collections of facts the component proofs use, and three interfaces that several
  components rely on: normalisers of names, functional options, and back-off tables.
\<close>

named_theorems go_defs "definitions of Go library functions and of error sentinels"
named_theorems errs "facts about error values"

subsection \<open>Results\<close>

type_synonym ('e, 'a) result = "'e + 'a"

text \<open>A stateful operation that can fail returns its result and the state it leaves.\<close>

type_synonym ('s, 'e, 'a) op = "'s \<Rightarrow> ('e + 'a) \<times> 's"

text \<open>A pointer the code only passes on or compares with nil.\<close>

type_synonym ptr = "nat option"

subsection \<open>Integers\<close>

text \<open>
  Go's \<open>int\<close>, \<open>int64\<close> and \<open>time.Duration\<close> have 64 bits and wrap around.  They are
  \<open>int\<close> here; \<open>wrap64\<close> is written where the code adds values it has not bounded.
\<close>

definition min_int64 :: int where "min_int64 = - (2 ^ 63)"
definition max_int64 :: int where "max_int64 = 2 ^ 63 - 1"

definition wrap64 :: "int \<Rightarrow> int" where
  "wrap64 x = (x + 2 ^ 63) mod 2 ^ 64 - 2 ^ 63"

definition in_int64 :: "int \<Rightarrow> bool" where
  "in_int64 x \<longleftrightarrow> min_int64 \<le> x \<and> x \<le> max_int64"

lemma wrap64_id [simp]: "in_int64 x \<Longrightarrow> wrap64 x = x"
  by (simp add: wrap64_def in_int64_def min_int64_def max_int64_def)

lemma wrap64_in [simp]: "in_int64 (wrap64 x)"
proof -
  have "0 \<le> (x + 2 ^ 63) mod 2 ^ 64" and "(x + 2 ^ 63) mod 2 ^ 64 < (2::int) ^ 64"
    by simp_all
  then show ?thesis
    by (simp add: wrap64_def in_int64_def min_int64_def max_int64_def)
qed

lemma wrap64_suc: "in_int64 x \<Longrightarrow> x < max_int64 \<Longrightarrow> wrap64 (x + 1) = x + 1"
  by (rule wrap64_id) (simp add: in_int64_def)

lemma wrap64_max: "wrap64 (max_int64 + 1) = min_int64"
  by (simp add: wrap64_def min_int64_def max_int64_def)

subsection \<open>Time\<close>

text \<open>
  An instant is the number of nanoseconds since Go's zero time, so \<open>IsZero\<close> is equality
  with 0; the location of a \<open>time.Time\<close> plays no part in what the code decides.
  A duration is a number of nanoseconds.
\<close>

type_synonym go_time = int
type_synonym duration = int

definition second :: duration where "second = 1000000000"
definition minute :: duration where "minute = 60 * second"

lemmas duration_defs = second_def minute_def

text \<open>The instants RFC 3339, and so \<open>MarshalJSON\<close>, can represent: years up to 9999.\<close>

definition json_time :: "go_time \<Rightarrow> bool" where
  "json_time t \<longleftrightarrow> 0 \<le> t \<and> t < 315537897600 * second"

text \<open>\<open>time.Time.UnixMilli\<close>: milliseconds since 1970, rounded down.\<close>

definition UnixMilli :: "go_time \<Rightarrow> int" where
  "UnixMilli t = (t - 62135596800 * second) div 1000000"

lemma UnixMilli_mono: "s \<le> t \<Longrightarrow> UnixMilli s \<le> UnixMilli t"
  by (simp add: UnixMilli_def zdiv_mono1)

lemma second_pos [simp]: "0 < second" and minute_pos [simp]: "0 < minute"
  by (simp_all add: duration_defs)

subsection \<open>Lists\<close>

lemma sorted_le_last: "sorted xs \<Longrightarrow> x \<in> set xs \<Longrightarrow> x \<le> last xs"
  by (induction xs) (auto split: if_splits)

subsection \<open>Errors\<close>

text \<open>
  \<open>Errs\<close> is a value of \<open>errors.New\<close>, named by its text (the sentinels of the code all
  have different texts); \<open>Wrap pre e post\<close> is \<open>fmt.Errorf(pre ++ "%w" ++ post, e)\<close>;
  \<open>Join\<close> is what \<open>errors.Join\<close> returns for the errors that are not nil; \<open>PgError\<close>
  is \<open>pgdriver.Error\<close> with its SQLSTATE field and its text; \<open>ConfigErr\<close> is a pointer to a
  \<open>ConfigError\<close> of package \<open>wego\<close> with its two fields (each is allocated anew and none is a
  sentinel, so comparing the fields stands for comparing the pointers).
\<close>

datatype error =
    Errs string
  | Wrap string error string
  | Join "error list"
  | PgError string string
  | ConfigErr string string

definition Canceled :: error where "Canceled = Errs ''context canceled''"
definition DeadlineExceeded :: error where "DeadlineExceeded = Errs ''context deadline exceeded''"

lemmas [go_defs] = Canceled_def DeadlineExceeded_def

text \<open>\<open>errors.Is\<close>: the error itself or one it wraps, depth first.\<close>

fun errors_Is :: "error \<Rightarrow> error \<Rightarrow> bool" where
  "errors_Is (Errs s) t \<longleftrightarrow> t = Errs s"
| "errors_Is (Wrap pre e post) t \<longleftrightarrow> t = Wrap pre e post \<or> errors_Is e t"
| "errors_Is (Join es) t \<longleftrightarrow> t = Join es \<or> (\<exists>e\<in>set es. errors_Is e t)"
| "errors_Is (PgError c s) t \<longleftrightarrow> t = PgError c s"
| "errors_Is (ConfigErr f m) t \<longleftrightarrow> t = ConfigErr f m"

lemma errors_Is_refl [simp]: "errors_Is e e"
  by (cases e) simp_all

text \<open>\<open>errors.As\<close> into a \<open>pgdriver.Error\<close>: the SQLSTATE of the first one in the tree.\<close>

fun errors_As_pg :: "error \<Rightarrow> string option"
and errors_As_pgs :: "error list \<Rightarrow> string option" where
  "errors_As_pg (Errs s) = None"
| "errors_As_pg (Wrap pre e post) = errors_As_pg e"
| "errors_As_pg (Join es) = errors_As_pgs es"
| "errors_As_pg (PgError c s) = Some c"
| "errors_As_pg (ConfigErr f m) = None"
| "errors_As_pgs [] = None"
| "errors_As_pgs (e # es) =
     (case errors_As_pg e of None \<Rightarrow> errors_As_pgs es | Some c \<Rightarrow> Some c)"

text \<open>\<open>errors.Join\<close> of two errors: nil is dropped, and the result is nil when both are.\<close>

definition errors_Join :: "error option \<Rightarrow> error option \<Rightarrow> error option" where
  "errors_Join a b =
     (case (a, b) of
        (None, None) \<Rightarrow> None
      | (Some x, None) \<Rightarrow> Some (Join [x])
      | (None, Some y) \<Rightarrow> Some (Join [y])
      | (Some x, Some y) \<Rightarrow> Some (Join [x, y]))"

lemma errors_Join_None [errs]: "errors_Join a b = None \<longleftrightarrow> a = None \<and> b = None"
  by (cases a; cases b) (simp_all add: errors_Join_def)

lemma errors_Join_simps [simp]:
  "errors_Join None None = None"
  "errors_Join (Some x) None = Some (Join [x])"
  "errors_Join None (Some y) = Some (Join [y])"
  "errors_Join (Some x) (Some y) = Some (Join [x, y])"
  by (simp_all add: errors_Join_def)

text \<open>\<open>errors.Is\<close> on an optional error (nil is no error).\<close>

definition err_is :: "error option \<Rightarrow> error \<Rightarrow> bool" where
  "err_is e t \<longleftrightarrow> (case e of None \<Rightarrow> False | Some x \<Rightarrow> errors_Is x t)"

lemma err_is_simps [simp]: "\<not> err_is None t" "err_is (Some x) t \<longleftrightarrow> errors_Is x t"
  by (simp_all add: err_is_def)

lemma err_is_Join [errs]:
  assumes "\<And>es. t \<noteq> Join es"
  shows "err_is (errors_Join a b) t \<longleftrightarrow> err_is a t \<or> err_is b t"
  using assms by (cases a; cases b) auto

text \<open>\<open>err.Error()\<close>: the text.\<close>

fun Error :: "error \<Rightarrow> string" and Errors :: "error list \<Rightarrow> string" where
  "Error (Errs s) = s"
| "Error (Wrap pre e post) = pre @ Error e @ post"
| "Error (Join es) = Errors es"
| "Error (PgError c s) = s"
| "Error (ConfigErr f m) = ''config '' @ f @ '': '' @ m"
| "Errors [] = []"
| "Errors [e] = Error e"
| "Errors (e # es) = Error e @ CHR 0x0A # Errors es"

subsection \<open>Interfaces shared by the components\<close>

text \<open>
  A normaliser brings a name to the form under which a table keeps it.  The registries of
  the program (components, subscriptions, notifier handlers, loggers) are maps keyed by
  normalised names and look names up after normalising them; what they rely on is that
  normalising twice changes nothing.
\<close>

locale normaliser =
  fixes norm :: "'a \<Rightarrow> 'a"
  assumes norm_idem [simp]: "norm (norm x) = norm x"
begin

definition normal :: "'a \<Rightarrow> bool" where
  "normal x \<longleftrightarrow> norm x = x"

lemma normal_norm [simp]: "normal (norm x)"
  by (simp add: normal_def)

lemma normal_iff_range: "normal x \<longleftrightarrow> x \<in> range norm"
  by (metis normal_def normal_norm rangeE rangeI)

text \<open>A table filled under normalised keys finds an entry under every spelling of its name.\<close>

lemma lookup_spelling: "norm x = norm y \<Longrightarrow> (m(norm x \<mapsto> v)) (norm y) = Some v"
  by simp

lemma lookup_other: "norm x \<noteq> norm y \<Longrightarrow> (m(norm x \<mapsto> v)) (norm y) = m (norm y)"
  by simp

lemma dom_normal:
  "(\<forall>k\<in>dom m. normal k) \<Longrightarrow> (\<forall>k\<in>dom (m(norm x \<mapsto> v)). normal k)"
  by auto

end

text \<open>
  A family of functional options: each option is a function on the settings, applied in
  the order given.  If every option keeps a property of the settings, then so does every
  list of them; what a field ends with is what the last option that writes it wrote.
\<close>

locale option_family =
  fixes app :: "'opt \<Rightarrow> 'o \<Rightarrow> 'o" and good :: "'o \<Rightarrow> bool"
  assumes app_good: "good o1 \<Longrightarrow> good (app p o1)"
begin

lemma apply_all_good: "good o1 \<Longrightarrow> good (fold app ps o1)"
  by (induction ps arbitrary: o1) (auto intro: app_good)

lemma apply_all_frame: "(\<And>p o1. p \<in> set ps \<Longrightarrow> f (app p o1) = f o1) \<Longrightarrow> f (fold app ps o1) = f o1"
  by (induction ps arbitrary: o1) auto

lemma apply_last_wins:
  assumes "\<And>o1. f (app p o1) = v" and "\<And>q o1. q \<in> set qs \<Longrightarrow> f (app q o1) = f o1"
  shows "f (fold app (ps @ p # qs) o1) = v"
  using assms by (simp add: apply_all_frame)

end

text \<open>
  Runs of a step relation by events that are allowed, and an invariant that every allowed
  step keeps.
\<close>

inductive run :: "('s \<Rightarrow> 'e \<Rightarrow> 's \<Rightarrow> bool) \<Rightarrow> ('e \<Rightarrow> bool) \<Rightarrow> 's \<Rightarrow> 's \<Rightarrow> bool"
  for step allowed where
  run_refl [intro]: "run step allowed s s"
| run_step: "run step allowed s t \<Longrightarrow> step t e u \<Longrightarrow> allowed e \<Longrightarrow> run step allowed s u"

lemma run_one: "step s e t \<Longrightarrow> allowed e \<Longrightarrow> run step allowed s t"
  by (rule run_step [OF run_refl])

lemma run_trans: "run step allowed t u \<Longrightarrow> run step allowed s t \<Longrightarrow> run step allowed s u"
  by (induction rule: run.induct) (auto intro: run_step)

locale invariant_steps =
  fixes step :: "'s \<Rightarrow> 'e \<Rightarrow> 's \<Rightarrow> bool" and allowed :: "'e \<Rightarrow> bool" and inv :: "'s \<Rightarrow> bool"
  assumes step_inv: "inv s \<Longrightarrow> step s e t \<Longrightarrow> allowed e \<Longrightarrow> inv t"
begin

lemma run_inv: "run step allowed s t \<Longrightarrow> inv s \<Longrightarrow> inv t"
  by (induction rule: run.induct) (auto intro: step_inv)

end

text \<open>
  A back-off table: a list of delays indexed by the attempt number, where attempts past the
  end of the list use its last delay.  Both the pub/sub and the reminder workers have one.
\<close>

locale backoff =
  fixes table :: "'c \<Rightarrow> duration list" and first :: int and delay :: "'c \<Rightarrow> int \<Rightarrow> duration"
  assumes in_table:
      "table c \<noteq> [] \<Longrightarrow> first \<le> n \<Longrightarrow> n < first + int (length (table c)) \<Longrightarrow>
       delay c n = table c ! nat (n - first)"
    and past_table:
      "table c \<noteq> [] \<Longrightarrow> first + int (length (table c)) \<le> n \<Longrightarrow> delay c n = last (table c)"
begin

lemma delay_mem:
  assumes "table c \<noteq> []" and "first \<le> n"
  shows "delay c n \<in> set (table c)"
proof (cases "n < first + int (length (table c))")
  case True
  with assms have "nat (n - first) < length (table c)" by simp
  with True assms show ?thesis by (simp add: in_table)
next
  case False
  with assms show ?thesis by (simp add: past_table)
qed

lemma delay_mono:
  assumes ne: "table c \<noteq> []" and srt: "sorted (table c)" and "first \<le> m" and mn: "m \<le> n"
  shows "delay c m \<le> delay c n"
proof (cases "n < first + int (length (table c))")
  case True
  with assms have "nat (m - first) \<le> nat (n - first)" "nat (n - first) < length (table c)"
    by auto
  with True assms show ?thesis by (simp add: in_table sorted_nth_mono)
next
  case False
  have "\<forall>x\<in>set (table c). x \<le> last (table c)"
    using srt by (simp add: sorted_le_last)
  with False assms delay_mem [of c m] show ?thesis by (simp add: past_table)
qed

lemma delay_bounds:
  assumes "table c \<noteq> []" "first \<le> n" "\<forall>x\<in>set (table c). lo \<le> x \<and> x \<le> hi"
  shows "lo \<le> delay c n \<and> delay c n \<le> hi"
  using assms delay_mem by blast

end

end
