(* ===== verification/GoStrings.thy ===== *)
theory GoStrings
  imports Prelude "HOL-Library.Sublist" "HOL-Library.Char_ord" "HOL-Library.List_Lexorder"
begin

text \<open>
  The parts of Go's \<open>strings\<close> and \<open>strconv\<close> the program uses.  A Go string is a sequence
  of bytes, and so is a \<open>string\<close> here (a list of 8-bit characters); \<open>len\<close> is \<open>length\<close>
  and \<open>sort.Strings\<close> is \<open>sort\<close> in the lexicographic order of bytes.  \<open>TrimSpace\<close> is
  modelled on all byte strings, with the UTF-8 encodings of every Unicode space;
  \<open>ToLower\<close> and \<open>ToUpper\<close> map the ASCII letters and leave the other bytes alone, so
  they are Go's on ASCII text.
\<close>

subsection \<open>TrimSpace\<close>

text \<open>The UTF-8 encodings of the runes for which \<open>unicode.IsSpace\<close> holds.\<close>

definition space_encodings :: "string list" where
  "space_encodings =
     [[CHR 0x09], [CHR 0x0A], [CHR 0x0B], [CHR 0x0C], [CHR 0x0D], [CHR 0x20],
      [CHR 0xC2, CHR 0x85], [CHR 0xC2, CHR 0xA0], [CHR 0xE1, CHR 0x9A, CHR 0x80],
      [CHR 0xE2, CHR 0x80, CHR 0x80], [CHR 0xE2, CHR 0x80, CHR 0x81],
      [CHR 0xE2, CHR 0x80, CHR 0x82], [CHR 0xE2, CHR 0x80, CHR 0x83],
      [CHR 0xE2, CHR 0x80, CHR 0x84], [CHR 0xE2, CHR 0x80, CHR 0x85],
      [CHR 0xE2, CHR 0x80, CHR 0x86], [CHR 0xE2, CHR 0x80, CHR 0x87],
      [CHR 0xE2, CHR 0x80, CHR 0x88], [CHR 0xE2, CHR 0x80, CHR 0x89],
      [CHR 0xE2, CHR 0x80, CHR 0x8A], [CHR 0xE2, CHR 0x80, CHR 0xA8],
      [CHR 0xE2, CHR 0x80, CHR 0xA9], [CHR 0xE2, CHR 0x80, CHR 0xAF],
      [CHR 0xE2, CHR 0x81, CHR 0x9F], [CHR 0xE3, CHR 0x80, CHR 0x80]]"

text \<open>Drop from the front, as often as possible, one of the non-empty strings of a list.\<close>

function strip :: "string list \<Rightarrow> string \<Rightarrow> string" where
  "strip encs s =
     (case find (\<lambda>e. e \<noteq> [] \<and> prefix e s) encs of
        None \<Rightarrow> s
      | Some e \<Rightarrow> strip encs (drop (length e) s))"
  by pat_completeness auto
termination
  by (relation "measure (\<lambda>(encs, s). length s)")
     (auto simp: find_Some_iff prefix_def)

declare strip.simps [simp del]

definition TrimSpace :: "string \<Rightarrow> string" where
  "TrimSpace s = rev (strip (map rev space_encodings) (rev (strip space_encodings s)))"

lemma find_None_no_prefix:
  "find (\<lambda>e. e \<noteq> [] \<and> prefix e s) encs = None \<longleftrightarrow> (\<forall>e\<in>set encs. e \<noteq> [] \<longrightarrow> \<not> prefix e s)"
  by (auto simp: find_None_iff)

lemma strip_None:
  "find (\<lambda>e. e \<noteq> [] \<and> prefix e s) encs = None \<Longrightarrow> strip encs s = s"
  by (subst strip.simps) simp

lemma strip_Some:
  "find (\<lambda>e. e \<noteq> [] \<and> prefix e s) encs = Some e \<Longrightarrow> strip encs s = strip encs (drop (length e) s)"
  by (subst strip.simps) simp

lemma strip_no_prefix: "e \<in> set encs \<Longrightarrow> e \<noteq> [] \<Longrightarrow> \<not> prefix e (strip encs s)"
proof (induction encs s rule: strip.induct)
  case (1 encs s)
  show ?case
  proof (cases "find (\<lambda>e. e \<noteq> [] \<and> prefix e s) encs")
    case None
    with 1 show ?thesis by (simp add: strip_None) (simp add: find_None_no_prefix)
  next
    case (Some a)
    with 1 show ?thesis by (simp add: strip_Some)
  qed
qed

lemma strip_id: "(\<forall>e\<in>set encs. e \<noteq> [] \<longrightarrow> \<not> prefix e s) \<Longrightarrow> strip encs s = s"
  by (rule strip_None) (simp add: find_None_no_prefix)

lemma strip_idem [simp]: "strip encs (strip encs s) = strip encs s"
  by (rule strip_id) (simp add: strip_no_prefix)

lemma strip_suffix: "suffix (strip encs s) s"
proof (induction encs s rule: strip.induct)
  case (1 encs s)
  show ?case
  proof (cases "find (\<lambda>e. e \<noteq> [] \<and> prefix e s) encs")
    case None
    then show ?thesis by (simp add: strip_None)
  next
    case (Some e)
    with 1 have "suffix (strip encs (drop (length e) s)) (drop (length e) s)" by simp
    also have "suffix (drop (length e) s) s" by (rule suffix_drop)
    finally show ?thesis using Some by (simp add: strip_Some)
  qed
qed

lemma set_strip: "set (strip encs s) \<subseteq> set s"
  using strip_suffix by (auto dest: set_mono_suffix)

lemma set_TrimSpace: "set (TrimSpace s) \<subseteq> set s"
proof -
  have "set (TrimSpace s) \<subseteq> set (rev (strip space_encodings s))"
    unfolding TrimSpace_def set_rev using set_strip by fastforce
  also have "\<dots> \<subseteq> set s" using set_strip by simp
  finally show ?thesis .
qed

lemma TrimSpace_prefix_strip: "prefix (TrimSpace s) (strip space_encodings s)"
proof -
  have "suffix (strip (map rev space_encodings) (rev (strip space_encodings s)))
               (rev (strip space_encodings s))"
    by (rule strip_suffix)
  then show ?thesis by (simp add: TrimSpace_def suffix_to_prefix)
qed

text \<open>Neither end of a trimmed string is a space, so trimming again changes nothing.\<close>

lemma TrimSpace_no_leading:
  assumes "e \<in> set space_encodings" "e \<noteq> []"
  shows "\<not> prefix e (TrimSpace s)"
  using assms TrimSpace_prefix_strip [of s] strip_no_prefix prefix_order.trans by blast

lemma TrimSpace_idem [simp]: "TrimSpace (TrimSpace s) = TrimSpace s"
proof -
  have "strip space_encodings (TrimSpace s) = TrimSpace s"
    by (rule strip_id) (simp add: TrimSpace_no_leading)
  then show ?thesis
    by (simp add: TrimSpace_def)
qed

lemma TrimSpace_Nil [simp]: "TrimSpace [] = []"
  using set_TrimSpace [of "[]"] by simp

text \<open>Text that begins and ends with visible ASCII characters is not changed.\<close>

definition visible :: "char \<Rightarrow> bool" where
  "visible c \<longleftrightarrow> 0x21 \<le> (of_char c :: nat) \<and> (of_char c :: nat) \<le> 0x7E"

lemma space_encodings_ends:
  "e \<in> set space_encodings \<Longrightarrow> e \<noteq> [] \<and> \<not> visible (hd e) \<and> \<not> visible (last e)"
  by (auto simp: space_encodings_def visible_def)

lemma no_prefix_visible:
  assumes "s \<noteq> [] \<Longrightarrow> visible (hd s)" and "e \<noteq> []" "\<not> visible (hd e)"
  shows "\<not> prefix e s"
  using assms by (cases e; cases s) auto

lemma TrimSpace_visible:
  assumes "s \<noteq> [] \<Longrightarrow> visible (hd s)" "s \<noteq> [] \<Longrightarrow> visible (last s)"
  shows "TrimSpace s = s"
proof -
  have "strip space_encodings s = s"
    by (rule strip_id) (use assms(1) no_prefix_visible space_encodings_ends in blast)
  moreover have "strip (map rev space_encodings) (rev s) = rev s"
  proof (rule strip_id, intro ballI impI)
    fix e assume "e \<in> set (map rev space_encodings)"
    then have "e \<noteq> []" "\<not> visible (hd e)"
      using space_encodings_ends by (auto simp: hd_rev)
    then show "\<not> prefix e (rev s)"
      using assms(2) by (intro no_prefix_visible) (auto simp: hd_rev)
  qed
  ultimately show ?thesis by (simp add: TrimSpace_def)
qed

subsection \<open>Case mapping\<close>

definition lower_char :: "char \<Rightarrow> char" where
  "lower_char c =
     (let n = of_char c :: nat in if 0x41 \<le> n \<and> n \<le> 0x5A then char_of (n + 0x20) else c)"

definition upper_char :: "char \<Rightarrow> char" where
  "upper_char c =
     (let n = of_char c :: nat in if 0x61 \<le> n \<and> n \<le> 0x7A then char_of (n - 0x20) else c)"

definition ToLower :: "string \<Rightarrow> string" where "ToLower = map lower_char"
definition ToUpper :: "string \<Rightarrow> string" where "ToUpper = map upper_char"

lemma of_char_lower:
  "(of_char (lower_char c) :: nat) =
     (if 0x41 \<le> (of_char c :: nat) \<and> (of_char c :: nat) \<le> 0x5A then of_char c + 0x20 else of_char c)"
  by (simp add: lower_char_def Let_def)

lemma lower_char_idem [simp]: "lower_char (lower_char c) = lower_char c"
  by (simp add: lower_char_def Let_def)

lemma ToLower_idem [simp]: "ToLower (ToLower s) = ToLower s"
  by (simp add: ToLower_def comp_def)

lemma ToLower_Nil [simp]: "ToLower s = [] \<longleftrightarrow> s = []"
  by (simp add: ToLower_def)

text \<open>Lower-casing neither makes nor removes a byte outside the letters.\<close>

definition not_letter :: "char \<Rightarrow> bool" where
  "not_letter b \<longleftrightarrow> \<not> (0x41 \<le> (of_char b :: nat) \<and> (of_char b :: nat) \<le> 0x5A)
      \<and> \<not> (0x61 \<le> (of_char b :: nat) \<and> (of_char b :: nat) \<le> 0x7A)"

lemma lower_char_not_letter: "not_letter b \<Longrightarrow> b = lower_char c \<longleftrightarrow> b = c"
  by (auto simp: lower_char_def not_letter_def Let_def split: if_splits)

lemma prefix_ToLower:
  "(\<forall>b\<in>set e. not_letter b) \<Longrightarrow> prefix e (ToLower s) \<longleftrightarrow> prefix e s"
proof (induction e arbitrary: s)
  case (Cons b e)
  then show ?case by (cases s) (auto simp: ToLower_def lower_char_not_letter)
qed simp

lemma space_encodings_not_letter: "e \<in> set space_encodings \<Longrightarrow> \<forall>b\<in>set e. not_letter b"
  by (auto simp: space_encodings_def not_letter_def)

lemma strip_ToLower:
  assumes "\<And>e. e \<in> set encs \<Longrightarrow> \<forall>b\<in>set e. not_letter b"
  shows "strip encs (ToLower s) = ToLower (strip encs s)"
proof -
  have "(\<forall>e\<in>set encs. \<forall>b\<in>set e. not_letter b) \<Longrightarrow> ?thesis"
  proof (induction encs s rule: strip.induct)
    case (1 encs s)
    have eq: "find (\<lambda>e. e \<noteq> [] \<and> prefix e (ToLower s)) encs = find (\<lambda>e. e \<noteq> [] \<and> prefix e s) encs"
      using 1(2) by (intro find_cong) (auto simp: prefix_ToLower)
    show ?case
    proof (cases "find (\<lambda>e. e \<noteq> [] \<and> prefix e s) encs")
      case None
      with eq show ?thesis by (simp add: strip_None)
    next
      case (Some e)
      have "strip encs (ToLower s) = strip encs (ToLower (drop (length e) s))"
        using Some eq strip_Some [of "ToLower s" encs e] by (simp add: ToLower_def drop_map)
      also have "\<dots> = ToLower (strip encs s)"
        using Some 1 by (simp add: strip_Some [OF Some])
      finally show ?thesis .
    qed
  qed
  with assms show ?thesis by blast
qed

lemma TrimSpace_ToLower: "TrimSpace (ToLower s) = ToLower (TrimSpace s)"
proof -
  have r: "rev (ToLower t) = ToLower (rev t)" for t by (simp add: ToLower_def rev_map)
  have "strip (map rev space_encodings) (ToLower t) = ToLower (strip (map rev space_encodings) t)" for t
    by (rule strip_ToLower) (auto dest: space_encodings_not_letter)
  moreover have "strip space_encodings (ToLower t) = ToLower (strip space_encodings t)" for t
    by (rule strip_ToLower) (rule space_encodings_not_letter)
  ultimately show ?thesis by (simp add: TrimSpace_def r)
qed

subsection \<open>Decimal numbers\<close>

text \<open>\<open>strconv.Itoa\<close> and \<open>strconv.Atoi\<close>; every failure of \<open>Atoi\<close> is \<open>None\<close>.\<close>

fun digits :: "nat \<Rightarrow> string" where
  "digits n = (if n < 10 then [char_of (0x30 + n)] else digits (n div 10) @ [char_of (0x30 + n mod 10)])"

declare digits.simps [simp del]

definition Itoa :: "int \<Rightarrow> string" where
  "Itoa i = (if i < 0 then CHR ''-'' # digits (nat (- i)) else digits (nat i))"

definition digit_val :: "char \<Rightarrow> nat option" where
  "digit_val c = (let n = of_char c :: nat in if 0x30 \<le> n \<and> n \<le> 0x39 then Some (n - 0x30) else None)"

fun parse_digits :: "nat \<Rightarrow> string \<Rightarrow> nat option" where
  "parse_digits acc [] = Some acc"
| "parse_digits acc (c # cs) =
     (case digit_val c of None \<Rightarrow> None | Some d \<Rightarrow> parse_digits (10 * acc + d) cs)"

definition split_sign :: "string \<Rightarrow> bool \<times> string" where
  "split_sign s =
     (case s of
        [] \<Rightarrow> (False, [])
      | c # cs \<Rightarrow> if c = CHR ''-'' then (True, cs) else if c = CHR ''+'' then (False, cs) else (False, s))"

definition Atoi :: "string \<Rightarrow> int option" where
  "Atoi s =
     (let (neg, ds) = split_sign s in
      if ds = [] then None
      else case parse_digits 0 ds of
             None \<Rightarrow> None
           | Some n \<Rightarrow> (let v = (if neg then - int n else int n) in if in_int64 v then Some v else None))"

lemma digit_val_char [simp]: "d < 10 \<Longrightarrow> digit_val (char_of (0x30 + d)) = Some d"
  by (simp add: digit_val_def Let_def)

lemma digit_visible: "d < 10 \<Longrightarrow> visible (char_of (0x30 + d :: nat))"
  by (simp add: visible_def)

lemma parse_digits_append:
  "parse_digits acc (xs @ ys) =
     (case parse_digits acc xs of None \<Rightarrow> None | Some n \<Rightarrow> parse_digits n ys)"
  by (induction xs arbitrary: acc) (auto split: option.splits)

lemma parse_digits_digits: "parse_digits 0 (digits n) = Some n"
proof (induction n rule: digits.induct)
  case (1 n)
  show ?case
  proof (cases "n < 10")
    case True
    then show ?thesis by (subst digits.simps) simp
  next
    case False
    with 1 show ?thesis by (subst digits.simps) (simp add: parse_digits_append)
  qed
qed

lemma digits_ne [simp]: "digits n \<noteq> []"
  by (subst digits.simps) simp

lemma digits_set: "c \<in> set (digits n) \<Longrightarrow> \<exists>d<10. c = char_of (0x30 + d :: nat)"
proof (induction n rule: digits.induct)
  case (1 n)
  show ?case
  proof (cases "n < 10")
    case True
    with 1(2) show ?thesis by (subst (asm) digits.simps) auto
  next
    case False
    then have "digits n = digits (n div 10) @ [char_of (0x30 + n mod 10)]"
      by (subst digits.simps) simp
    with 1(2) have "c \<in> set (digits (n div 10)) \<or> c = char_of (0x30 + n mod 10)" by auto
    then show ?thesis using 1(1) [OF False] by (auto intro: exI [of _ "n mod 10"])
  qed
qed

lemma digits_visible: "c \<in> set (digits n) \<Longrightarrow> visible c"
  using digits_set digit_visible by blast

lemma split_sign_digits: "split_sign (digits n) = (False, digits n)"
proof -
  obtain c cs where d: "digits n = c # cs" by (cases "digits n") auto
  then obtain k where "k < 10" "c = char_of (0x30 + k :: nat)" using digits_set [of c n] by auto
  then have "(of_char c :: nat) = 0x30 + k" by simp
  then have "c \<noteq> CHR ''-''" "c \<noteq> CHR ''+''" by auto
  with d show ?thesis by (simp add: split_sign_def)
qed

lemma split_sign_minus: "split_sign (CHR ''-'' # s) = (True, s)"
  by (simp add: split_sign_def)

lemma Atoi_Itoa [simp]: "in_int64 i \<Longrightarrow> Atoi (Itoa i) = Some i"
  by (cases "i < 0")
     (simp_all add: Atoi_def Itoa_def split_sign_digits split_sign_minus parse_digits_digits)

lemma Itoa_ne [simp]: "Itoa i \<noteq> []"
  by (simp add: Itoa_def)

lemma Itoa_visible: "c \<in> set (Itoa i) \<Longrightarrow> visible c"
  by (auto simp: Itoa_def digits_visible split: if_splits) (simp add: visible_def)

lemma TrimSpace_Itoa [simp]: "TrimSpace (Itoa i) = Itoa i"
  by (rule TrimSpace_visible) (simp_all add: Itoa_visible [where i = i])

lemma Itoa_inj: "Itoa i = Itoa j \<Longrightarrow> in_int64 i \<Longrightarrow> in_int64 j \<Longrightarrow> i = j"
  by (metis Atoi_Itoa option.inject)

subsection \<open>Normalisers\<close>

text \<open>The three normalisers the program builds from these.\<close>

interpretation trim_norm: normaliser TrimSpace
  by unfold_locales simp

interpretation lower_trim_norm: normaliser "\<lambda>s. TrimSpace (ToLower s)"
  by unfold_locales (simp add: TrimSpace_ToLower)

subsection \<open>Joining, replacing and prefixes\<close>

fun strings_Join :: "string list \<Rightarrow> string \<Rightarrow> string" where
  "strings_Join [] sep = []"
| "strings_Join [s] sep = s"
| "strings_Join (s # ss) sep = s @ sep @ strings_Join ss sep"

text \<open>\<open>strings.ReplaceAll\<close> of a single character.\<close>

definition ReplaceAll_char :: "char \<Rightarrow> string \<Rightarrow> string \<Rightarrow> string" where
  "ReplaceAll_char c new s = concat (map (\<lambda>x. if x = c then new else [x]) s)"

definition HasPrefix :: "string \<Rightarrow> string \<Rightarrow> bool" where
  "HasPrefix s pre \<longleftrightarrow> take (length pre) s = pre"

definition TrimPrefix :: "string \<Rightarrow> string \<Rightarrow> string" where
  "TrimPrefix s pre = (if HasPrefix s pre then drop (length pre) s else s)"

end
