(* ===== verification/ReminderModel.thy ===== *)
theory ReminderModel
  imports GoStrings "HOL-Library.Multiset"
begin

text \<open>
  The data of package \<open>reminder\<close> (model.go and the sentinels of store.go), and the
  PostgreSQL database it works on.  The database and its driver are not part of the
  repository: they are a parameter \<open>pg\<close>, a record of the statements the code issues, over
  an abstract state type \<open>'d\<close>.  What each query says (its WHERE, SET, ORDER BY and LIMIT)
  is written by the code and is an argument of the statement; what a statement does with it
  is stated by \<open>pg_laws\<close>.  Whether a statement succeeds is decided by the state, so every
  error path of the code can be taken.
\<close>

subsection \<open>Reminders\<close>

type_synonym status = string

definition StatusPending :: status where "StatusPending = ''pending''"
definition StatusProcessing :: status where "StatusProcessing = ''processing''"
definition StatusSent :: status where "StatusSent = ''sent''"
definition StatusFailed :: status where "StatusFailed = ''failed''"
definition StatusCanceled :: status where "StatusCanceled = ''canceled''"

lemmas status_defs =
  StatusPending_def StatusProcessing_def StatusSent_def StatusFailed_def StatusCanceled_def

lemma status_distinct [simp]:
  "StatusPending \<noteq> StatusProcessing" "StatusProcessing \<noteq> StatusPending"
  "StatusPending \<noteq> StatusSent" "StatusSent \<noteq> StatusPending"
  "StatusPending \<noteq> StatusFailed" "StatusFailed \<noteq> StatusPending"
  "StatusPending \<noteq> StatusCanceled" "StatusCanceled \<noteq> StatusPending"
  "StatusProcessing \<noteq> StatusSent" "StatusSent \<noteq> StatusProcessing"
  "StatusProcessing \<noteq> StatusFailed" "StatusFailed \<noteq> StatusProcessing"
  "StatusProcessing \<noteq> StatusCanceled" "StatusCanceled \<noteq> StatusProcessing"
  "StatusSent \<noteq> StatusFailed" "StatusFailed \<noteq> StatusSent"
  "StatusSent \<noteq> StatusCanceled" "StatusCanceled \<noteq> StatusSent"
  "StatusFailed \<noteq> StatusCanceled" "StatusCanceled \<noteq> StatusFailed"
  by (simp_all add: status_defs)

record reminder =
  ID :: int
  Key :: string
  UserID :: string
  Channel :: string
  Payload :: string
  ScheduleAt :: go_time
  Status :: status
  RetryCount :: int
  MaxRetry :: int
  LastError :: string
  SentAt :: "go_time option"
  CanceledAt :: "go_time option"
  CreatedAt :: go_time
  UpdatedAt :: go_time

record create_params =
  cp_Key :: string
  cp_UserID :: string
  cp_Channel :: string
  cp_Payload :: string
  cp_ScheduleAt :: go_time
  cp_MaxRetry :: int

record list_params =
  lp_UserID :: string
  lp_Channel :: string
  lp_Statuses :: "status list"
  lp_ScheduleFrom :: go_time
  lp_ScheduleTo :: go_time
  lp_Limit :: int
  lp_Cursor :: string

record list_result =
  lr_Items :: "reminder list"
  lr_NextCursor :: string

record list_cursor =
  lc_ScheduleAt :: go_time
  lc_ID :: int

definition validStatus :: "status \<Rightarrow> bool" where
  "validStatus s \<longleftrightarrow>
     s = StatusPending \<or> s = StatusProcessing \<or> s = StatusSent \<or> s = StatusFailed
     \<or> s = StatusCanceled"

definition ErrInvalidReminder :: error where "ErrInvalidReminder = Errs ''invalid reminder''"
definition ErrNotFound :: error where "ErrNotFound = Errs ''reminder not found''"
definition ErrAlreadyExists :: error where "ErrAlreadyExists = Errs ''reminder already exists''"
definition ErrStateConflict :: error where "ErrStateConflict = Errs ''reminder state conflict''"

lemmas [go_defs] =
  ErrInvalidReminder_def ErrNotFound_def ErrAlreadyExists_def ErrStateConflict_def

lemma reminder_errors_distinct [simp]:
  "ErrInvalidReminder \<noteq> ErrNotFound" "ErrNotFound \<noteq> ErrInvalidReminder"
  "ErrInvalidReminder \<noteq> ErrStateConflict" "ErrStateConflict \<noteq> ErrInvalidReminder"
  "ErrNotFound \<noteq> ErrStateConflict" "ErrStateConflict \<noteq> ErrNotFound"
  "ErrAlreadyExists \<noteq> ErrInvalidReminder" "ErrInvalidReminder \<noteq> ErrAlreadyExists"
  by (simp_all add: go_defs)

subsection \<open>The database\<close>

text \<open>
  \<open>pg_rows\<close> and \<open>pg_locked\<close> are not operations: they give the contents of the table and
  the ids of the rows other transactions hold locks on, for the laws to speak about.
  \<open>pg_ts\<close> is the value a timestamp has once it is a parameter of a statement (the column
  type keeps microseconds).  An update returns its \<open>sql.Result\<close>, whose \<open>RowsAffected\<close> can
  fail as well.  A transaction is a state of its own between \<open>BeginTx\<close> and \<open>Commit\<close>.
\<close>

type_synonym row_pred = "reminder \<Rightarrow> bool"
type_synonym sqlResult = "error + int"

record 'd pg =
  pg_rows :: "'d \<Rightarrow> reminder list"
  pg_locked :: "'d \<Rightarrow> int set"
  pg_ts :: "go_time \<Rightarrow> go_time"
  pg_insert :: "reminder \<Rightarrow> ('d, error, int) op"
  pg_select :: "row_pred \<Rightarrow> ('d, error, reminder list) op"
  pg_select_page :: "row_pred \<Rightarrow> nat \<Rightarrow> ('d, error, reminder list) op"
  pg_select_for_update :: "row_pred \<Rightarrow> nat \<Rightarrow> ('d, error, reminder list) op"
  pg_update :: "row_pred \<Rightarrow> (reminder \<Rightarrow> reminder) \<Rightarrow> ('d, error, sqlResult) op"
  pg_begin :: "('d, error, 'd) op"
  pg_commit :: "'d \<Rightarrow> 'd \<Rightarrow> error option \<times> 'd"
  pg_rollback :: "'d \<Rightarrow> 'd \<Rightarrow> 'd"

text \<open>ORDER BY schedule_at ASC, id ASC.\<close>

definition due_key :: "reminder \<Rightarrow> go_time \<times> int" where
  "due_key r = (ScheduleAt r, ID r)"

definition page :: "row_pred \<Rightarrow> nat \<Rightarrow> reminder list \<Rightarrow> reminder list" where
  "page p n rows = take n (sort_key due_key (filter p rows))"

definition update_rows :: "row_pred \<Rightarrow> (reminder \<Rightarrow> reminder) \<Rightarrow> reminder list \<Rightarrow> reminder list" where
  "update_rows p f = map (\<lambda>r. if p r then f r else r)"

text \<open>
  INSERT gives the row a fresh positive id and respects UNIQUE (key).  After an error the
  statement has done nothing or all it does (each statement outside a transaction commits by
  itself, and its answer can be lost); SQLSTATE 23505 is only reported for a key the table has,
  and then nothing was done.
\<close>

definition inserted :: "'d pg \<Rightarrow> reminder \<Rightarrow> 'd \<Rightarrow> int \<Rightarrow> 'd \<Rightarrow> bool" where
  "inserted pg r d i d' \<longleftrightarrow>
     0 < i \<and> i \<notin> ID ` set (pg_rows pg d) \<and> Key r \<notin> Key ` set (pg_rows pg d)
     \<and> pg_rows pg d' = pg_rows pg d @ [r\<lparr>ID := i\<rparr>]"

definition insert_law :: "'d pg \<Rightarrow> bool" where
  "insert_law pg \<longleftrightarrow>
     (\<forall>r d i d'. pg_insert pg r d = (Inr i, d') \<longrightarrow> inserted pg r d i d')
   \<and> (\<forall>r d e d'. pg_insert pg r d = (Inl e, d') \<longrightarrow>
        (if errors_As_pg e = Some ''23505''
         then pg_rows pg d' = pg_rows pg d \<and> Key r \<in> Key ` set (pg_rows pg d)
         else pg_rows pg d' = pg_rows pg d \<or> (\<exists>i. inserted pg r d i d')))"

text \<open>SELECT returns the rows of its WHERE clause, in no order unless there is ORDER BY.\<close>

definition select_law :: "'d pg \<Rightarrow> bool" where
  "select_law pg \<longleftrightarrow>
     (\<forall>p d res d'. pg_select pg p d = (res, d') \<longrightarrow>
        pg_rows pg d' = pg_rows pg d
        \<and> (\<forall>xs. res = Inr xs \<longrightarrow> mset xs = mset (filter p (pg_rows pg d))))
   \<and> (\<forall>p n d res d'. pg_select_page pg p n d = (res, d') \<longrightarrow>
        pg_rows pg d' = pg_rows pg d
        \<and> (\<forall>xs. res = Inr xs \<longrightarrow> xs = page p n (pg_rows pg d)))"

text \<open>FOR UPDATE SKIP LOCKED: the same, without the rows that are locked.\<close>

definition select_for_update_law :: "'d pg \<Rightarrow> bool" where
  "select_for_update_law pg \<longleftrightarrow>
     (\<forall>p n d res d'. pg_select_for_update pg p n d = (res, d') \<longrightarrow>
        pg_rows pg d' = pg_rows pg d
        \<and> (\<forall>xs. res = Inr xs \<longrightarrow>
             xs = page (\<lambda>r. p r \<and> ID r \<notin> pg_locked pg d) n (pg_rows pg d)))"

text \<open>
  UPDATE changes the rows of its WHERE clause and counts them.  An id or a key is never
  SET by the code.  After an error it has changed all of them or none.
\<close>

definition update_law :: "'d pg \<Rightarrow> bool" where
  "update_law pg \<longleftrightarrow>
     (\<forall>p f d res d'. pg_update pg p f d = (Inr res, d') \<longrightarrow>
        pg_rows pg d' = update_rows p f (pg_rows pg d)
        \<and> (\<forall>n. res = Inr n \<longrightarrow> n = int (length (filter p (pg_rows pg d)))))
   \<and> (\<forall>p f d e d'. pg_update pg p f d = (Inl e, d') \<longrightarrow>
        pg_rows pg d' = pg_rows pg d \<or> pg_rows pg d' = update_rows p f (pg_rows pg d))"

text \<open>
  A transaction starts from the table; committing makes its table the table, rolling back
  drops it.  After a failed COMMIT either may be the case (the connection can be lost after
  the server committed).
\<close>

definition tx_law :: "'d pg \<Rightarrow> bool" where
  "tx_law pg \<longleftrightarrow>
     (\<forall>d tx d'. pg_begin pg d = (Inr tx, d') \<longrightarrow>
        pg_rows pg tx = pg_rows pg d \<and> pg_locked pg tx = pg_locked pg d
        \<and> pg_rows pg d' = pg_rows pg d)
   \<and> (\<forall>d e d'. pg_begin pg d = (Inl e, d') \<longrightarrow> pg_rows pg d' = pg_rows pg d)
   \<and> (\<forall>tx d d'. pg_commit pg tx d = (None, d') \<longrightarrow> pg_rows pg d' = pg_rows pg tx)
   \<and> (\<forall>tx d e d'. pg_commit pg tx d = (Some e, d') \<longrightarrow>
        pg_rows pg d' = pg_rows pg d \<or> pg_rows pg d' = pg_rows pg tx)
   \<and> (\<forall>tx d. pg_rows pg (pg_rollback pg tx d) = pg_rows pg d)"

definition ts_law :: "'d pg \<Rightarrow> bool" where
  "ts_law pg \<longleftrightarrow> mono (pg_ts pg) \<and> (\<forall>t. pg_ts pg (pg_ts pg t) = pg_ts pg t)"

definition pg_laws :: "'d pg \<Rightarrow> bool" where
  "pg_laws pg \<longleftrightarrow>
     insert_law pg \<and> select_law pg \<and> select_for_update_law pg \<and> update_law pg \<and> tx_law pg
     \<and> ts_law pg"

lemma pg_insert_ok:
  "pg_laws pg \<Longrightarrow> pg_insert pg r d = (Inr i, d') \<Longrightarrow>
     0 < i \<and> i \<notin> ID ` set (pg_rows pg d) \<and> Key r \<notin> Key ` set (pg_rows pg d)
     \<and> pg_rows pg d' = pg_rows pg d @ [r\<lparr>ID := i\<rparr>]"
  by (simp add: pg_laws_def insert_law_def inserted_def)

lemma pg_insert_err:
  "pg_laws pg \<Longrightarrow> pg_insert pg r d = (Inl e, d') \<Longrightarrow> errors_As_pg e = Some ''23505'' \<Longrightarrow>
     pg_rows pg d' = pg_rows pg d \<and> Key r \<in> Key ` set (pg_rows pg d)"
  by (simp add: pg_laws_def insert_law_def)

lemma pg_insert_rows:
  assumes "pg_laws pg" "pg_insert pg r d = (res, d')"
  shows "pg_rows pg d' = pg_rows pg d \<or> (\<exists>i. inserted pg r d i d')"
proof -
  have l: "insert_law pg" using assms(1) by (simp add: pg_laws_def)
  show ?thesis
  proof (cases res)
    case (Inl e)
    with l assms(2) show ?thesis unfolding insert_law_def by metis
  next
    case (Inr i)
    with l assms(2) show ?thesis unfolding insert_law_def by blast
  qed
qed

lemma pg_select_rows:
  "pg_laws pg \<Longrightarrow> pg_select pg p d = (res, d') \<Longrightarrow> pg_rows pg d' = pg_rows pg d"
  by (simp add: pg_laws_def select_law_def)

lemma pg_select_ok:
  "pg_laws pg \<Longrightarrow> pg_select pg p d = (Inr xs, d') \<Longrightarrow> mset xs = mset (filter p (pg_rows pg d))"
  by (simp add: pg_laws_def select_law_def)

lemma pg_page_rows:
  "pg_laws pg \<Longrightarrow> pg_select_page pg p n d = (res, d') \<Longrightarrow> pg_rows pg d' = pg_rows pg d"
  by (simp add: pg_laws_def select_law_def)

lemma pg_page_ok:
  "pg_laws pg \<Longrightarrow> pg_select_page pg p n d = (Inr xs, d') \<Longrightarrow> xs = page p n (pg_rows pg d)"
  by (simp add: pg_laws_def select_law_def)

lemma pg_lock_rows:
  "pg_laws pg \<Longrightarrow> pg_select_for_update pg p n d = (res, d') \<Longrightarrow> pg_rows pg d' = pg_rows pg d"
  by (simp add: pg_laws_def select_for_update_law_def)

lemma pg_lock_ok:
  "pg_laws pg \<Longrightarrow> pg_select_for_update pg p n d = (Inr xs, d') \<Longrightarrow>
     xs = page (\<lambda>r. p r \<and> ID r \<notin> pg_locked pg d) n (pg_rows pg d)"
  by (simp add: pg_laws_def select_for_update_law_def)

lemma pg_update_ok:
  "pg_laws pg \<Longrightarrow> pg_update pg p f d = (Inr res, d') \<Longrightarrow>
     pg_rows pg d' = update_rows p f (pg_rows pg d)"
  by (simp add: pg_laws_def update_law_def)

lemma pg_update_count:
  "pg_laws pg \<Longrightarrow> pg_update pg p f d = (Inr (Inr n), d') \<Longrightarrow>
     n = int (length (filter p (pg_rows pg d)))"
  by (simp add: pg_laws_def update_law_def)

lemma pg_update_rows:
  assumes "pg_laws pg" "pg_update pg p f d = (res, d')"
  shows "pg_rows pg d' = pg_rows pg d \<or> pg_rows pg d' = update_rows p f (pg_rows pg d)"
proof -
  have l: "update_law pg" using assms(1) by (simp add: pg_laws_def)
  with assms(2) show ?thesis unfolding update_law_def by (cases res) blast+
qed

lemma pg_tx:
  assumes "pg_laws pg"
  shows "pg_begin pg d = (Inr tx, d') \<Longrightarrow>
           pg_rows pg tx = pg_rows pg d \<and> pg_locked pg tx = pg_locked pg d \<and> pg_rows pg d' = pg_rows pg d"
    and "pg_begin pg d = (Inl e, d') \<Longrightarrow> pg_rows pg d' = pg_rows pg d"
    and "pg_commit pg tx d = (None, d') \<Longrightarrow> pg_rows pg d' = pg_rows pg tx"
    and "pg_commit pg tx d = (Some e, d') \<Longrightarrow>
           pg_rows pg d' = pg_rows pg d \<or> pg_rows pg d' = pg_rows pg tx"
    and "pg_rows pg (pg_rollback pg tx d) = pg_rows pg d"
proof -
  have t: "tx_law pg" using assms by (simp add: pg_laws_def)
  show "pg_begin pg d = (Inr tx, d') \<Longrightarrow>
           pg_rows pg tx = pg_rows pg d \<and> pg_locked pg tx = pg_locked pg d \<and> pg_rows pg d' = pg_rows pg d"
    using t by (simp add: tx_law_def)
  show "pg_begin pg d = (Inl e, d') \<Longrightarrow> pg_rows pg d' = pg_rows pg d"
    using t by (simp add: tx_law_def)
  show "pg_commit pg tx d = (None, d') \<Longrightarrow> pg_rows pg d' = pg_rows pg tx"
    using t by (simp add: tx_law_def)
  show "pg_commit pg tx d = (Some e, d') \<Longrightarrow>
           pg_rows pg d' = pg_rows pg d \<or> pg_rows pg d' = pg_rows pg tx"
    using t unfolding tx_law_def by blast
  show "pg_rows pg (pg_rollback pg tx d) = pg_rows pg d"
    using t by (simp add: tx_law_def)
qed

lemma pg_ts_mono: "pg_laws pg \<Longrightarrow> s \<le> t \<Longrightarrow> pg_ts pg s \<le> pg_ts pg t"
  by (simp add: pg_laws_def ts_law_def monoD)

lemma pg_ts_idem: "pg_laws pg \<Longrightarrow> pg_ts pg (pg_ts pg t) = pg_ts pg t"
  by (simp add: pg_laws_def ts_law_def)

subsection \<open>A database in memory\<close>

text \<open>
  A concrete database for the witnesses: a table with the next id, the ids of locked rows,
  and the outcomes of the statements to come (\<open>Some e\<close> makes the next one fail with \<open>e\<close>).
  Timestamps keep microseconds.
\<close>

record memdb =
  md_rows :: "reminder list"
  md_next :: nat
  md_locked :: "int list"
  md_faults :: "error option list"

definition mem_guard :: "memdb \<Rightarrow> (memdb \<Rightarrow> 'a \<times> memdb) \<Rightarrow> (error + 'a) \<times> memdb" where
  "mem_guard d k =
     (case md_faults d of
        Some e # fs \<Rightarrow> (Inl e, d\<lparr>md_faults := fs\<rparr>)
      | fs \<Rightarrow> (case k (d\<lparr>md_faults := tl fs\<rparr>) of (a, d') \<Rightarrow> (Inr a, d')))"

definition mem_next :: "nat \<Rightarrow> reminder list \<Rightarrow> int" where
  "mem_next n rs = int (Suc (max n (fold (\<lambda>r m. max (nat (ID r)) m) rs 0)))"

definition mem_insert :: "reminder \<Rightarrow> (memdb, error, int) op" where
  "mem_insert r d =
     (case md_faults d of
        Some e # fs \<Rightarrow> (Inl (if errors_As_pg e = Some ''23505'' then Errs ''fault'' else e), d\<lparr>md_faults := fs\<rparr>)
      | fs \<Rightarrow>
         if Key r \<in> Key ` set (md_rows d)
         then (Inl (PgError ''23505'' ''duplicate key''), d\<lparr>md_faults := tl fs\<rparr>)
         else (let i = mem_next (md_next d) (md_rows d)
               in (Inr i, d\<lparr>md_rows := md_rows d @ [r\<lparr>ID := i\<rparr>], md_next := nat i, md_faults := tl fs\<rparr>)))"

definition mem_commit :: "memdb \<Rightarrow> memdb \<Rightarrow> error option \<times> memdb" where
  "mem_commit tx d =
     (case md_faults tx of
        Some e # fs \<Rightarrow> (Some e, d\<lparr>md_faults := fs\<rparr>)
      | fs \<Rightarrow> (None, tx\<lparr>md_faults := tl fs\<rparr>))"

definition mem_pg :: "memdb pg" where
  "mem_pg =
     \<lparr>pg_rows = md_rows,
      pg_locked = (\<lambda>d. set (md_locked d)),
      pg_ts = (\<lambda>t. t - t mod 1000),
      pg_insert = mem_insert,
      pg_select = (\<lambda>p d. mem_guard d (\<lambda>d. (filter p (md_rows d), d))),
      pg_select_page = (\<lambda>p n d. mem_guard d (\<lambda>d. (page p n (md_rows d), d))),
      pg_select_for_update = (\<lambda>p n d. mem_guard d (\<lambda>d.
        (page (\<lambda>r. p r \<and> ID r \<notin> set (md_locked d)) n (md_rows d), d))),
      pg_update = (\<lambda>p f d. mem_guard d (\<lambda>d.
        (Inr (int (length (filter p (md_rows d)))), d\<lparr>md_rows := update_rows p f (md_rows d)\<rparr>))),
      pg_begin = (\<lambda>d. mem_guard d (\<lambda>d. (d, d))),
      pg_commit = mem_commit,
      pg_rollback = (\<lambda>tx d. d\<lparr>md_faults := md_faults tx\<rparr>)\<rparr>"

lemma fold_max_ge: "(n :: nat) \<le> fold (\<lambda>r n. max (f r) n) rs n"
  by (induction rs arbitrary: n) (auto intro: order_trans [OF max.cobounded2])

lemma fold_max_mem: "r \<in> set rs \<Longrightarrow> f r \<le> fold (\<lambda>r n. max (f r) n) rs (n :: nat)"
proof (induction rs arbitrary: n)
  case (Cons a rs)
  then show ?case using fold_max_ge [of "max (f a) n" f rs] by (auto simp: max_def split: if_splits)
qed simp

lemma mem_next_pos: "0 < mem_next n rs"
  by (simp add: mem_next_def)

lemma mem_next_fresh: "mem_next n rs \<notin> ID ` set rs"
proof
  assume "mem_next n rs \<in> ID ` set rs"
  then obtain r where "r \<in> set rs" "ID r = mem_next n rs" by auto
  then show False using fold_max_mem [of r rs "\<lambda>r. nat (ID r)" 0] by (simp add: mem_next_def)
qed

lemma mem_insert_law: "insert_law mem_pg"
  unfolding insert_law_def
  by (auto simp: inserted_def mem_pg_def mem_insert_def Let_def mem_next_pos mem_next_fresh
      split: list.splits option.splits if_splits)

lemma mem_guard_simp:
  "mem_guard d k = (res, d') \<longleftrightarrow>
     (case md_faults d of
        Some e # fs \<Rightarrow> res = Inl e \<and> d' = d\<lparr>md_faults := fs\<rparr>
      | fs \<Rightarrow> res = Inr (fst (k (d\<lparr>md_faults := tl fs\<rparr>))) \<and> d' = snd (k (d\<lparr>md_faults := tl fs\<rparr>)))"
  by (auto simp: mem_guard_def split: list.splits option.splits prod.splits)

theorem mem_pg_laws: "pg_laws mem_pg"
proof -
  have "select_law mem_pg" "select_for_update_law mem_pg"
    by (auto simp: select_law_def select_for_update_law_def mem_pg_def mem_guard_simp
        split: list.splits option.splits)
  moreover have "update_law mem_pg"
    by (auto simp: update_law_def mem_pg_def mem_guard_simp split: list.splits option.splits)
  moreover have "tx_law mem_pg"
    by (auto simp: tx_law_def mem_pg_def mem_guard_simp mem_commit_def
        split: list.splits option.splits)
  moreover have "ts_law mem_pg"
  proof -
    have "s - s mod 1000 \<le> t - t mod 1000" if "s \<le> t" for s t :: int
      using that zdiv_mono1 [of s t 1000] by (simp add: minus_mod_eq_mult_div)
    then have "mono (\<lambda>t. t - t mod 1000 :: int)" by (intro monoI) simp
    then show ?thesis by (simp add: ts_law_def mem_pg_def)
  qed
  ultimately show ?thesis by (simp add: pg_laws_def mem_insert_law)
qed

text \<open>A table for the witnesses, one reminder of each of three statuses.\<close>

definition demo_row :: "int \<Rightarrow> string \<Rightarrow> status \<Rightarrow> reminder" where
  "demo_row i key st =
     \<lparr>ID = i, Key = key, UserID = ''u'', Channel = ''Mail'', Payload = ''{}'',
      ScheduleAt = 5 * second, Status = st, RetryCount = 0, MaxRetry = 3, LastError = [],
      SentAt = (if st = StatusSent then Some second else None),
      CanceledAt = (if st = StatusCanceled then Some second else None),
      CreatedAt = second, UpdatedAt = second\<rparr>"

definition demo_db :: memdb where
  "demo_db =
     \<lparr>md_rows = [demo_row 3 ''c'' StatusSent, demo_row 1 ''a'' StatusPending, demo_row 2 ''b'' StatusFailed],
      md_next = 3, md_locked = [], md_faults = []\<rparr>"

definition mem_up :: "memdb \<Rightarrow> bool" where
  "mem_up d \<longleftrightarrow> md_faults d = []"

lemma mem_pg_rows [simp]: "pg_rows mem_pg = md_rows"
  by (simp add: mem_pg_def)

lemma demo_db_up: "mem_up demo_db"
  by (simp add: mem_up_def demo_db_def)

end
