(* ===== verification/ReminderStore.thy ===== *)
theory ReminderStore
  imports ReminderModel
begin

text \<open>
  store.go of package \<open>reminder\<close>: the statements behind the reminder API and the worker.
  A \<open>*Store\<close> that may be nil, or whose \<open>db\<close> may be nil, is a \<open>'d pg option\<close>; the value
  of each \<open>time.Now()\<close> is an argument.  The JSON and base64 functions behind the list
  cursor are a parameter, \<open>cursor_codec\<close>.
\<close>

definition ErrNoRows :: error where "ErrNoRows = Errs ''sql: no rows in result set''"

definition isUniqueViolation :: "error \<Rightarrow> bool" where
  "isUniqueViolation e \<longleftrightarrow> errors_As_pg e = Some ''23505''"

definition mutationResult :: "error + sqlResult \<Rightarrow> error option" where
  "mutationResult res =
     (case res of
        Inl e \<Rightarrow> Some e
      | Inr (Inl e) \<Rightarrow> Some e
      | Inr (Inr rows) \<Rightarrow> if rows = 0 then Some ErrStateConflict else None)"

definition mutation :: "'d pg \<Rightarrow> row_pred \<Rightarrow> (reminder \<Rightarrow> reminder) \<Rightarrow> 'd \<Rightarrow> error option \<times> 'd" where
  "mutation pg p f d = (case pg_update pg p f d of (res, d') \<Rightarrow> (mutationResult res, d'))"

subsection \<open>Create and look up\<close>

definition new_reminder :: "create_params \<Rightarrow> go_time \<Rightarrow> reminder" where
  "new_reminder params now =
     \<lparr>ID = 0, Key = TrimSpace (cp_Key params), UserID = TrimSpace (cp_UserID params),
      Channel = TrimSpace (cp_Channel params), Payload = cp_Payload params,
      ScheduleAt = cp_ScheduleAt params, Status = StatusPending, RetryCount = 0,
      MaxRetry = (if cp_MaxRetry params \<le> 0 then 3 else cp_MaxRetry params), LastError = [],
      SentAt = None, CanceledAt = None, CreatedAt = now, UpdatedAt = now\<rparr>"

text \<open>The row an INSERT of an item stores.\<close>

definition insert_row :: "'d pg \<Rightarrow> reminder \<Rightarrow> reminder" where
  "insert_row pg item =
     item\<lparr>ScheduleAt := pg_ts pg (ScheduleAt item), CreatedAt := pg_ts pg (CreatedAt item),
          UpdatedAt := pg_ts pg (UpdatedAt item)\<rparr>"

definition create_valid :: "create_params \<Rightarrow> bool" where
  "create_valid params \<longleftrightarrow>
     \<not> (TrimSpace (cp_Key params) = [] \<or> TrimSpace (cp_UserID params) = []
        \<or> TrimSpace (cp_Channel params) = [] \<or> TrimSpace (cp_Payload params) = []
        \<or> cp_ScheduleAt params = 0)"

definition Create :: "'d pg option \<Rightarrow> create_params \<Rightarrow> go_time \<Rightarrow> ('d, error, reminder) op" where
  "Create st params now d =
     (case st of
        None \<Rightarrow> (Inl ErrInvalidReminder, d)
      | Some pg \<Rightarrow>
          if \<not> create_valid params then (Inl ErrInvalidReminder, d)
          else
            (let item = new_reminder params now in
             case pg_insert pg (insert_row pg item) d of
               (Inl e, d') \<Rightarrow> (Inl (if isUniqueViolation e then ErrAlreadyExists else e), d')
             | (Inr i, d') \<Rightarrow> (Inr (item\<lparr>ID := i\<rparr>), d')))"

definition GetByKey :: "'d pg option \<Rightarrow> string \<Rightarrow> ('d, error, reminder) op" where
  "GetByKey st key d =
     (case st of
        None \<Rightarrow> (Inl ErrInvalidReminder, d)
      | Some pg \<Rightarrow>
          if TrimSpace key = [] then (Inl ErrInvalidReminder, d)
          else
            (case pg_select pg (\<lambda>r. Key r = TrimSpace key) d of
               (Inl e, d') \<Rightarrow> (Inl (if errors_Is e ErrNoRows then ErrNotFound else e), d')
             | (Inr [], d') \<Rightarrow> (Inl ErrNotFound, d')
             | (Inr (item # _), d') \<Rightarrow> (Inr item, d')))"

subsection \<open>List\<close>

record cursor_codec =
  cc_Marshal :: "list_cursor \<Rightarrow> string"
  cc_Unmarshal :: "string \<Rightarrow> error + list_cursor"
  cc_EncodeToString :: "string \<Rightarrow> string"
  cc_DecodeString :: "string \<Rightarrow> error + string"

definition encodeCursor :: "cursor_codec \<Rightarrow> list_cursor \<Rightarrow> string" where
  "encodeCursor cc c = cc_EncodeToString cc (cc_Marshal cc c)"

definition decodeCursor :: "cursor_codec \<Rightarrow> string \<Rightarrow> error + list_cursor" where
  "decodeCursor cc raw =
     (case cc_DecodeString cc raw of
        Inl e \<Rightarrow> Inl e
      | Inr data \<Rightarrow>
          (case cc_Unmarshal cc data of
             Inl e \<Rightarrow> Inl ErrInvalidReminder
           | Inr c \<Rightarrow>
               if lc_ScheduleAt c = 0 \<or> lc_ID c \<le> 0 then Inl ErrInvalidReminder else Inr c))"

text \<open>The WHERE clause \<open>List\<close> builds, condition by condition.\<close>

definition list_where :: "'d pg \<Rightarrow> list_params \<Rightarrow> list_cursor option \<Rightarrow> row_pred" where
  "list_where pg params cursor r \<longleftrightarrow>
     (TrimSpace (lp_UserID params) \<noteq> [] \<longrightarrow> UserID r = TrimSpace (lp_UserID params))
   \<and> (TrimSpace (lp_Channel params) \<noteq> [] \<longrightarrow> Channel r = TrimSpace (lp_Channel params))
   \<and> (lp_Statuses params \<noteq> [] \<longrightarrow> Status r \<in> set (lp_Statuses params))
   \<and> (lp_ScheduleFrom params \<noteq> 0 \<longrightarrow> pg_ts pg (lp_ScheduleFrom params) \<le> ScheduleAt r)
   \<and> (lp_ScheduleTo params \<noteq> 0 \<longrightarrow> ScheduleAt r \<le> pg_ts pg (lp_ScheduleTo params))
   \<and> (case cursor of
        None \<Rightarrow> True
      | Some c \<Rightarrow> (pg_ts pg (lc_ScheduleAt c), lc_ID c) < (ScheduleAt r, ID r))"

definition list_limit :: "list_params \<Rightarrow> int" where
  "list_limit params =
     (let limit = (if lp_Limit params \<le> 0 then 50 else lp_Limit params)
      in if limit > 200 then 200 else limit)"

definition List :: "'d pg option \<Rightarrow> cursor_codec \<Rightarrow> list_params \<Rightarrow> ('d, error, list_result) op" where
  "List st cc params d =
     (case st of
        None \<Rightarrow> (Inl ErrInvalidReminder, d)
      | Some pg \<Rightarrow>
          if \<exists>s\<in>set (lp_Statuses params). \<not> validStatus s then (Inl ErrInvalidReminder, d)
          else
            (case (if lp_Cursor params = [] then Inr None
                   else (case decodeCursor cc (lp_Cursor params) of
                           Inl e \<Rightarrow> Inl ErrInvalidReminder
                         | Inr c \<Rightarrow> Inr (Some c))) of
               Inl e \<Rightarrow> (Inl e, d)
             | Inr cursor \<Rightarrow>
                 (case pg_select_page pg (list_where pg params cursor) (nat (list_limit params + 1)) d of
                    (Inl e, d') \<Rightarrow> (Inl e, d')
                  | (Inr items, d') \<Rightarrow>
                      if int (length items) > list_limit params
                      then
                        (let kept = take (nat (list_limit params)) items;
                             lst = last kept
                         in (Inr \<lparr>lr_Items = kept,
                               lr_NextCursor = encodeCursor cc
                                 \<lparr>lc_ScheduleAt = ScheduleAt lst, lc_ID = ID lst\<rparr>\<rparr>, d'))
                      else (Inr \<lparr>lr_Items = items, lr_NextCursor = []\<rparr>, d'))))"

subsection \<open>Cancel and reschedule\<close>

definition cancel_update :: "'d pg \<Rightarrow> string \<Rightarrow> go_time \<Rightarrow> 'd \<Rightarrow> error option \<times> 'd" where
  "cancel_update pg key now =
     mutation pg (\<lambda>r. Key r = key \<and> Status r \<in> {StatusPending, StatusFailed})
       (\<lambda>r. r\<lparr>Status := StatusCanceled, CanceledAt := Some (pg_ts pg now), UpdatedAt := pg_ts pg now\<rparr>)"

definition CancelByKey :: "'d pg option \<Rightarrow> string \<Rightarrow> go_time \<Rightarrow> 'd \<Rightarrow> error option \<times> 'd" where
  "CancelByKey st key0 now d =
     (let key = TrimSpace key0 in
      case st of
        None \<Rightarrow> (Some ErrInvalidReminder, d)
      | Some pg \<Rightarrow>
          if key = [] then (Some ErrInvalidReminder, d)
          else
            (case GetByKey st key d of
               (Inl e, d1) \<Rightarrow> (Some e, d1)
             | (Inr item, d1) \<Rightarrow>
                 if Status item = StatusCanceled then (None, d1)
                 else if Status item \<noteq> StatusPending \<and> Status item \<noteq> StatusFailed
                 then (Some ErrStateConflict, d1)
                 else cancel_update pg key now d1))"

definition reschedule_update :: "'d pg \<Rightarrow> string \<Rightarrow> go_time \<Rightarrow> go_time \<Rightarrow> 'd \<Rightarrow> error option \<times> 'd" where
  "reschedule_update pg key scheduleAt now =
     mutation pg (\<lambda>r. Key r = key \<and> Status r \<in> {StatusPending, StatusFailed})
       (\<lambda>r. r\<lparr>ScheduleAt := pg_ts pg scheduleAt, Status := StatusPending, RetryCount := 0,
              LastError := [], SentAt := None, CanceledAt := None, UpdatedAt := pg_ts pg now\<rparr>)"

definition RescheduleByKey ::
  "'d pg option \<Rightarrow> string \<Rightarrow> go_time \<Rightarrow> go_time \<Rightarrow> 'd \<Rightarrow> error option \<times> 'd" where
  "RescheduleByKey st key0 scheduleAt now d =
     (let key = TrimSpace key0 in
      case st of
        None \<Rightarrow> (Some ErrInvalidReminder, d)
      | Some pg \<Rightarrow>
          if key = [] \<or> scheduleAt = 0 then (Some ErrInvalidReminder, d)
          else
            (case GetByKey st key d of
               (Inl e, d1) \<Rightarrow> (Some e, d1)
             | (Inr item, d1) \<Rightarrow>
                 if Status item \<noteq> StatusPending \<and> Status item \<noteq> StatusFailed
                 then (Some ErrStateConflict, d1)
                 else reschedule_update pg key scheduleAt now d1))"

subsection \<open>The worker's statements\<close>

definition due :: "'d pg \<Rightarrow> go_time \<Rightarrow> row_pred" where
  "due pg now r \<longleftrightarrow> Status r = StatusPending \<and> ScheduleAt r \<le> pg_ts pg now"

definition claim_set :: "'d pg \<Rightarrow> go_time \<Rightarrow> reminder \<Rightarrow> reminder" where
  "claim_set pg now r = r\<lparr>Status := StatusProcessing, UpdatedAt := pg_ts pg now\<rparr>"

definition ClaimDue :: "'d pg option \<Rightarrow> go_time \<Rightarrow> int \<Rightarrow> ('d, error, reminder list) op" where
  "ClaimDue st now limit d =
     (case st of
        None \<Rightarrow> (Inl ErrInvalidReminder, d)
      | Some pg \<Rightarrow>
          if limit \<le> 0 then (Inl ErrInvalidReminder, d)
          else
            (case pg_begin pg d of
               (Inl e, d1) \<Rightarrow> (Inl e, d1)
             | (Inr tx, d1) \<Rightarrow>
                 (case pg_select_for_update pg (due pg now) (nat limit) tx of
                    (Inl e, tx1) \<Rightarrow> (Inl e, pg_rollback pg tx1 d1)
                  | (Inr items, tx1) \<Rightarrow>
                      if items = []
                      then (case pg_commit pg tx1 d1 of
                              (Some e, d2) \<Rightarrow> (Inl e, d2) | (None, d2) \<Rightarrow> (Inr [], d2))
                      else
                        (let ids = map ID items in
                         case pg_update pg (\<lambda>r. ID r \<in> set ids \<and> Status r = StatusPending)
                                (claim_set pg now) tx1 of
                           (Inl e, tx2) \<Rightarrow> (Inl e, pg_rollback pg tx2 d1)
                         | (Inr _, tx2) \<Rightarrow>
                             (case pg_commit pg tx2 d1 of
                                (Some e, d2) \<Rightarrow> (Inl e, d2)
                              | (None, d2) \<Rightarrow>
                                  (Inr (map (\<lambda>r. r\<lparr>Status := StatusProcessing, UpdatedAt := now\<rparr>) items),
                                   d2))))))"

definition RequeueStaleProcessing ::
  "'d pg option \<Rightarrow> go_time \<Rightarrow> go_time \<Rightarrow> ('d, error, int) op" where
  "RequeueStaleProcessing st staleBefore now d =
     (case st of
        None \<Rightarrow> (Inl ErrInvalidReminder, d)
      | Some pg \<Rightarrow>
          if staleBefore = 0 then (Inl ErrInvalidReminder, d)
          else
            (case pg_update pg
                    (\<lambda>r. Status r = StatusProcessing \<and> UpdatedAt r \<le> pg_ts pg staleBefore)
                    (\<lambda>r. r\<lparr>Status := StatusPending, UpdatedAt := pg_ts pg now\<rparr>) d of
               (Inl e, d') \<Rightarrow> (Inl e, d')
             | (Inr res, d') \<Rightarrow> (res, d')))"

definition MarkSent :: "'d pg option \<Rightarrow> int \<Rightarrow> go_time \<Rightarrow> 'd \<Rightarrow> error option \<times> 'd" where
  "MarkSent st i sentAt d =
     (case st of
        None \<Rightarrow> (Some ErrInvalidReminder, d)
      | Some pg \<Rightarrow>
          if i = 0 \<or> sentAt = 0 then (Some ErrInvalidReminder, d)
          else mutation pg (\<lambda>r. ID r = i \<and> Status r = StatusProcessing)
                 (\<lambda>r. r\<lparr>Status := StatusSent, SentAt := Some (pg_ts pg sentAt),
                        UpdatedAt := pg_ts pg sentAt\<rparr>) d)"

definition MarkRetry ::
  "'d pg option \<Rightarrow> reminder option \<Rightarrow> go_time \<Rightarrow> string \<Rightarrow> go_time \<Rightarrow> 'd \<Rightarrow> error option \<times> 'd" where
  "MarkRetry st item nextAt lastErr now d =
     (case (st, item) of
        (Some pg, Some it) \<Rightarrow>
          if ID it = 0 \<or> nextAt = 0 then (Some ErrInvalidReminder, d)
          else mutation pg (\<lambda>r. ID r = ID it \<and> Status r = StatusProcessing)
                 (\<lambda>r. r\<lparr>Status := StatusPending, RetryCount := wrap64 (RetryCount it + 1),
                        ScheduleAt := pg_ts pg nextAt, LastError := lastErr,
                        UpdatedAt := pg_ts pg now\<rparr>) d
      | _ \<Rightarrow> (Some ErrInvalidReminder, d))"

definition MarkFailed ::
  "'d pg option \<Rightarrow> reminder option \<Rightarrow> string \<Rightarrow> go_time \<Rightarrow> 'd \<Rightarrow> error option \<times> 'd" where
  "MarkFailed st item lastErr now d =
     (case (st, item) of
        (Some pg, Some it) \<Rightarrow>
          if ID it = 0 then (Some ErrInvalidReminder, d)
          else mutation pg (\<lambda>r. ID r = ID it \<and> Status r = StatusProcessing)
                 (\<lambda>r. r\<lparr>Status := StatusFailed, RetryCount := wrap64 (RetryCount it + 1),
                        LastError := lastErr, UpdatedAt := pg_ts pg now\<rparr>) d
      | _ \<Rightarrow> (Some ErrInvalidReminder, d))"

subsection \<open>Facts about mutations\<close>

lemma update_rows_none: "(\<forall>r\<in>set rows. \<not> p r) \<Longrightarrow> update_rows p f rows = rows"
  by (simp add: update_rows_def map_idI)

lemma mutation_rows:
  assumes "pg_laws pg" "mutation pg p f d = (e, d')"
  shows "pg_rows pg d' = pg_rows pg d \<or> pg_rows pg d' = update_rows p f (pg_rows pg d)"
proof (cases "pg_update pg p f d")
  case (Pair res d1)
  with assms have "d1 = d'" by (simp add: mutation_def)
  with pg_update_rows [OF assms(1) Pair] show ?thesis by simp
qed

lemma mutation_ok:
  assumes "pg_laws pg" "mutation pg p f d = (None, d')"
  shows "pg_rows pg d' = update_rows p f (pg_rows pg d)" "\<exists>r\<in>set (pg_rows pg d). p r"
proof -
  obtain n where u: "pg_update pg p f d = (Inr (Inr n), d')" and n: "n \<noteq> 0"
    using assms(2)
    by (auto simp: mutation_def mutationResult_def split: prod.splits sum.splits if_splits)
  show "pg_rows pg d' = update_rows p f (pg_rows pg d)"
    using assms(1) u by (rule pg_update_ok)
  from pg_update_count [OF assms(1) u] n have "filter p (pg_rows pg d) \<noteq> []" by auto
  then show "\<exists>r\<in>set (pg_rows pg d). p r" by (auto simp: filter_empty_conv)
qed

end
