(* ===== verification/ReminderService.thy ===== *)
theory ReminderService
  imports ReminderStore
begin

text \<open>
  options.go and service.go of package \<open>reminder\<close>: the worker that claims due reminders,
  notifies and records the outcome.  The options struct cannot be written outside the
  package, so its \<open>Option\<close>s are exactly the constructors of \<open>reminder_option\<close>.  Pointers
  the code only passes on (logger, telemetry) are \<open>ptr\<close>, with nil as \<open>None\<close>.  A
  notifier is a function on the reminder and on a world \<open>'w\<close> of its own.  Every reading
  of a clock is an argument.
\<close>

subsection \<open>Options\<close>

record reminder_options =
  ro_name :: string
  ro_pollInterval :: duration
  ro_batchSize :: int
  ro_processingTTL :: duration
  ro_logger :: ptr
  ro_retryDelays :: "duration list"
  ro_telemetry :: ptr
  ro_metrics :: ptr

definition reminder_defaultOptions :: reminder_options where
  "reminder_defaultOptions =
     \<lparr>ro_name = ''reminder'', ro_pollInterval = second, ro_batchSize = 32,
      ro_processingTTL = 2 * minute, ro_logger = None,
      ro_retryDelays = [minute, 5 * minute, 30 * minute], ro_telemetry = None, ro_metrics = None\<rparr>"

datatype reminder_option =
    R_WithTelemetry ptr ptr
  | R_WithName string
  | R_WithPollInterval duration
  | R_WithBatchSize int
  | R_WithProcessingTTL duration
  | R_WithLogger ptr
  | R_WithRetryDelays "duration list"

fun apply_reminder_option :: "reminder_option \<Rightarrow> reminder_options \<Rightarrow> reminder_options" where
  "apply_reminder_option (R_WithTelemetry rt ms) ro = ro\<lparr>ro_telemetry := rt, ro_metrics := ms\<rparr>"
| "apply_reminder_option (R_WithName name) ro = (if name \<noteq> [] then ro\<lparr>ro_name := name\<rparr> else ro)"
| "apply_reminder_option (R_WithPollInterval interval) ro =
     (if interval > 0 then ro\<lparr>ro_pollInterval := interval\<rparr> else ro)"
| "apply_reminder_option (R_WithBatchSize n) ro = (if n > 0 then ro\<lparr>ro_batchSize := n\<rparr> else ro)"
| "apply_reminder_option (R_WithProcessingTTL ttl) ro =
     (if ttl > 0 then ro\<lparr>ro_processingTTL := ttl\<rparr> else ro)"
| "apply_reminder_option (R_WithLogger l) ro = ro\<lparr>ro_logger := l\<rparr>"
| "apply_reminder_option (R_WithRetryDelays delays) ro =
     (if delays = [] then ro
      else (let filtered = filter (\<lambda>delay. delay > 0) delays
            in if filtered \<noteq> [] then ro\<lparr>ro_retryDelays := filtered\<rparr> else ro))"

text \<open>What the worker relies on: timers, batches and delays are positive, the name is not empty.\<close>

definition reminder_options_ok :: "reminder_options \<Rightarrow> bool" where
  "reminder_options_ok ro \<longleftrightarrow>
     ro_name ro \<noteq> [] \<and> 0 < ro_pollInterval ro \<and> 0 < ro_batchSize ro \<and> 0 < ro_processingTTL ro
     \<and> ro_retryDelays ro \<noteq> [] \<and> (\<forall>delay\<in>set (ro_retryDelays ro). 0 < delay)"

lemma reminder_default_ok: "reminder_options_ok reminder_defaultOptions"
  by (simp add: reminder_options_ok_def reminder_defaultOptions_def)

lemma apply_reminder_option_ok:
  "reminder_options_ok ro \<Longrightarrow> reminder_options_ok (apply_reminder_option p ro)"
  by (cases p) (auto simp: reminder_options_ok_def Let_def)

interpretation reminder_opts: option_family apply_reminder_option reminder_options_ok
  by unfold_locales (rule apply_reminder_option_ok)

subsection \<open>Construction\<close>

text \<open>The \<open>logger.GetLogger\<close> call for a nil logger is a parameter: the logger of a name.\<close>

record ('d, 'n) reminder_service =
  rs_store :: "'d pg option"
  rs_notifier :: "'n option"
  rs_opts :: reminder_options

definition reminder_NewService ::
  "(string \<Rightarrow> nat) \<Rightarrow> 'd pg option \<Rightarrow> 'n option \<Rightarrow> reminder_option list \<Rightarrow> ('d, 'n) reminder_service" where
  "reminder_NewService getLogger db notifier opts =
     (let o1 = fold apply_reminder_option opts reminder_defaultOptions;
          o2 = (if ro_logger o1 = None then o1\<lparr>ro_logger := Some (getLogger (ro_name o1))\<rparr> else o1)
      in \<lparr>rs_store = db, rs_notifier = notifier, rs_opts = o2\<rparr>)"

lemma reminder_NewService_ok:
  "reminder_options_ok (rs_opts (reminder_NewService gl db n opts))"
proof -
  have "reminder_options_ok (fold apply_reminder_option opts reminder_defaultOptions)"
    by (rule reminder_opts.apply_all_good) (rule reminder_default_ok)
  then show ?thesis by (simp add: reminder_NewService_def Let_def reminder_options_ok_def)
qed

subsection \<open>Retry delays\<close>

definition reminder_retryDelay :: "reminder_options \<Rightarrow> int \<Rightarrow> duration" where
  "reminder_retryDelay ro attempt =
     (if attempt \<le> 0 \<or> ro_retryDelays ro = [] then minute
      else if attempt > int (length (ro_retryDelays ro))
      then ro_retryDelays ro ! (length (ro_retryDelays ro) - 1)
      else ro_retryDelays ro ! nat (attempt - 1))"

interpretation reminder_backoff: backoff ro_retryDelays 1 reminder_retryDelay
  by unfold_locales (auto simp: reminder_retryDelay_def last_conv_nth)

lemma reminder_retryDelay_pos:
  assumes "reminder_options_ok ro"
  shows "0 < reminder_retryDelay ro n"
proof (cases "n \<le> 0")
  case True
  then show ?thesis by (simp add: reminder_retryDelay_def)
next
  case False
  with assms reminder_backoff.delay_mem [of ro n] show ?thesis
    by (auto simp: reminder_options_ok_def)
qed

subsection \<open>Dispatch\<close>

definition notify_message :: "error \<Rightarrow> string" where
  "notify_message e = (let message = TrimSpace (Error e) in if message = [] then ''notify failed'' else message)"

text \<open>
  What \<open>dispatch\<close> does once the notifier has returned \<open>outcome\<close>: it records the outcome
  in the store, at the instants \<open>now\<close> of the service clock and \<open>tnow\<close> of the store's, and
  gives its error, and the result label of the metrics if it records any.
\<close>

definition dispatch_mark ::
  "reminder_options \<Rightarrow> 'd pg option \<Rightarrow> error option \<Rightarrow> reminder \<Rightarrow> go_time \<Rightarrow> go_time \<Rightarrow> 'd
     \<Rightarrow> (error option \<times> string option) \<times> 'd" where
  "dispatch_mark opts st outcome item now tnow d =
     (case outcome of
        None \<Rightarrow>
          (case MarkSent st (ID item) now d of
             (None, d') \<Rightarrow> ((None, Some ''sent''), d')
           | (Some e, d') \<Rightarrow> ((Some e, Some ''error''), d'))
      | Some err \<Rightarrow>
          (let message = notify_message err in
           if wrap64 (RetryCount item + 1) \<ge> MaxRetry item
           then
             (case MarkFailed st (Some item) message tnow d of
                (Some markErr, d') \<Rightarrow>
                  ((Some (Wrap ''notify: '' err (''; mark failed: '' @ Error markErr)), None), d')
              | (None, d') \<Rightarrow> ((None, Some ''failed''), d'))
           else
             (let nextScheduleAt = now + reminder_retryDelay opts (wrap64 (RetryCount item + 1)) in
              case MarkRetry st (Some item) nextScheduleAt message tnow d of
                (Some markErr, d') \<Rightarrow>
                  ((Some (Wrap ''notify: '' err (''; mark retry: '' @ Error markErr)), None), d')
              | (None, d') \<Rightarrow> ((None, Some ''retry''), d'))))"

type_synonym 'w notify = "reminder \<Rightarrow> 'w \<Rightarrow> error option \<times> 'w"

definition dispatch ::
  "reminder_options \<Rightarrow> 'd pg option \<Rightarrow> 'w notify \<Rightarrow> reminder \<Rightarrow> go_time \<Rightarrow> go_time \<Rightarrow> 'w \<times> 'd
     \<Rightarrow> (error option \<times> string option) \<times> ('w \<times> 'd)" where
  "dispatch opts st notify item now tnow s =
     (case notify item (fst s) of
        (outcome, w') \<Rightarrow>
          (case dispatch_mark opts st outcome item now tnow (snd s) of
             (res, d') \<Rightarrow> (res, (w', d'))))"

text \<open>The loop of \<open>processBatch\<close>; \<open>clock k\<close> is the \<open>k\<close>-th reading of the clocks.\<close>

fun dispatch_all ::
  "reminder_options \<Rightarrow> 'd pg option \<Rightarrow> 'w notify \<Rightarrow> (nat \<Rightarrow> go_time) \<Rightarrow> nat \<Rightarrow> reminder list
     \<Rightarrow> 'w \<times> 'd \<Rightarrow> error option \<Rightarrow> error option \<times> ('w \<times> 'd)" where
  "dispatch_all opts st notify clock k [] s result = (result, s)"
| "dispatch_all opts st notify clock k (item # items) s result =
     (case dispatch opts st notify item (clock k) (clock (k + 1)) s of
        ((err, _), s') \<Rightarrow>
          dispatch_all opts st notify clock (k + 2) items s'
            (case err of
               None \<Rightarrow> result
             | Some e \<Rightarrow>
                 errors_Join result (Some (Wrap (''dispatch reminder '' @ Key item @ '': '') e []))))"

definition processBatch ::
  "reminder_options \<Rightarrow> 'd pg option \<Rightarrow> 'w notify \<Rightarrow> (nat \<Rightarrow> go_time) \<Rightarrow> 'w \<times> 'd
     \<Rightarrow> error option \<times> ('w \<times> 'd)" where
  "processBatch opts st notify clock s =
     (case ClaimDue st (clock 0) (ro_batchSize opts) (snd s) of
        (Inl e, d') \<Rightarrow> (Some e, (fst s, d'))
      | (Inr [], d') \<Rightarrow> (None, (fst s, d'))
      | (Inr items, d') \<Rightarrow> dispatch_all opts st notify clock 1 items (fst s, d') None)"

definition recoverStaleProcessing ::
  "reminder_options \<Rightarrow> 'd pg option \<Rightarrow> go_time \<Rightarrow> go_time \<Rightarrow> 'd \<Rightarrow> error option \<times> 'd" where
  "recoverStaleProcessing opts st now tnow d =
     (case RequeueStaleProcessing st (now + (- ro_processingTTL opts)) tnow d of
        (Inl e, d') \<Rightarrow> (Some e, d')
      | (Inr _, d') \<Rightarrow> (None, d'))"

text \<open>
  One tick of \<open>loop\<close>.  A recovery that failed for another reason than cancellation is
  logged and the batch is skipped; the errors of the batch are only logged.
\<close>

definition loop_tick ::
  "reminder_options \<Rightarrow> 'd pg option \<Rightarrow> 'w notify \<Rightarrow> (nat \<Rightarrow> go_time) \<Rightarrow> 'w \<times> 'd
     \<Rightarrow> error list \<times> ('w \<times> 'd)" where
  "loop_tick opts st notify clock s =
     (case recoverStaleProcessing opts st (clock 0) (clock 1) (snd s) of
        (rerr, d1) \<Rightarrow>
          (case rerr of
             Some e \<Rightarrow>
               if \<not> errors_Is e Canceled then ([e], (fst s, d1))
               else (case processBatch opts st notify (\<lambda>k. clock (k + 2)) (fst s, d1) of
                       (Some b, s') \<Rightarrow> (if \<not> errors_Is b Canceled then [b] else [], s')
                     | (None, s') \<Rightarrow> ([], s'))
           | None \<Rightarrow>
               (case processBatch opts st notify (\<lambda>k. clock (k + 2)) (fst s, d1) of
                  (Some b, s') \<Rightarrow> (if \<not> errors_Is b Canceled then [b] else [], s')
                | (None, s') \<Rightarrow> ([], s'))))"

subsection \<open>Start and stop\<close>

text \<open>
  The service's own state: whether it was started, and its worker goroutine (the pair of
  \<open>cancel\<close> and \<open>done\<close>).  \<open>Stop\<close> waits for the worker or for its context, whichever
  comes first; the argument says which.
\<close>

datatype worker = NoWorker | WorkerRunning | WorkerCanceled | WorkerDone

record reminder_run =
  rr_started :: bool
  rr_worker :: worker

definition reminder_Start ::
  "('d, 'n) reminder_service \<Rightarrow> go_time \<Rightarrow> go_time \<Rightarrow> reminder_run \<times> 'd \<Rightarrow> error option \<times> (reminder_run \<times> 'd)" where
  "reminder_Start s now tnow rd =
     (if rs_store s = None then (Some (Errs ''reminder store is not configured''), rd)
      else if rs_notifier s = None then (Some (Errs ''reminder notifier is not configured''), rd)
      else if rr_started (fst rd) then (Some (Errs ''reminder service already started''), rd)
      else
        (case recoverStaleProcessing (rs_opts s) (rs_store s) now tnow (snd rd) of
           (Some e, d') \<Rightarrow> (Some e, ((fst rd)\<lparr>rr_started := False\<rparr>, d'))
         | (None, d') \<Rightarrow> (None, ((fst rd)\<lparr>rr_started := True, rr_worker := WorkerRunning\<rparr>, d'))))"

definition reminder_Stop :: "bool \<Rightarrow> error \<Rightarrow> reminder_run \<Rightarrow> error option \<times> reminder_run" where
  "reminder_Stop done_first ctxErr r =
     (case rr_worker r of
        NoWorker \<Rightarrow> (None, r)
      | WorkerDone \<Rightarrow> (if done_first then None else Some ctxErr, r)
      | _ \<Rightarrow>
          if done_first then (None, r\<lparr>rr_worker := WorkerDone\<rparr>)
          else (Some ctxErr, r\<lparr>rr_worker := WorkerCanceled\<rparr>))"

end
