(* ===== verification/ReminderInv.thy ===== *)
theory ReminderInv
  imports ReminderService
begin

text \<open>
  The well-formedness of the \<open>reminders\<close> table and that every statement of the store keeps
  it.  One lemma about \<open>update_rows\<close> carries all UPDATE statements.
\<close>

subsection \<open>Well-formed tables\<close>

definition row_ok :: "reminder \<Rightarrow> bool" where
  "row_ok r \<longleftrightarrow>
     0 < ID r \<and> Key r \<noteq> [] \<and> validStatus (Status r)
     \<and> 0 \<le> RetryCount r \<and> RetryCount r \<le> MaxRetry r \<and> 0 < MaxRetry r \<and> in_int64 (MaxRetry r)
     \<and> (Status r \<in> {StatusPending, StatusProcessing} \<longrightarrow> RetryCount r < MaxRetry r)
     \<and> (SentAt r \<noteq> None \<longleftrightarrow> Status r = StatusSent)
     \<and> (CanceledAt r \<noteq> None \<longleftrightarrow> Status r = StatusCanceled)"

definition table_ok :: "reminder list \<Rightarrow> bool" where
  "table_ok rows \<longleftrightarrow>
     distinct (map ID rows) \<and> distinct (map Key rows) \<and> (\<forall>r\<in>set rows. row_ok r)"

text \<open>A row that has reached one of these statuses never changes again.\<close>

definition terminal :: "reminder \<Rightarrow> bool" where
  "terminal r \<longleftrightarrow> Status r = StatusSent \<or> Status r = StatusCanceled"

text \<open>A claimed copy agrees with its row on what no statement changes while it is in flight.\<close>

definition item_ok :: "reminder list \<Rightarrow> reminder \<Rightarrow> bool" where
  "item_ok rows it \<longleftrightarrow>
     0 < ID it \<and> 0 \<le> RetryCount it \<and> RetryCount it < MaxRetry it \<and> in_int64 (MaxRetry it)
     \<and> (\<forall>r\<in>set rows. ID r = ID it \<longrightarrow> MaxRetry r = MaxRetry it)"

lemma item_ok_suc: "item_ok rows it \<Longrightarrow> wrap64 (RetryCount it + 1) = RetryCount it + 1"
  by (rule wrap64_suc) (auto simp: item_ok_def in_int64_def min_int64_def)

subsection \<open>Updates of rows\<close>

lemma set_update_rows: "set (update_rows p f rows) = (\<lambda>r. if p r then f r else r) ` set rows"
  by (simp add: update_rows_def)

lemma map_update_rows:
  "(\<And>r. r \<in> set rows \<Longrightarrow> p r \<Longrightarrow> g (f r) = g r) \<Longrightarrow> map g (update_rows p f rows) = map g rows"
  by (simp add: update_rows_def)

lemma update_rows_keep: "r \<in> set rows \<Longrightarrow> \<not> p r \<Longrightarrow> r \<in> set (update_rows p f rows)"
  by (force simp: set_update_rows)

lemma table_ok_update:
  assumes "table_ok rows"
    and "\<And>r. r \<in> set rows \<Longrightarrow> row_ok r \<Longrightarrow> p r \<Longrightarrow> row_ok (f r) \<and> ID (f r) = ID r \<and> Key (f r) = Key r"
  shows "table_ok (update_rows p f rows)"
proof -
  have ok: "row_ok r" if "r \<in> set rows" for r using assms(1) that by (simp add: table_ok_def)
  have "map ID (update_rows p f rows) = map ID rows" "map Key (update_rows p f rows) = map Key rows"
    using assms(2) ok by (auto intro!: map_update_rows)
  moreover have "\<forall>r\<in>set (update_rows p f rows). row_ok r"
    using assms(2) ok by (auto simp: set_update_rows)
  ultimately show ?thesis using assms(1) by (simp add: table_ok_def)
qed

text \<open>
  What a statement may do to a table: keep it well-formed, keep its terminal rows, and keep
  the bound \<open>MaxRetry\<close> of every row (so that claimed copies stay right).
\<close>

definition evolves :: "reminder list \<Rightarrow> reminder list \<Rightarrow> bool" where
  "evolves rows rows' \<longleftrightarrow>
     (\<forall>r\<in>set rows. terminal r \<longrightarrow> r \<in> set rows')
   \<and> (\<forall>r'\<in>set rows'. ID r' \<in> ID ` set rows \<longrightarrow> (\<exists>r\<in>set rows. ID r = ID r' \<and> MaxRetry r = MaxRetry r'))
   \<and> ID ` set rows \<subseteq> ID ` set rows'"

lemma evolves_refl [simp]: "evolves rows rows"
  by (auto simp: evolves_def)

lemma evolves_update:
  assumes "\<And>r. r \<in> set rows \<Longrightarrow> p r \<Longrightarrow> \<not> terminal r \<and> ID (f r) = ID r \<and> MaxRetry (f r) = MaxRetry r"
  shows "evolves rows (update_rows p f rows)"
proof -
  have g: "ID (if p r then f r else r) = ID r" "MaxRetry (if p r then f r else r) = MaxRetry r"
    if "r \<in> set rows" for r
    using assms that by auto
  have "\<forall>r\<in>set rows. terminal r \<longrightarrow> r \<in> set (update_rows p f rows)"
    using assms update_rows_keep by blast
  moreover have "ID ` set (update_rows p f rows) = ID ` set rows"
    unfolding set_update_rows image_image by (intro image_cong refl g(1))
  moreover have "\<forall>r'\<in>set (update_rows p f rows). \<exists>r\<in>set rows. ID r = ID r' \<and> MaxRetry r = MaxRetry r'"
    using g by (force simp: set_update_rows)
  ultimately show ?thesis by (auto simp: evolves_def)
qed

text \<open>Both at once, for an UPDATE that changes rows of one status only.\<close>

definition good_change :: "reminder list \<Rightarrow> reminder list \<Rightarrow> bool" where
  "good_change rows rows' \<longleftrightarrow> (table_ok rows \<longrightarrow> table_ok rows') \<and> evolves rows rows'"

lemma good_change_refl [simp]: "good_change rows rows"
  by (simp add: good_change_def)

lemma good_change_update:
  assumes "\<And>r. r \<in> set rows \<Longrightarrow> p r \<Longrightarrow> \<not> terminal r \<and> ID (f r) = ID r \<and> Key (f r) = Key r \<and> MaxRetry (f r) = MaxRetry r"
    and "\<And>r. r \<in> set rows \<Longrightarrow> p r \<Longrightarrow> row_ok r \<Longrightarrow> row_ok (f r)"
  shows "good_change rows (update_rows p f rows)"
  using assms by (auto simp: good_change_def intro!: table_ok_update evolves_update)

lemma good_change_mutation:
  assumes "pg_laws pg" "mutation pg p f d = (e, d')"
    and "good_change (pg_rows pg d) (update_rows p f (pg_rows pg d))"
  shows "good_change (pg_rows pg d) (pg_rows pg d')"
  using mutation_rows [OF assms(1,2)] assms(3) by auto

lemma validStatus_simps [simp]:
  "validStatus StatusPending" "validStatus StatusProcessing" "validStatus StatusSent"
  "validStatus StatusFailed" "validStatus StatusCanceled"
  by (simp_all add: validStatus_def)

subsection \<open>Every statement\<close>

lemma Create_change:
  assumes "pg_laws pg" "Create (Some pg) params now d = (res, d')" "in_int64 (cp_MaxRetry params)"
  shows "good_change (pg_rows pg d) (pg_rows pg d')"
proof (cases "pg_rows pg d' = pg_rows pg d")
  case False
  let ?row = "insert_row pg (new_reminder params now)"
  obtain ires where ins: "pg_insert pg ?row d = (ires, d')" and valid: "create_valid params"
    using False assms(2)
    by (auto simp: Create_def Let_def split: if_splits prod.splits sum.splits)
  from pg_insert_rows [OF assms(1) ins] False obtain i where i: "inserted pg ?row d i d'" by blast
  let ?r = "?row\<lparr>ID := i\<rparr>"
  have row: "Status ?row = StatusPending" "RetryCount ?row = 0" "SentAt ?row = None" "CanceledAt ?row = None"
      "Key ?row \<noteq> []" "MaxRetry ?row = (if cp_MaxRetry params \<le> 0 then 3 else cp_MaxRetry params)"
    using valid by (auto simp: insert_row_def new_reminder_def create_valid_def)
  have new: "0 < i" "i \<notin> ID ` set (pg_rows pg d)" "Key ?row \<notin> Key ` set (pg_rows pg d)"
      "pg_rows pg d' = pg_rows pg d @ [?r]"
    using i by (auto simp: inserted_def)
  have "in_int64 3" by (simp add: in_int64_def min_int64_def max_int64_def)
  with assms(3) row new(1) have "row_ok ?r" by (auto simp: row_ok_def split: if_splits)
  then show ?thesis
    using new by (auto simp: good_change_def table_ok_def evolves_def)
qed simp

lemma cancel_change:
  assumes "pg_laws pg" "cancel_update pg key now d = (e, d')"
  shows "good_change (pg_rows pg d) (pg_rows pg d')"
  using assms(1) assms(2) [unfolded cancel_update_def]
  by (rule good_change_mutation) (auto intro!: good_change_update simp: terminal_def row_ok_def)

lemma reschedule_change:
  assumes "pg_laws pg" "reschedule_update pg key at now d = (e, d')"
  shows "good_change (pg_rows pg d) (pg_rows pg d')"
  using assms(1) assms(2) [unfolded reschedule_update_def]
  by (rule good_change_mutation) (auto intro!: good_change_update simp: terminal_def row_ok_def)

lemma MarkSent_change:
  assumes "pg_laws pg" "MarkSent (Some pg) i at d = (e, d')"
  shows "good_change (pg_rows pg d) (pg_rows pg d')"
proof (cases "i = 0 \<or> at = 0")
  case False
  with assms(2) have m: "mutation pg (\<lambda>r. ID r = i \<and> Status r = StatusProcessing)
      (\<lambda>r. r\<lparr>Status := StatusSent, SentAt := Some (pg_ts pg at), UpdatedAt := pg_ts pg at\<rparr>) d = (e, d')"
    by (simp add: MarkSent_def)
  show ?thesis
    by (rule good_change_mutation [OF assms(1) m])
       (auto intro!: good_change_update simp: terminal_def row_ok_def)
qed (use assms(2) in \<open>simp add: MarkSent_def\<close>)

lemma MarkRetry_change:
  assumes "pg_laws pg" "MarkRetry (Some pg) (Some it) at msg now d = (e, d')"
    and it: "item_ok (pg_rows pg d) it" "RetryCount it + 1 < MaxRetry it"
  shows "good_change (pg_rows pg d) (pg_rows pg d')"
proof (cases "ID it = 0 \<or> at = 0")
  case False
  with assms(2) item_ok_suc [OF it(1)]
  have m: "mutation pg (\<lambda>r. ID r = ID it \<and> Status r = StatusProcessing)
      (\<lambda>r. r\<lparr>Status := StatusPending, RetryCount := RetryCount it + 1, ScheduleAt := pg_ts pg at,
             LastError := msg, UpdatedAt := pg_ts pg now\<rparr>) d = (e, d')"
    by (simp add: MarkRetry_def)
  show ?thesis
    by (rule good_change_mutation [OF assms(1) m])
       (use it in \<open>auto intro!: good_change_update simp: terminal_def row_ok_def item_ok_def\<close>)
qed (use assms(2) in \<open>auto simp: MarkRetry_def\<close>)

lemma MarkFailed_change:
  assumes "pg_laws pg" "MarkFailed (Some pg) (Some it) msg now d = (e, d')"
    and it: "item_ok (pg_rows pg d) it"
  shows "good_change (pg_rows pg d) (pg_rows pg d')"
proof (cases "ID it = 0")
  case False
  with assms(2) item_ok_suc [OF it(1)]
  have m: "mutation pg (\<lambda>r. ID r = ID it \<and> Status r = StatusProcessing)
      (\<lambda>r. r\<lparr>Status := StatusFailed, RetryCount := RetryCount it + 1,
             LastError := msg, UpdatedAt := pg_ts pg now\<rparr>) d = (e, d')"
    by (simp add: MarkFailed_def)
  show ?thesis
    by (rule good_change_mutation [OF assms(1) m])
       (use it in \<open>auto intro!: good_change_update simp: terminal_def row_ok_def item_ok_def\<close>)
qed (use assms(2) in \<open>auto simp: MarkFailed_def\<close>)

lemma Requeue_change:
  assumes "pg_laws pg" "RequeueStaleProcessing (Some pg) before now d = (res, d')"
  shows "good_change (pg_rows pg d) (pg_rows pg d')"
proof -
  let ?p = "\<lambda>r. Status r = StatusProcessing \<and> UpdatedAt r \<le> pg_ts pg before"
    and ?f = "\<lambda>r. r\<lparr>Status := StatusPending, UpdatedAt := pg_ts pg now\<rparr>"
  obtain ures where "d' = d \<or> pg_update pg ?p ?f d = (ures, d')"
    using assms(2) by (auto simp: RequeueStaleProcessing_def split: if_splits prod.splits sum.splits)
  then have "pg_rows pg d' = pg_rows pg d \<or> pg_rows pg d' = update_rows ?p ?f (pg_rows pg d)"
    using pg_update_rows [OF assms(1)] by blast
  moreover have "good_change (pg_rows pg d) (update_rows
      (\<lambda>r. Status r = StatusProcessing \<and> UpdatedAt r \<le> pg_ts pg before)
      (\<lambda>r. r\<lparr>Status := StatusPending, UpdatedAt := pg_ts pg now\<rparr>) (pg_rows pg d))"
    by (auto intro!: good_change_update simp: terminal_def row_ok_def)
  ultimately show ?thesis by auto
qed

end
