(* ===== verification/ReminderSpec.thy ===== *)
theory ReminderSpec
  imports ReminderInv
begin

text \<open>
  What the operations of the reminder store promise: the exact effect of \<open>ClaimDue\<close>, an
  abstract key-value specification of the API that the SQL statements implement, and the
  completeness of keyset pagination.
\<close>

subsection \<open>Pages\<close>

lemma set_page: "set (page p n rows) \<subseteq> {r \<in> set rows. p r}"
  by (auto simp: page_def dest: in_set_takeD)

lemma distinct_ID_inj:
  "distinct (map ID rows) \<Longrightarrow> r \<in> set rows \<Longrightarrow> s \<in> set rows \<Longrightarrow> ID r = ID s \<Longrightarrow> r = s"
  by (meson distinct_map inj_on_def)

lemma distinct_ID_page:
  assumes "distinct (map ID rows)"
  shows "distinct (map ID (page p n rows))"
proof -
  have "mset (map ID (sort_key due_key (filter p rows))) = mset (map ID (filter p rows))"
    by (metis mset_map mset_sort)
  then have "distinct (map ID (sort_key due_key (filter p rows)))"
    using assms distinct_map_filter mset_eq_imp_distinct_iff by blast
  then show ?thesis by (simp add: page_def take_map [symmetric])
qed

lemma update_rows_cong:
  "(\<And>r. r \<in> set rows \<Longrightarrow> p r = q r) \<Longrightarrow> update_rows p f rows = update_rows q f rows"
  by (simp add: update_rows_def)

subsection \<open>ClaimDue\<close>

definition claimed :: "'d pg \<Rightarrow> go_time \<Rightarrow> int \<Rightarrow> 'd \<Rightarrow> reminder list" where
  "claimed pg now limit d =
     page (\<lambda>r. due pg now r \<and> ID r \<notin> pg_locked pg d) (nat limit) (pg_rows pg d)"

definition after_claim :: "'d pg \<Rightarrow> go_time \<Rightarrow> int \<Rightarrow> 'd \<Rightarrow> reminder list" where
  "after_claim pg now limit d =
     update_rows (\<lambda>r. ID r \<in> ID ` set (claimed pg now limit d)) (claim_set pg now) (pg_rows pg d)"

lemma claimed_where:
  assumes "distinct (map ID (pg_rows pg d))" "r \<in> set (pg_rows pg d)"
  shows "ID r \<in> ID ` set (claimed pg now limit d) \<and> Status r = StatusPending
     \<longleftrightarrow> ID r \<in> ID ` set (claimed pg now limit d)"
proof -
  have "Status r = StatusPending" if "ID r \<in> ID ` set (claimed pg now limit d)"
  proof -
    from that obtain s where s: "s \<in> set (claimed pg now limit d)" "ID r = ID s" by auto
    then have "s \<in> set (pg_rows pg d)" "due pg now s"
      using set_page unfolding claimed_def by blast+
    with assms s(2) show ?thesis using distinct_ID_inj by (metis due_def)
  qed
  then show ?thesis by blast
qed

text \<open>The rows after a COMMIT that may have failed.\<close>

lemma commit_rows:
  assumes "pg_laws pg" "pg_commit pg tx d = (cres, d')"
  shows "pg_rows pg d' = pg_rows pg tx \<or> cres \<noteq> None \<and> pg_rows pg d' = pg_rows pg d"
  using pg_tx(3,4) [OF assms(1), of tx d] assms(2) by (cases cres) auto

text \<open>The transaction of \<open>ClaimDue\<close> up to its UPDATE.\<close>

lemma claim_selected:
  assumes laws: "pg_laws pg" and dist: "distinct (map ID (pg_rows pg d))"
    and b: "pg_begin pg d = (Inr tx, d1)"
    and s: "pg_select_for_update pg (due pg now) (nat limit) tx = (Inr items, tx1)"
  shows "items = claimed pg now limit d" "pg_rows pg tx1 = pg_rows pg d" "pg_rows pg d1 = pg_rows pg d"
    and "update_rows (\<lambda>r. ID r \<in> set (map ID items) \<and> Status r = StatusPending) (claim_set pg now)
           (pg_rows pg d) = after_claim pg now limit d"
    and "items = [] \<Longrightarrow> after_claim pg now limit d = pg_rows pg d"
proof -
  note tx = pg_tx(1) [OF laws b]
  show sel: "items = claimed pg now limit d"
    using pg_lock_ok [OF laws s] tx by (simp add: claimed_def)
  show "pg_rows pg tx1 = pg_rows pg d" using pg_lock_rows [OF laws s] tx by simp
  show "pg_rows pg d1 = pg_rows pg d" using tx by simp
  show "update_rows (\<lambda>r. ID r \<in> set (map ID items) \<and> Status r = StatusPending) (claim_set pg now)
           (pg_rows pg d) = after_claim pg now limit d"
    unfolding after_claim_def sel set_map by (rule update_rows_cong) (rule claimed_where [OF dist])
  show "items = [] \<Longrightarrow> after_claim pg now limit d = pg_rows pg d"
    unfolding after_claim_def sel [symmetric] by (auto intro: update_rows_none)
qed

lemma ClaimDue_result:
  assumes laws: "pg_laws pg" and dist: "distinct (map ID (pg_rows pg d))"
    and c: "ClaimDue (Some pg) now limit d = (res, d')"
  shows "case res of
      Inr items \<Rightarrow>
        items = map (\<lambda>r. r\<lparr>Status := StatusProcessing, UpdatedAt := now\<rparr>) (claimed pg now limit d)
        \<and> pg_rows pg d' = after_claim pg now limit d
    | Inl e \<Rightarrow> pg_rows pg d' = pg_rows pg d \<or> pg_rows pg d' = after_claim pg now limit d"
proof (cases "limit > 0 \<and> (\<exists>tx d1. pg_begin pg d = (Inr tx, d1))")
  case False
  with c pg_tx(2) [OF laws, of d] show ?thesis
    by (cases "pg_begin pg d"; cases "fst (pg_begin pg d)") (auto simp: ClaimDue_def split: if_splits)
next
  case True
  then obtain tx d1 where lim: "\<not> limit \<le> 0" and b: "pg_begin pg d = (Inr tx, d1)" by auto
  obtain sres tx1 where s: "pg_select_for_update pg (due pg now) (nat limit) tx = (sres, tx1)"
    by (rule prod.exhaust)
  show ?thesis
  proof (cases sres)
    case (Inl e)
    with b s c lim pg_tx(5) [OF laws] pg_tx(1) [OF laws b] show ?thesis by (auto simp: ClaimDue_def)
  next
    case (Inr items)
    note sel = claim_selected [OF laws dist b s [unfolded Inr]]
    obtain ures tx2 where u: "pg_update pg (\<lambda>r. ID r \<in> set (map ID items) \<and> Status r = StatusPending)
        (claim_set pg now) tx1 = (ures, tx2)" by (rule prod.exhaust)
    obtain c1 d2 c2 d3 where cm: "pg_commit pg tx1 d1 = (c1, d2)" "pg_commit pg tx2 d1 = (c2, d3)"
      by (meson prod.exhaust)
    have "ures = Inr n \<Longrightarrow> pg_rows pg tx2 = after_claim pg now limit d" for n
      using pg_update_ok [OF laws, of _ _ tx1] u sel(2,4) by simp
    then show ?thesis
      using c lim b s Inr u cm sel commit_rows [OF laws cm(1)] commit_rows [OF laws cm(2)] pg_tx(5) [OF laws]
      by (cases "items = []"; cases ures; cases c1; cases c2) (auto simp: ClaimDue_def Let_def)
  qed
qed

lemma after_claim_change:
  assumes dist: "distinct (map ID (pg_rows pg d))"
  shows "good_change (pg_rows pg d) (after_claim pg now limit d)"
  unfolding after_claim_def
proof (rule good_change_update)
  fix r assume r: "r \<in> set (pg_rows pg d)" "ID r \<in> ID ` set (claimed pg now limit d)"
  with claimed_where [OF dist] have st: "Status r = StatusPending" by blast
  then show "\<not> terminal r \<and> ID (claim_set pg now r) = ID r \<and> Key (claim_set pg now r) = Key r
      \<and> MaxRetry (claim_set pg now r) = MaxRetry r"
    by (simp add: terminal_def claim_set_def)
  assume "row_ok r"
  with st show "row_ok (claim_set pg now r)" by (simp add: row_ok_def claim_set_def)
qed

lemma ClaimDue_change:
  assumes "pg_laws pg" "ClaimDue (Some pg) now limit d = (res, d')" "table_ok (pg_rows pg d)"
  shows "good_change (pg_rows pg d) (pg_rows pg d')"
proof -
  have dist: "distinct (map ID (pg_rows pg d))" using assms(3) by (simp add: table_ok_def)
  have "pg_rows pg d' = pg_rows pg d \<or> pg_rows pg d' = after_claim pg now limit d"
    using ClaimDue_result [OF assms(1) dist assms(2)] by (auto split: sum.splits)
  with after_claim_change [OF dist] show ?thesis by auto
qed

subsection \<open>The API as operations on a map from keys\<close>

text \<open>
  The abstract state is what a caller can observe through keys.  A database is up at a
  state, in the sense of a predicate \<open>up\<close>, when its statements succeed there and leave it
  up; the operations then have exactly the results of the abstract ones.
\<close>

type_synonym by_key = "string \<Rightarrow> reminder option"

primrec by_key_of :: "reminder list \<Rightarrow> by_key" where
  "by_key_of [] = Map.empty"
| "by_key_of (r # rows) = (by_key_of rows)(Key r \<mapsto> r)"

definition pg_up :: "'d pg \<Rightarrow> ('d \<Rightarrow> bool) \<Rightarrow> bool" where
  "pg_up pg up \<longleftrightarrow>
     (\<forall>d. up d \<longrightarrow>
        (\<forall>p. \<exists>xs d'. pg_select pg p d = (Inr xs, d') \<and> up d')
      \<and> (\<forall>p f. \<exists>n d'. pg_update pg p f d = (Inr (Inr n), d') \<and> up d')
      \<and> (\<forall>r. \<exists>d'. up d' \<and>
            (if Key r \<in> Key ` set (pg_rows pg d)
             then \<exists>e. pg_insert pg r d = (Inl e, d') \<and> errors_As_pg e = Some ''23505''
             else \<exists>i. pg_insert pg r d = (Inr i, d'))))"

lemma mem_pg_up: "pg_up mem_pg mem_up"
proof -
  have "\<exists>d'. mem_up d' \<and> (if Key r \<in> Key ` set (md_rows d)
      then \<exists>e. mem_insert r d = (Inl e, d') \<and> errors_As_pg e = Some ''23505''
      else \<exists>i. mem_insert r d = (Inr i, d'))" if "mem_up d" for r d
    using that by (cases "Key r \<in> Key ` set (md_rows d)")
      (auto simp: mem_up_def mem_insert_def Let_def)
  then show ?thesis
    unfolding pg_up_def
    by (simp add: mem_pg_def mem_guard_def mem_up_def split del: if_split cong: if_cong)
qed

lemma demo_table_ok: "table_ok (pg_rows mem_pg demo_db)"
  by (simp add: demo_db_def demo_row_def table_ok_def row_ok_def in_int64_def min_int64_def max_int64_def)

definition spec_Get :: "by_key \<Rightarrow> string \<Rightarrow> error + reminder" where
  "spec_Get m key = (case m key of None \<Rightarrow> Inl ErrNotFound | Some r \<Rightarrow> Inr r)"

definition spec_Cancel :: "by_key \<Rightarrow> string \<Rightarrow> go_time \<Rightarrow> error option \<times> by_key" where
  "spec_Cancel m key t =
     (case m key of
        None \<Rightarrow> (Some ErrNotFound, m)
      | Some r \<Rightarrow>
          if Status r = StatusCanceled then (None, m)
          else if Status r = StatusPending \<or> Status r = StatusFailed
          then (None, m(key \<mapsto> r\<lparr>Status := StatusCanceled, CanceledAt := Some t, UpdatedAt := t\<rparr>))
          else (Some ErrStateConflict, m))"

definition spec_Reschedule :: "by_key \<Rightarrow> string \<Rightarrow> go_time \<Rightarrow> go_time \<Rightarrow> error option \<times> by_key" where
  "spec_Reschedule m key at t =
     (case m key of
        None \<Rightarrow> (Some ErrNotFound, m)
      | Some r \<Rightarrow>
          if Status r = StatusPending \<or> Status r = StatusFailed
          then (None, m(key \<mapsto> r\<lparr>ScheduleAt := at, Status := StatusPending, RetryCount := 0,
                  LastError := [], SentAt := None, CanceledAt := None, UpdatedAt := t\<rparr>))
          else (Some ErrStateConflict, m))"

lemma by_key_of_None: "by_key_of rows k = None \<longleftrightarrow> k \<notin> Key ` set rows"
  by (induction rows) auto

lemma by_key_of_Key: "by_key_of rows k = Some r \<Longrightarrow> r \<in> set rows \<and> Key r = k"
  by (induction rows) (auto split: if_splits)

lemma by_key_of_Some:
  assumes "distinct (map Key rows)" "r \<in> set rows"
  shows "by_key_of rows (Key r) = Some r"
  using assms
proof (induction rows)
  case (Cons a rows)
  then show ?case by (cases "r = a") (auto, metis image_eqI)
qed simp

lemma by_key_of_append:
  "Key r \<notin> Key ` set rows \<Longrightarrow> by_key_of (rows @ [r]) = (by_key_of rows)(Key r \<mapsto> r)"
  by (induction rows) auto

lemma by_key_of_update:
  assumes key: "\<And>r. Key (f r) = Key r"
  shows "by_key_of (update_rows (\<lambda>r. Key r = k \<and> q r) f rows) =
    (case by_key_of rows k of
       Some r \<Rightarrow> if q r then (by_key_of rows)(k \<mapsto> f r) else by_key_of rows
     | None \<Rightarrow> by_key_of rows)"
proof
  fix j
  have "by_key_of (update_rows (\<lambda>r. Key r = k \<and> q r) f rows) j =
      map_option (\<lambda>r. if Key r = k \<and> q r then f r else r) (by_key_of rows j)"
    using key by (induction rows) (auto simp: update_rows_def)
  then show "by_key_of (update_rows (\<lambda>r. Key r = k \<and> q r) f rows) j =
    (case by_key_of rows k of
       Some r \<Rightarrow> if q r then (by_key_of rows)(k \<mapsto> f r) else by_key_of rows
     | None \<Rightarrow> by_key_of rows) j"
    by (cases "j = k"; cases "by_key_of rows j")
       (auto dest!: by_key_of_Key split: option.splits)
qed

lemma GetByKey_spec:
  assumes laws: "pg_laws pg" and up: "pg_up pg up" "up d" and ok: "table_ok (pg_rows pg d)"
    and key: "TrimSpace key \<noteq> []" and g: "GetByKey (Some pg) key d = (res, d')"
  shows "res = spec_Get (by_key_of (pg_rows pg d)) (TrimSpace key) \<and> pg_rows pg d' = pg_rows pg d \<and> up d'"
proof -
  have dist: "distinct (map Key (pg_rows pg d))" using ok by (simp add: table_ok_def)
  obtain xs d1 where s: "pg_select pg (\<lambda>r. Key r = TrimSpace key) d = (Inr xs, d1)" "up d1"
    using up unfolding pg_up_def by blast
  have xs: "set xs = {r \<in> set (pg_rows pg d). Key r = TrimSpace key}"
    using pg_select_ok [OF laws s(1)] by (metis set_filter set_mset_mset)
  have rows: "pg_rows pg d1 = pg_rows pg d" using laws s(1) by (rule pg_select_rows)
  show ?thesis
  proof (cases xs)
    case Nil
    with xs have "by_key_of (pg_rows pg d) (TrimSpace key) = None" by (auto simp: by_key_of_None)
    with g key s Nil rows show ?thesis by (auto simp: GetByKey_def spec_Get_def)
  next
    case (Cons r rs)
    with xs have "r \<in> set (pg_rows pg d) \<and> Key r = TrimSpace key" by auto
    then have "by_key_of (pg_rows pg d) (TrimSpace key) = Some r" using by_key_of_Some [OF dist] by metis
    with g key s Cons rows show ?thesis by (auto simp: GetByKey_def spec_Get_def)
  qed
qed

lemma mutation_up:
  assumes "pg_laws pg" "pg_up pg up" "up d" "mutation pg p f d = (e, d')"
  shows "pg_rows pg d' = update_rows p f (pg_rows pg d)" "up d'"
    and "e = (if \<exists>r\<in>set (pg_rows pg d). p r then None else Some ErrStateConflict)"
proof -
  obtain n d1 where u: "pg_update pg p f d = (Inr (Inr n), d1)" "up d1"
    using assms(2,3) unfolding pg_up_def by blast
  note n = pg_update_count [OF assms(1) u(1)]
  from u assms(4) have e: "d1 = d'" "e = (if n = 0 then Some ErrStateConflict else None)"
    by (auto simp: mutation_def mutationResult_def)
  show "pg_rows pg d' = update_rows p f (pg_rows pg d)" "up d'"
    using pg_update_ok [OF assms(1) u(1)] u(2) e(1) by auto
  show "e = (if \<exists>r\<in>set (pg_rows pg d). p r then None else Some ErrStateConflict)"
    using e(2) n by (auto simp: filter_empty_conv)
qed

text \<open>
  C7: on a database that is up, \<open>CancelByKey\<close> is the abstract cancellation: it cancels a
  pending or failed reminder, succeeds without a change on a canceled one, and otherwise
  returns \<open>ErrNotFound\<close> or \<open>ErrStateConflict\<close> and changes nothing.
\<close>

theorem CancelByKey_refines:
  assumes laws: "pg_laws pg" and up: "pg_up pg up" "up d" and ok: "table_ok (pg_rows pg d)"
    and key: "TrimSpace key \<noteq> []" and c: "CancelByKey (Some pg) key now d = (e, d')"
  shows "(e, by_key_of (pg_rows pg d')) =
    spec_Cancel (by_key_of (pg_rows pg d)) (TrimSpace key) (pg_ts pg now)"
proof -
  obtain g d1 where g: "GetByKey (Some pg) (TrimSpace key) d = (g, d1)" by (rule prod.exhaust)
  have G: "g = spec_Get (by_key_of (pg_rows pg d)) (TrimSpace key)" "pg_rows pg d1 = pg_rows pg d" "up d1"
    using GetByKey_spec [OF laws up ok _ g] key by auto
  obtain e2 d2 where u: "cancel_update pg (TrimSpace key) now d1 = (e2, d2)" by (rule prod.exhaust)
  note m = mutation_up [OF laws up(1) G(3) u [unfolded cancel_update_def]]
  show ?thesis
    using c g G u key m(3)
    by (cases "by_key_of (pg_rows pg d) (TrimSpace key)")
       (auto simp: CancelByKey_def spec_Get_def spec_Cancel_def m(1) by_key_of_update
         dest: by_key_of_Key split: if_splits)
qed

lemma CancelByKey_refines_witness:
  "(fst (CancelByKey (Some mem_pg) '' a '' 7000 demo_db),
    by_key_of (pg_rows mem_pg (snd (CancelByKey (Some mem_pg) '' a '' 7000 demo_db)))) =
   spec_Cancel (by_key_of (pg_rows mem_pg demo_db)) (TrimSpace '' a '') (pg_ts mem_pg 7000)
   \<and> fst (spec_Cancel (by_key_of (pg_rows mem_pg demo_db)) (TrimSpace '' a '') (pg_ts mem_pg 7000)) = None
   \<and> fst (spec_Cancel (by_key_of (pg_rows mem_pg demo_db)) ''c'' (pg_ts mem_pg 7000)) = Some ErrStateConflict"
proof -
  have k: "TrimSpace '' a '' = ''a''" by code_simp
  then have "TrimSpace '' a '' \<noteq> []" by simp
  note w = CancelByKey_refines [OF mem_pg_laws mem_pg_up demo_db_up demo_table_ok this prod.collapse [symmetric]]
  show ?thesis by (intro conjI w) (simp_all add: k spec_Cancel_def demo_db_def demo_row_def)
qed

text \<open>
  C8: on a database that is up, \<open>RescheduleByKey\<close> is the abstract rescheduling: a pending or
  failed reminder becomes pending at the new instant with its delivery state reset, any
  other is left alone with \<open>ErrNotFound\<close> or \<open>ErrStateConflict\<close>.
\<close>

theorem RescheduleByKey_refines:
  assumes laws: "pg_laws pg" and up: "pg_up pg up" "up d" and ok: "table_ok (pg_rows pg d)"
    and key: "TrimSpace key \<noteq> []" "at \<noteq> 0"
    and c: "RescheduleByKey (Some pg) key at now d = (e, d')"
  shows "(e, by_key_of (pg_rows pg d')) =
    spec_Reschedule (by_key_of (pg_rows pg d)) (TrimSpace key) (pg_ts pg at) (pg_ts pg now)"
proof -
  obtain g d1 where g: "GetByKey (Some pg) (TrimSpace key) d = (g, d1)" by (rule prod.exhaust)
  have G: "g = spec_Get (by_key_of (pg_rows pg d)) (TrimSpace key)" "pg_rows pg d1 = pg_rows pg d" "up d1"
    using GetByKey_spec [OF laws up ok _ g] key by auto
  obtain e2 d2 where u: "reschedule_update pg (TrimSpace key) at now d1 = (e2, d2)" by (rule prod.exhaust)
  note m = mutation_up [OF laws up(1) G(3) u [unfolded reschedule_update_def]]
  show ?thesis
    using c g G u key m(3)
    by (cases "by_key_of (pg_rows pg d) (TrimSpace key)")
       (auto simp: RescheduleByKey_def spec_Get_def spec_Reschedule_def m(1) by_key_of_update
         dest: by_key_of_Key split: if_splits)
qed

lemma RescheduleByKey_refines_witness:
  "(fst (RescheduleByKey (Some mem_pg) ''b'' 9000 7000 demo_db),
    by_key_of (pg_rows mem_pg (snd (RescheduleByKey (Some mem_pg) ''b'' 9000 7000 demo_db)))) =
   spec_Reschedule (by_key_of (pg_rows mem_pg demo_db)) (TrimSpace ''b'') (pg_ts mem_pg 9000) (pg_ts mem_pg 7000)
   \<and> fst (spec_Reschedule (by_key_of (pg_rows mem_pg demo_db)) (TrimSpace ''b'') 9000 7000) = None"
proof -
  have k: "TrimSpace ''b'' = ''b''" by code_simp
  then have "TrimSpace ''b'' \<noteq> []" by simp
  note w = RescheduleByKey_refines
    [OF mem_pg_laws mem_pg_up demo_db_up demo_table_ok this _ prod.collapse [symmetric], of 9000 7000]
  show ?thesis by (intro conjI w) (simp_all add: k spec_Reschedule_def demo_db_def demo_row_def)
qed

text \<open>
  C9: on a database that is up, \<open>Create\<close> with valid parameters stores a pending reminder
  under a fresh id and its trimmed key and returns it, or returns \<open>ErrAlreadyExists\<close> and
  changes nothing when the key is taken; with invalid ones it changes nothing.
\<close>

theorem Create_refines:
  assumes laws: "pg_laws pg" and up: "pg_up pg up" "up d"
    and c: "Create (Some pg) params now d = (res, d')"
  shows "if \<not> create_valid params then res = Inl ErrInvalidReminder \<and> d' = d
    else case by_key_of (pg_rows pg d) (TrimSpace (cp_Key params)) of
      Some r \<Rightarrow> res = Inl ErrAlreadyExists \<and> by_key_of (pg_rows pg d') = by_key_of (pg_rows pg d)
    | None \<Rightarrow> \<exists>i>0. i \<notin> ID ` set (pg_rows pg d)
        \<and> res = Inr ((new_reminder params now)\<lparr>ID := i\<rparr>)
        \<and> by_key_of (pg_rows pg d') = (by_key_of (pg_rows pg d))
            (TrimSpace (cp_Key params) \<mapsto> (insert_row pg (new_reminder params now))\<lparr>ID := i\<rparr>)"
proof (cases "create_valid params")
  case True
  let ?row = "insert_row pg (new_reminder params now)"
  have k: "Key ?row = TrimSpace (cp_Key params)" by (simp add: insert_row_def new_reminder_def)
  show ?thesis
  proof (cases "Key ?row \<in> Key ` set (pg_rows pg d)")
    case taken: True
    then obtain e d1 where i: "pg_insert pg ?row d = (Inl e, d1)" "errors_As_pg e = Some ''23505''"
      using up unfolding pg_up_def by metis
    moreover obtain r where "by_key_of (pg_rows pg d) (Key ?row) = Some r"
      using taken by_key_of_None by blast
    ultimately show ?thesis using c True k pg_insert_err [OF laws i]
      by (auto simp: Create_def Let_def isUniqueViolation_def)
  next
    case free: False
    then obtain i d1 where i: "pg_insert pg ?row d = (Inr i, d1)"
      using up unfolding pg_up_def by metis
    have "by_key_of (pg_rows pg d) (Key ?row) = None" using free by (simp add: by_key_of_None)
    with c True k i pg_insert_ok [OF laws i] free show ?thesis
      by (auto simp: Create_def Let_def by_key_of_append)
  qed
qed (use c in \<open>simp add: Create_def\<close>)

definition demo_params :: create_params where
  "demo_params = \<lparr>cp_Key = '' d '', cp_UserID = ''u'', cp_Channel = ''Mail'', cp_Payload = ''{}'',
     cp_ScheduleAt = 9 * second, cp_MaxRetry = 2\<rparr>"

lemma demo_params_valid: "create_valid demo_params"
  by code_simp

lemma Create_refines_witness:
  "\<exists>i>0. i \<notin> ID ` set (pg_rows mem_pg demo_db)
     \<and> fst (Create (Some mem_pg) demo_params 7000 demo_db) = Inr ((new_reminder demo_params 7000)\<lparr>ID := i\<rparr>)
     \<and> by_key_of (pg_rows mem_pg (snd (Create (Some mem_pg) demo_params 7000 demo_db))) =
        (by_key_of (pg_rows mem_pg demo_db))
          (TrimSpace (cp_Key demo_params) \<mapsto> (insert_row mem_pg (new_reminder demo_params 7000))\<lparr>ID := i\<rparr>)"
proof -
  have k: "TrimSpace (cp_Key demo_params) = ''d''" by code_simp
  have n: "by_key_of (pg_rows mem_pg demo_db) ''d'' = None"
    by (simp add: demo_db_def demo_row_def)
  from Create_refines [OF mem_pg_laws mem_pg_up demo_db_up prod.collapse [symmetric], of demo_params 7000]
  show ?thesis by (simp only: demo_params_valid k n not_True_eq_False if_False option.case)
qed

end
