(* ===== verification/ReminderSystem.thy ===== *)
theory ReminderSystem
  imports ReminderSpec
begin

text \<open>
  The reminder system as a whole: callers of the API and any number of workers that share
  the table, interleaved statement by statement.  The state has the database, the claimed
  reminders no notifier has been called for yet, those whose notifier has returned but
  whose outcome is not recorded yet, and, for the statements only, how often the notifier
  was called for each id since its creation or last rescheduling.
\<close>

subsection \<open>Steps\<close>

record 'd rsys =
  sys_db :: 'd
  sys_inflight :: "reminder list"
  sys_marking :: "(reminder \<times> error option) list"
  sys_notified :: "int \<Rightarrow> nat"

datatype revent =
    EvCreate | EvCancel | EvReschedule | EvClaim | EvNotify int | EvMark | EvRecover | EvCrash | EvIdle

text \<open>Rescheduling starts the count of the rescheduled row afresh.\<close>

definition reset_count :: "reminder list \<Rightarrow> reminder list \<Rightarrow> string \<Rightarrow> (int \<Rightarrow> nat) \<Rightarrow> int \<Rightarrow> nat" where
  "reset_count rows rows' key n i =
     (if rows' \<noteq> rows \<and> (\<exists>r\<in>set rows. ID r = i \<and> Key r = key \<and> Status r \<in> {StatusPending, StatusFailed})
      then 0 else n i)"

inductive rstep :: "'d pg \<Rightarrow> reminder_options \<Rightarrow> 'd rsys \<Rightarrow> revent \<Rightarrow> 'd rsys \<Rightarrow> bool"
  for pg opts where
  create: "Create (Some pg) params now (sys_db s) = (res, d') \<Longrightarrow> in_int64 (cp_MaxRetry params) \<Longrightarrow>
     rstep pg opts s EvCreate (s\<lparr>sys_db := d'\<rparr>)"
| cancel: "cancel_update pg key now (sys_db s) = (e, d') \<Longrightarrow>
     rstep pg opts s EvCancel (s\<lparr>sys_db := d'\<rparr>)"
| reschedule: "reschedule_update pg key at now (sys_db s) = (e, d') \<Longrightarrow>
     rstep pg opts s EvReschedule
       (s\<lparr>sys_db := d', sys_notified :=
          reset_count (pg_rows pg (sys_db s)) (pg_rows pg d') key (sys_notified s)\<rparr>)"
| claim: "ClaimDue (Some pg) now limit (sys_db s) = (Inr items, d') \<Longrightarrow>
     rstep pg opts s EvClaim (s\<lparr>sys_db := d', sys_inflight := sys_inflight s @ items\<rparr>)"
| claim_error: "ClaimDue (Some pg) now limit (sys_db s) = (Inl e, d') \<Longrightarrow>
     rstep pg opts s EvClaim (s\<lparr>sys_db := d'\<rparr>)"
| notify: "sys_inflight s = xs @ it # ys \<Longrightarrow>
     rstep pg opts s (EvNotify (ID it))
       (s\<lparr>sys_inflight := xs @ ys, sys_marking := (it, outcome) # sys_marking s,
          sys_notified := (sys_notified s)(ID it := Suc (sys_notified s (ID it)))\<rparr>)"
| mark: "sys_marking s = xs @ (it, outcome) # ys \<Longrightarrow>
     dispatch_mark opts (Some pg) outcome it now tnow (sys_db s) = (res, d') \<Longrightarrow>
     rstep pg opts s EvMark (s\<lparr>sys_db := d', sys_marking := xs @ ys\<rparr>)"
| recover: "recoverStaleProcessing opts (Some pg) now tnow (sys_db s) = (e, d') \<Longrightarrow>
     rstep pg opts s EvRecover (s\<lparr>sys_db := d'\<rparr>)"
| crash: "rstep pg opts s EvCrash
     (s\<lparr>sys_inflight := filter P (sys_inflight s), sys_marking := filter Q (sys_marking s)\<rparr>)"
| idle: "pg_rows pg d' = pg_rows pg (sys_db s) \<Longrightarrow> rstep pg opts s EvIdle (s\<lparr>sys_db := d'\<rparr>)"

inductive_cases rstepE: "rstep pg opts s ev t"

definition rsys_init :: "'d pg \<Rightarrow> 'd rsys \<Rightarrow> bool" where
  "rsys_init pg s \<longleftrightarrow>
     pg_rows pg (sys_db s) = [] \<and> sys_inflight s = [] \<and> sys_marking s = [] \<and> sys_notified s = (\<lambda>_. 0)"

text \<open>The API calls change the table only by these statements.\<close>

lemma CancelByKey_step:
  assumes "pg_laws pg" "CancelByKey (Some pg) key now (sys_db s) = (e, d')"
  shows "\<exists>d1. rstep pg opts s EvIdle (s\<lparr>sys_db := d1\<rparr>)
    \<and> (d' = d1 \<or> rstep pg opts (s\<lparr>sys_db := d1\<rparr>) EvCancel (s\<lparr>sys_db := d'\<rparr>))"
proof -
  obtain g d1 where g: "GetByKey (Some pg) (TrimSpace key) (sys_db s) = (g, d1)" by (rule prod.exhaust)
  have "pg_rows pg d1 = pg_rows pg (sys_db s)"
    using g pg_select_rows [OF assms(1)]
    by (auto simp: GetByKey_def split: if_splits prod.splits sum.splits list.splits)
  then have "rstep pg opts s EvIdle (s\<lparr>sys_db := d1\<rparr>)" by (rule rstep.idle)
  moreover have "d' = d1 \<or> cancel_update pg (TrimSpace key) now d1 = (e, d') \<or> d' = sys_db s"
    using assms(2) g by (auto simp: CancelByKey_def Let_def split: if_splits sum.splits)
  moreover have "rstep pg opts (s\<lparr>sys_db := d1\<rparr>) EvCancel (s\<lparr>sys_db := d'\<rparr>)"
    if "cancel_update pg (TrimSpace key) now d1 = (e, d')"
    using rstep.cancel [of pg "TrimSpace key" now "s\<lparr>sys_db := d1\<rparr>" e d' opts] that by simp
  moreover have "rstep pg opts s EvIdle (s\<lparr>sys_db := sys_db s\<rparr>)" by (rule rstep.idle) simp
  ultimately show ?thesis by metis
qed

subsection \<open>Well-formedness in every reachable state\<close>

definition sys_items :: "'d rsys \<Rightarrow> reminder list" where
  "sys_items s = sys_inflight s @ map fst (sys_marking s)"

definition sys_ok :: "'d pg \<Rightarrow> 'd rsys \<Rightarrow> bool" where
  "sys_ok pg s \<longleftrightarrow>
     table_ok (pg_rows pg (sys_db s))
     \<and> (\<forall>it\<in>set (sys_items s). item_ok (pg_rows pg (sys_db s)) it
           \<and> ID it \<in> ID ` set (pg_rows pg (sys_db s)))"

lemma item_ok_change:
  assumes "good_change rows rows'" "item_ok rows it" "ID it \<in> ID ` set rows"
  shows "item_ok rows' it" "ID it \<in> ID ` set rows'"
  using assms by (auto simp: good_change_def evolves_def item_ok_def)

lemma sys_ok_change:
  assumes "sys_ok pg s" "good_change (pg_rows pg (sys_db s)) (pg_rows pg (sys_db t))"
    and "set (sys_items t) \<subseteq> set (sys_items s)"
  shows "sys_ok pg t"
  using assms item_ok_change [OF assms(2)] by (auto simp: sys_ok_def good_change_def)

lemma dispatch_mark_change:
  assumes laws: "pg_laws pg" and it: "item_ok (pg_rows pg d) it"
    and m: "dispatch_mark opts (Some pg) outcome it now tnow d = (res, d')"
  shows "good_change (pg_rows pg d) (pg_rows pg d')"
proof (cases outcome)
  case None
  with m show ?thesis
    by (auto simp: dispatch_mark_def split: prod.splits option.splits intro: MarkSent_change [OF laws])
next
  case (Some err)
  show ?thesis
  proof (cases "MaxRetry it \<le> RetryCount it + 1")
    case True
    with m Some item_ok_suc [OF it] show ?thesis
      by (auto simp: dispatch_mark_def Let_def split: prod.splits option.splits
          intro: MarkFailed_change [OF laws _ it])
  next
    case False
    with m Some item_ok_suc [OF it] show ?thesis
      by (auto simp: dispatch_mark_def Let_def split: prod.splits option.splits
          intro: MarkRetry_change [OF laws _ it])
  qed
qed

lemma recover_change:
  assumes "pg_laws pg" "recoverStaleProcessing opts (Some pg) now tnow d = (e, d')"
  shows "good_change (pg_rows pg d) (pg_rows pg d')"
  using assms by (auto simp: recoverStaleProcessing_def split: prod.splits sum.splits
      intro: Requeue_change)

text \<open>The copies a worker gets agree with their rows.\<close>

lemma claimed_items_ok:
  assumes "table_ok (pg_rows pg d)" "it \<in> set (claimed pg now limit d)"
  shows "it \<in> set (pg_rows pg d)" "Status it = StatusPending" "item_ok (pg_rows pg d) it"
proof -
  show r: "it \<in> set (pg_rows pg d)" and st: "Status it = StatusPending"
    using assms(2) set_page unfolding claimed_def by (auto simp: due_def)
  with assms(1) have "row_ok it" "distinct (map ID (pg_rows pg d))" by (auto simp: table_ok_def)
  with r st show "item_ok (pg_rows pg d) it"
    by (auto simp: item_ok_def row_ok_def dest: distinct_ID_inj)
qed

lemma item_ok_claimed_copy:
  "item_ok rows (r\<lparr>Status := x, UpdatedAt := t\<rparr>) = item_ok rows r"
  by (simp add: item_ok_def)

lemma rstep_sys_ok:
  assumes laws: "pg_laws pg" and ok: "sys_ok pg s" and st: "rstep pg opts s ev t"
  shows "sys_ok pg t"
  using st
proof cases
  case (claim now limit items d')
  have tok: "table_ok (pg_rows pg (sys_db s))" using ok by (simp add: sys_ok_def)
  note ch = ClaimDue_change [OF laws claim(3) tok]
  have it: "items = map (\<lambda>r. r\<lparr>Status := StatusProcessing, UpdatedAt := now\<rparr>) (claimed pg now limit (sys_db s))"
    using ClaimDue_result [OF laws _ claim(3)] tok by (simp add: table_ok_def)
  have "item_ok (pg_rows pg d') x \<and> ID x \<in> ID ` set (pg_rows pg d')" if x: "x \<in> set items" for x
  proof -
    from x it obtain r where r: "r \<in> set (claimed pg now limit (sys_db s))"
        "x = r\<lparr>Status := StatusProcessing, UpdatedAt := now\<rparr>" by auto
    note c = claimed_items_ok [OF tok r(1)]
    have "item_ok (pg_rows pg d') r" "ID r \<in> ID ` set (pg_rows pg d')"
      using item_ok_change [OF ch c(3)] c(1) by auto
    with r(2) show ?thesis by (simp add: item_ok_claimed_copy)
  qed
  moreover have "sys_ok pg (s\<lparr>sys_db := d'\<rparr>)"
    by (rule sys_ok_change [OF ok]) (use ch in \<open>simp_all add: sys_items_def\<close>)
  ultimately show ?thesis using claim(2) by (auto simp: sys_ok_def sys_items_def)
next
  case (mark xs it outcome ys now tnow res d')
  then have "item_ok (pg_rows pg (sys_db s)) it" using ok by (auto simp: sys_ok_def sys_items_def)
  note ch = dispatch_mark_change [OF laws this mark(4)]
  show ?thesis by (rule sys_ok_change [OF ok]) (use ch mark(2,3) in \<open>auto simp: sys_items_def\<close>)
next
  case (claim_error now limit e d')
  have "good_change (pg_rows pg (sys_db s)) (pg_rows pg d')"
    by (rule ClaimDue_change [OF laws claim_error(3)]) (use ok in \<open>simp add: sys_ok_def\<close>)
  with claim_error(2) show ?thesis by (intro sys_ok_change [OF ok]) (simp_all add: sys_items_def)
qed (auto intro!: sys_ok_change [OF ok] simp: sys_items_def
      intro: Create_change [OF laws] cancel_change [OF laws] reschedule_change [OF laws] recover_change [OF laws])

interpretation rem_sys: invariant_steps "rstep pg opts" "\<lambda>_. True" "\<lambda>s. pg_laws pg \<and> sys_ok pg s" for pg opts
  by unfold_locales (auto intro: rstep_sys_ok)

lemma rsys_init_ok: "rsys_init pg s \<Longrightarrow> sys_ok pg s"
  by (simp add: rsys_init_def sys_ok_def sys_items_def table_ok_def)

text \<open>A terminal row stays as it is through any run.\<close>

lemma rstep_terminal:
  assumes "pg_laws pg" "sys_ok pg s" "rstep pg opts s ev t" "r \<in> set (pg_rows pg (sys_db s))" "terminal r"
  shows "r \<in> set (pg_rows pg (sys_db t))"
proof -
  have "good_change (pg_rows pg (sys_db s)) (pg_rows pg (sys_db t))"
    using assms(3)
  proof cases
    case (mark xs it outcome ys now tnow res d')
    then have "item_ok (pg_rows pg (sys_db s)) it" using assms(2) by (auto simp: sys_ok_def sys_items_def)
    from dispatch_mark_change [OF assms(1) this mark(4)] mark(2) show ?thesis by simp
  qed (use assms(1,2) in \<open>auto simp: sys_ok_def intro: Create_change cancel_change reschedule_change
      recover_change ClaimDue_change\<close>)
  with assms(4,5) show ?thesis by (simp add: good_change_def evolves_def)
qed

interpretation rem_terminal: invariant_steps "rstep pg opts" "\<lambda>_. True"
  "\<lambda>s. pg_laws pg \<and> sys_ok pg s \<and> terminal r \<and> r \<in> set (pg_rows pg (sys_db s))" for pg opts r
  by unfold_locales (auto intro: rstep_sys_ok rstep_terminal)

end
