(* ===== verification/ReminderBound.thy ===== *)
theory ReminderBound
  imports ReminderSystem
begin

text \<open>
  How often a notifier is called.  As long as no stale reminder is recovered, every claimed
  copy is the only one of its row, which stays \<open>processing\<close> with the copy's retry count, and
  the number of calls since creation or the last rescheduling never passes \<open>MaxRetry\<close>.
\<close>

subsection \<open>The invariant\<close>

definition copies_ok :: "reminder list \<Rightarrow> reminder list \<Rightarrow> bool" where
  "copies_ok rows items \<longleftrightarrow>
     distinct (map ID items)
     \<and> (\<forall>it\<in>set items. \<exists>r\<in>set rows. ID r = ID it \<and> Status r = StatusProcessing
            \<and> RetryCount r = RetryCount it)"

definition calls_allowed :: "int set \<Rightarrow> reminder \<Rightarrow> int" where
  "calls_allowed waiting r =
     (if Status r = StatusProcessing
      then (if ID r \<in> waiting then RetryCount r else RetryCount r + 1)
      else if terminal r then MaxRetry r else RetryCount r)"

definition calls_ok :: "reminder list \<Rightarrow> int set \<Rightarrow> (int \<Rightarrow> nat) \<Rightarrow> bool" where
  "calls_ok rows waiting n \<longleftrightarrow>
     (\<forall>r\<in>set rows. int (n (ID r)) \<le> calls_allowed waiting r)
     \<and> (\<forall>i. i \<notin> ID ` set rows \<longrightarrow> n i = 0)"

definition waiting :: "'d rsys \<Rightarrow> int set" where
  "waiting s = ID ` set (sys_inflight s)"

definition bound_ok :: "'d pg \<Rightarrow> 'd rsys \<Rightarrow> bool" where
  "bound_ok pg s \<longleftrightarrow>
     sys_ok pg s \<and> copies_ok (pg_rows pg (sys_db s)) (sys_items s)
     \<and> calls_ok (pg_rows pg (sys_db s)) (waiting s) (sys_notified s)"

lemma calls_allowed_le: "row_ok r \<Longrightarrow> calls_allowed J r \<le> MaxRetry r"
  by (auto simp: calls_allowed_def row_ok_def)

lemma distinct_submset:
  assumes "mset xs \<subseteq># mset ys" "distinct ys"
  shows "distinct xs"
proof -
  obtain zs where "mset ys = mset (xs @ zs)"
    using assms(1) by (metis ex_mset mset_append subset_mset.le_iff_add)
  then have "distinct (xs @ zs)" using assms(2) mset_eq_imp_distinct_iff by blast
  then show ?thesis by simp
qed

lemma copies_fewer:
  assumes "copies_ok rows items" "mset items' \<subseteq># mset items"
  shows "copies_ok rows items'"
proof -
  have "mset (map ID items') \<subseteq># mset (map ID items)"
    using assms(2) by (simp add: image_mset_subseteq_mono)
  then have "distinct (map ID items')"
    using assms(1) by (intro distinct_submset [of "map ID items'" "map ID items"]) (simp_all add: copies_ok_def)
  moreover have "set items' \<subseteq> set items" using assms(2) by (metis set_mset_mono set_mset_mset)
  ultimately show ?thesis using assms(1) by (auto simp: copies_ok_def)
qed

lemma calls_fewer: "calls_ok rows J n \<Longrightarrow> K \<subseteq> J \<Longrightarrow> calls_ok rows K n"
  by (auto simp: calls_ok_def calls_allowed_def split: if_splits)

text \<open>The two halves under an UPDATE.\<close>

lemma copies_update:
  assumes "copies_ok rows items"
    and "\<And>r. r \<in> set rows \<Longrightarrow> p r \<Longrightarrow> Status r = StatusProcessing \<Longrightarrow> ID r \<notin> ID ` set items"
  shows "copies_ok (update_rows p f rows) items"
proof -
  have "\<exists>r\<in>set (update_rows p f rows). ID r = ID it \<and> Status r = StatusProcessing \<and> RetryCount r = RetryCount it"
    if it: "it \<in> set items" for it
  proof -
    obtain r where r: "r \<in> set rows" "ID r = ID it" "Status r = StatusProcessing" "RetryCount r = RetryCount it"
      using assms(1) it by (auto simp: copies_ok_def)
    with assms(2) [of r] it have "\<not> p r" by auto
    with r show ?thesis using update_rows_keep [of r rows p f] by blast
  qed
  with assms(1) show ?thesis by (simp add: copies_ok_def)
qed

lemma calls_update:
  assumes "calls_ok rows J n" "\<And>i. m i \<le> n i"
    and "\<And>r. r \<in> set rows \<Longrightarrow> p r \<Longrightarrow> ID (f r) = ID r"
    and "\<And>r. r \<in> set rows \<Longrightarrow> p r \<Longrightarrow> int (n (ID r)) \<le> calls_allowed J r \<Longrightarrow> int (m (ID r)) \<le> calls_allowed K (f r)"
    and "\<And>r. r \<in> set rows \<Longrightarrow> \<not> p r \<Longrightarrow> calls_allowed K r = calls_allowed J r"
  shows "calls_ok (update_rows p f rows) K m"
proof -
  have mn: "int (m i) \<le> int (n i)" for i using assms(2) by simp
  have "ID ` set (update_rows p f rows) = ID ` set rows"
    unfolding set_update_rows image_image using assms(3) by (intro image_cong refl) simp
  moreover have "int (m (ID r')) \<le> calls_allowed K r'" if "r' \<in> set (update_rows p f rows)" for r'
  proof -
    from that obtain r where r: "r \<in> set rows" "r' = (if p r then f r else r)"
      by (auto simp: set_update_rows)
    with assms(1) have n: "int (n (ID r)) \<le> calls_allowed J r" by (simp add: calls_ok_def)
    show ?thesis
      using r n assms(3-5) [OF r(1)] mn [of "ID r"] by (cases "p r") auto
  qed
  moreover have "m i = 0" if "n i = 0" for i using assms(2) [of i] that by simp
  ultimately show ?thesis using assms(1) by (simp add: calls_ok_def)
qed

lemma bound_ok_same_rows:
  assumes "bound_ok pg s" "pg_rows pg (sys_db t) = pg_rows pg (sys_db s)" "sys_ok pg t"
    and "sys_inflight t = sys_inflight s" "mset (sys_items t) \<subseteq># mset (sys_items s)"
    and "sys_notified t = sys_notified s"
  shows "bound_ok pg t"
  using assms copies_fewer by (auto simp: bound_ok_def waiting_def)

subsection \<open>Every step but recovery keeps it\<close>

lemma mutation_split:
  assumes "pg_laws pg" "mutation pg p f d = (e, d')"
  obtains "pg_rows pg d' = pg_rows pg d" | "pg_rows pg d' = update_rows p f (pg_rows pg d)"
  using mutation_rows [OF assms] by blast

text \<open>A statement that only touches rows no copy is of.\<close>

lemma bound_update:
  assumes b: "bound_ok pg s" and t: "sys_ok pg t"
    and rows: "pg_rows pg (sys_db t) = update_rows p f (pg_rows pg (sys_db s))"
    and items: "mset (sys_items t) \<subseteq># mset (sys_items s)" "waiting t = waiting s"
    and free: "\<And>r. r \<in> set (pg_rows pg (sys_db s)) \<Longrightarrow> p r \<Longrightarrow> Status r = StatusProcessing \<Longrightarrow>
        ID r \<notin> ID ` set (sys_items t)"
    and le: "\<And>i. sys_notified t i \<le> sys_notified s i"
    and ch: "\<And>r. r \<in> set (pg_rows pg (sys_db s)) \<Longrightarrow> p r \<Longrightarrow> ID (f r) = ID r
        \<and> (int (sys_notified s (ID r)) \<le> calls_allowed (waiting s) r \<longrightarrow>
             int (sys_notified t (ID r)) \<le> calls_allowed (waiting s) (f r))"
  shows "bound_ok pg t"
proof -
  have "copies_ok (pg_rows pg (sys_db t)) (sys_items t)"
    unfolding rows using b copies_fewer items(1) free
    by (intro copies_update) (auto simp: bound_ok_def)
  moreover have "calls_ok (pg_rows pg (sys_db t)) (waiting t) (sys_notified t)"
    unfolding rows items(2)
    by (rule calls_update [where n = "sys_notified s" and J = "waiting s"])
       (use b le ch in \<open>auto simp: bound_ok_def\<close>)
  ultimately show ?thesis using t by (simp add: bound_ok_def)
qed

lemma bound_cancel:
  assumes laws: "pg_laws pg" and b: "bound_ok pg s" and c: "cancel_update pg key now (sys_db s) = (e, d')"
    and t: "sys_ok pg (s\<lparr>sys_db := d'\<rparr>)"
  shows "bound_ok pg (s\<lparr>sys_db := d'\<rparr>)"
  using laws c [unfolded cancel_update_def]
proof (rule mutation_split)
  assume "pg_rows pg d' = pg_rows pg (sys_db s)"
  with b t show ?thesis by (intro bound_ok_same_rows [OF b]) (auto simp: sys_items_def)
next
  let ?t = "s\<lparr>sys_db := d'\<rparr>"
  assume "pg_rows pg d' = update_rows (\<lambda>r. Key r = key \<and> Status r \<in> {StatusPending, StatusFailed})
    (\<lambda>r. r\<lparr>Status := StatusCanceled, CanceledAt := Some (pg_ts pg now), UpdatedAt := pg_ts pg now\<rparr>)
    (pg_rows pg (sys_db s))"
  then have rows: "pg_rows pg (sys_db ?t) = update_rows (\<lambda>r. Key r = key \<and> Status r \<in> {StatusPending, StatusFailed})
    (\<lambda>r. r\<lparr>Status := StatusCanceled, CanceledAt := Some (pg_ts pg now), UpdatedAt := pg_ts pg now\<rparr>)
    (pg_rows pg (sys_db s))" by simp
  have le: "RetryCount r \<le> MaxRetry r" if "r \<in> set (pg_rows pg (sys_db s))" for r
    using b that by (auto simp: bound_ok_def sys_ok_def table_ok_def row_ok_def)
  show ?thesis
    by (intro bound_update [OF b t rows])
       (auto simp: sys_items_def waiting_def calls_allowed_def terminal_def intro: order_trans [OF _ le])
qed

lemma bound_reschedule:
  assumes laws: "pg_laws pg" and b: "bound_ok pg s"
    and c: "reschedule_update pg key at now (sys_db s) = (e, d')"
    and t: "sys_ok pg (s\<lparr>sys_db := d', sys_notified :=
          reset_count (pg_rows pg (sys_db s)) (pg_rows pg d') key (sys_notified s)\<rparr>)" (is "sys_ok pg ?t")
  shows "bound_ok pg ?t"
proof (cases "pg_rows pg d' = pg_rows pg (sys_db s)")
  case True
  then have "reset_count (pg_rows pg (sys_db s)) (pg_rows pg d') key (sys_notified s) = sys_notified s"
    by (simp add: reset_count_def fun_eq_iff)
  with True t show ?thesis by (intro bound_ok_same_rows [OF b]) (auto simp: sys_items_def)
next
  case False
  then have rows: "pg_rows pg (sys_db ?t) = update_rows (\<lambda>r. Key r = key \<and> Status r \<in> {StatusPending, StatusFailed})
      (\<lambda>r. r\<lparr>ScheduleAt := pg_ts pg at, Status := StatusPending, RetryCount := 0, LastError := [],
        SentAt := None, CanceledAt := None, UpdatedAt := pg_ts pg now\<rparr>) (pg_rows pg (sys_db s))"
    using mutation_rows [OF laws c [unfolded reschedule_update_def]] by auto
  have "distinct (map ID (pg_rows pg (sys_db s)))"
    using b by (simp add: bound_ok_def sys_ok_def table_ok_def)
  with False show ?thesis
    by (intro bound_update [OF b t rows])
       (auto simp: sys_items_def waiting_def calls_allowed_def terminal_def reset_count_def)
qed

lemma Create_rows:
  assumes "pg_laws pg" "Create (Some pg) params now d = (res, d')"
  shows "pg_rows pg d' = pg_rows pg d \<or> (\<exists>r. pg_rows pg d' = pg_rows pg d @ [r]
    \<and> ID r \<notin> ID ` set (pg_rows pg d) \<and> Status r = StatusPending \<and> RetryCount r = 0)"
proof (cases "create_valid params")
  case True
  let ?row = "insert_row pg (new_reminder params now)"
  show ?thesis
  proof (cases "pg_insert pg ?row d")
    case (Pair res' d1)
    with True assms(2) have d1: "d1 = d'" by (auto simp: Create_def Let_def split: sum.splits)
    from pg_insert_rows [OF assms(1) Pair [unfolded d1]] show ?thesis
      by (auto simp: inserted_def insert_row_def new_reminder_def)
  qed
qed (use assms(2) in \<open>simp add: Create_def\<close>)

lemma bound_create:
  assumes laws: "pg_laws pg" and b: "bound_ok pg s"
    and c: "Create (Some pg) params now (sys_db s) = (res, d')"
    and t: "sys_ok pg (s\<lparr>sys_db := d'\<rparr>)"
  shows "bound_ok pg (s\<lparr>sys_db := d'\<rparr>)"
  using Create_rows [OF laws c]
proof
  assume "pg_rows pg d' = pg_rows pg (sys_db s)"
  with b t show ?thesis by (intro bound_ok_same_rows [OF b]) (auto simp: sys_items_def)
next
  assume "\<exists>r. pg_rows pg d' = pg_rows pg (sys_db s) @ [r] \<and> ID r \<notin> ID ` set (pg_rows pg (sys_db s))
    \<and> Status r = StatusPending \<and> RetryCount r = 0"
  then obtain r where r: "pg_rows pg d' = pg_rows pg (sys_db s) @ [r]"
      "ID r \<notin> ID ` set (pg_rows pg (sys_db s))" "Status r = StatusPending" "RetryCount r = 0" by blast
  then have "sys_notified s (ID r) = 0" "calls_allowed (waiting s) r = 0"
    using b by (simp_all add: bound_ok_def calls_ok_def calls_allowed_def terminal_def)
  moreover have "copies_ok (pg_rows pg (sys_db s)) (sys_items s)" using b by (simp add: bound_ok_def)
  ultimately show ?thesis using b t r(1)
    by (auto simp: bound_ok_def calls_ok_def copies_ok_def sys_items_def waiting_def)
qed

text \<open>A claim: the claimed rows were pending, so no copy of them exists yet.\<close>

lemma claimed_pending:
  assumes "table_ok (pg_rows pg d)" "r \<in> set (pg_rows pg d)" "ID r \<in> ID ` set (claimed pg now limit d)"
  shows "Status r = StatusPending"
  using assms claimed_where [of pg d r now limit] by (auto simp: table_ok_def)

lemma copies_claim:
  assumes tok: "table_ok (pg_rows pg d)" and c: "copies_ok (pg_rows pg d) items"
  shows "copies_ok (after_claim pg now limit d) items"
    and "copies_ok (after_claim pg now limit d) (items @ claimed pg now limit d)"
proof -
  let ?new = "claimed pg now limit d"
  have disj: "ID it \<notin> ID ` set ?new" if "it \<in> set items" for it
    using c that claimed_pending [OF tok] by (fastforce simp: copies_ok_def)
  show old: "copies_ok (after_claim pg now limit d) items"
    unfolding after_claim_def by (rule copies_update [OF c]) (use claimed_pending [OF tok] in fastforce)
  have "distinct (map ID ?new)"
    using tok unfolding claimed_def by (intro distinct_ID_page) (simp add: table_ok_def)
  moreover have "\<exists>r\<in>set (after_claim pg now limit d). ID r = ID it \<and> Status r = StatusProcessing
      \<and> RetryCount r = RetryCount it" if it: "it \<in> set ?new" for it
  proof -
    have "claim_set pg now it \<in> set (after_claim pg now limit d)"
      using it claimed_items_ok(1) [OF tok it] by (force simp: after_claim_def set_update_rows)
    then show ?thesis by (intro bexI) (simp_all add: claim_set_def)
  qed
  ultimately show "copies_ok (after_claim pg now limit d) (items @ ?new)"
    using old disj by (fastforce simp: copies_ok_def)
qed

lemma calls_claim:
  assumes tok: "table_ok (pg_rows pg d)" and n: "calls_ok (pg_rows pg d) J n"
  shows "calls_ok (after_claim pg now limit d) J n"
    and "calls_ok (after_claim pg now limit d) (J \<union> ID ` set (claimed pg now limit d)) n"
proof -
  have al: "calls_allowed J r = RetryCount r"
    if "r \<in> set (pg_rows pg d)" "ID r \<in> ID ` set (claimed pg now limit d)" for r
    using claimed_pending [OF tok that] by (simp add: calls_allowed_def terminal_def)
  show "calls_ok (after_claim pg now limit d) J n"
    unfolding after_claim_def
    by (rule calls_update [OF n]) (use al in \<open>simp_all add: claim_set_def calls_allowed_def\<close>)
  show "calls_ok (after_claim pg now limit d) (J \<union> ID ` set (claimed pg now limit d)) n"
    unfolding after_claim_def
    by (rule calls_update [OF n])
       (use al in \<open>simp_all add: claim_set_def, simp_all add: calls_allowed_def\<close>)
qed

lemma copies_same_ids:
  assumes "map ID items = map ID items'" "map RetryCount items = map RetryCount items'"
  shows "copies_ok rows items = copies_ok rows items'"
proof -
  have 1: "(\<forall>it\<in>set xs. \<exists>r\<in>set rows. ID r = ID it \<and> Status r = StatusProcessing \<and> RetryCount r = RetryCount it)
      = (\<forall>(i, k)\<in>set (zip (map ID xs) (map RetryCount xs)). \<exists>r\<in>set rows. ID r = i \<and> Status r = StatusProcessing \<and> RetryCount r = k)"
    for xs :: "reminder list"
    by (induction xs) auto
  show ?thesis unfolding copies_ok_def 1 using assms by simp
qed

lemma bound_claim:
  assumes laws: "pg_laws pg" and b: "bound_ok pg s"
    and c: "ClaimDue (Some pg) now limit (sys_db s) = (res, d')"
    and t: "sys_ok pg (s\<lparr>sys_db := d', sys_inflight := sys_inflight s @ items\<rparr>)" (is "sys_ok pg ?t")
    and items: "res = Inr items \<or> items = [] \<and> (\<exists>e. res = Inl e)"
  shows "bound_ok pg ?t"
proof -
  let ?rows = "pg_rows pg (sys_db s)" and ?new = "claimed pg now limit (sys_db s)"
  have tok: "table_ok ?rows" using b by (simp add: bound_ok_def sys_ok_def)
  then have "distinct (map ID ?rows)" by (simp add: table_ok_def)
  note res = ClaimDue_result [OF laws this c]
  have cp: "copies_ok ?rows (sys_items s)" and cl: "calls_ok ?rows (waiting s) (sys_notified s)"
    using b by (simp_all add: bound_ok_def)
  show ?thesis
  proof (cases res)
    case (Inl e)
    then have none: "items = []" using items by simp
    with Inl res have "pg_rows pg d' = ?rows \<or> pg_rows pg d' = after_claim pg now limit (sys_db s)" by simp
    with t none show ?thesis
      using b copies_claim(1) [OF tok cp] calls_claim(1) [OF tok cl]
      by (auto simp: bound_ok_def sys_items_def waiting_def)
  next
    case (Inr items')
    with items res have it: "items = map (\<lambda>r. r\<lparr>Status := StatusProcessing, UpdatedAt := now\<rparr>) ?new"
        and rows: "pg_rows pg d' = after_claim pg now limit (sys_db s)" by auto
    have ids: "map ID items = map ID ?new" "map RetryCount items = map RetryCount ?new"
      by (simp_all add: it)
    have "copies_ok (after_claim pg now limit (sys_db s)) (sys_items s @ items)"
      using copies_claim(2) [OF tok cp, of now limit] ids by (subst copies_same_ids) auto
    then have "copies_ok (pg_rows pg d') (sys_items ?t)"
      unfolding rows by (rule copies_fewer) (simp add: sys_items_def)
    moreover have "waiting ?t = waiting s \<union> ID ` set ?new"
      using arg_cong [OF ids(1), of set] by (simp add: waiting_def image_Un)
    ultimately show ?thesis using t calls_claim(2) [OF tok cl, of now limit]
      by (simp add: bound_ok_def rows)
  qed
qed

text \<open>A notification: the row of the copy counts one call more.\<close>

lemma bound_notify:
  assumes b: "bound_ok pg s" and s: "sys_inflight s = xs @ it # ys"
    and t: "sys_ok pg (s\<lparr>sys_inflight := xs @ ys, sys_marking := (it, outcome) # sys_marking s,
          sys_notified := (sys_notified s)(ID it := Suc (sys_notified s (ID it)))\<rparr>)" (is "sys_ok pg ?t")
  shows "bound_ok pg ?t"
proof -
  let ?rows = "pg_rows pg (sys_db s)"
  have cp: "copies_ok ?rows (sys_items s)" and cl: "calls_ok ?rows (waiting s) (sys_notified s)"
    using b by (simp_all add: bound_ok_def)
  have dist: "distinct (map ID (sys_items s))" using cp by (simp add: copies_ok_def)
  then have w: "waiting s = insert (ID it) (waiting ?t)" "ID it \<notin> waiting ?t"
    using s by (auto simp: waiting_def sys_items_def)
  have tok: "distinct (map ID ?rows)" using b by (simp add: bound_ok_def sys_ok_def table_ok_def)
  obtain r0 where r0: "r0 \<in> set ?rows" "ID r0 = ID it" "Status r0 = StatusProcessing"
    using cp s by (auto simp: copies_ok_def sys_items_def)
  have "int (sys_notified ?t (ID r)) \<le> calls_allowed (waiting ?t) r" if r: "r \<in> set ?rows" for r
  proof -
    have le: "int (sys_notified s (ID r)) \<le> calls_allowed (waiting s) r" using cl r by (simp add: calls_ok_def)
    show ?thesis
    proof (cases "ID r = ID it")
      case True
      then have "r = r0" using distinct_ID_inj [OF tok r r0(1)] r0(2) by simp
      with le w r0 show ?thesis by (simp add: calls_allowed_def)
    next
      case False
      with le w show ?thesis by (simp add: calls_allowed_def split: if_splits)
    qed
  qed
  moreover have "ID it \<in> ID ` set ?rows" using r0(1,2) by (metis imageI)
  ultimately have "calls_ok ?rows (waiting ?t) (sys_notified ?t)"
    using cl by (auto simp: calls_ok_def)
  moreover have "copies_ok ?rows (sys_items ?t)"
    by (rule copies_fewer [OF cp]) (simp add: s sys_items_def)
  ultimately show ?thesis using t by (simp add: bound_ok_def)
qed

text \<open>Recording an outcome: at most the row of the copy changes.\<close>

definition marked :: "reminder \<Rightarrow> reminder \<Rightarrow> reminder \<Rightarrow> bool" where
  "marked it r r' \<longleftrightarrow>
     ID r' = ID r \<and> MaxRetry r' = MaxRetry r
     \<and> (Status r' = StatusSent
        \<or> Status r' \<in> {StatusPending, StatusFailed} \<and> RetryCount r' = RetryCount it + 1)"

definition only_marks :: "reminder \<Rightarrow> reminder list \<Rightarrow> reminder list \<Rightarrow> bool" where
  "only_marks it rows rows' \<longleftrightarrow> rows' = rows
     \<or> (\<exists>f. (\<forall>r. marked it r (f r)) \<and>
            rows' = update_rows (\<lambda>r. ID r = ID it \<and> Status r = StatusProcessing) f rows)"

lemma mutation_marked:
  assumes "pg_laws pg" "mutation pg (\<lambda>r. ID r = ID it \<and> Status r = StatusProcessing) f d = (e, d')"
    and "\<And>r. marked it r (f r)"
  shows "only_marks it (pg_rows pg d) (pg_rows pg d')"
  using mutation_rows [OF assms(1,2)] assms(3) by (auto simp: only_marks_def)

lemma dispatch_mark_rows:
  assumes laws: "pg_laws pg" and it: "item_ok (pg_rows pg d) it"
    and m: "dispatch_mark opts (Some pg) outcome it now tnow d = (res, d')"
  shows "only_marks it (pg_rows pg d) (pg_rows pg d')"
proof -
  have refl: "only_marks it (pg_rows pg d) (pg_rows pg d)" by (simp add: only_marks_def)
  have "only_marks it (pg_rows pg d) (pg_rows pg d')"
    if "MarkSent (Some pg) (ID it) now d = (e, d')" for e
    using that refl by (auto simp: MarkSent_def marked_def split: if_splits elim!: mutation_marked [OF laws])
  moreover have "only_marks it (pg_rows pg d) (pg_rows pg d')"
    if "MarkFailed (Some pg) (Some it) msg tnow d = (e, d')" for e msg
    using that refl item_ok_suc [OF it]
    by (auto simp: MarkFailed_def marked_def split: if_splits elim!: mutation_marked [OF laws])
  moreover have "only_marks it (pg_rows pg d) (pg_rows pg d')"
    if "MarkRetry (Some pg) (Some it) at msg tnow d = (e, d')" for e msg at
    using that refl item_ok_suc [OF it]
    by (auto simp: MarkRetry_def marked_def split: if_splits elim!: mutation_marked [OF laws])
  ultimately show ?thesis
    using m by (auto simp: dispatch_mark_def Let_def split: option.splits prod.splits if_splits)
qed

lemma bound_mark:
  assumes laws: "pg_laws pg" and b: "bound_ok pg s" and s: "sys_marking s = xs @ (it, outcome) # ys"
    and m: "dispatch_mark opts (Some pg) outcome it now tnow (sys_db s) = (res, d')"
    and t: "sys_ok pg (s\<lparr>sys_db := d', sys_marking := xs @ ys\<rparr>)" (is "sys_ok pg ?t")
  shows "bound_ok pg ?t"
proof -
  let ?rows = "pg_rows pg (sys_db s)"
  have cp: "copies_ok ?rows (sys_items s)" and ok: "sys_ok pg s"
    using b by (simp_all add: bound_ok_def)
  have less: "mset (sys_items ?t) \<subseteq># mset (sys_items s)" by (simp add: sys_items_def s)
  have gone: "ID it \<notin> ID ` set (sys_items ?t)" "ID it \<notin> waiting s"
    using cp by (auto simp: copies_ok_def sys_items_def waiting_def s)
  have it: "item_ok ?rows it" using ok by (auto simp: sys_ok_def sys_items_def s)
  from dispatch_mark_rows [OF laws it m, unfolded only_marks_def] show ?thesis
  proof (elim disjE exE conjE)
    assume "pg_rows pg d' = ?rows"
    then show ?thesis using b t less
      by (intro bound_ok_same_rows [OF b]) simp_all
  next
    fix f assume f: "\<forall>r. marked it r (f r)"
      and "pg_rows pg d' = update_rows (\<lambda>r. ID r = ID it \<and> Status r = StatusProcessing) f ?rows"
    then have rows: "pg_rows pg (sys_db ?t) = update_rows (\<lambda>r. ID r = ID it \<and> Status r = StatusProcessing) f ?rows"
      by simp
    have ch: "int n \<le> calls_allowed (waiting s) (f r)"
      if r: "r \<in> set ?rows" "ID r = ID it" "Status r = StatusProcessing"
        and n: "int n \<le> calls_allowed (waiting s) r" for r n
    proof -
      have "RetryCount r = RetryCount it"
      proof -
        obtain r' where "r' \<in> set ?rows" "ID r' = ID it" "RetryCount r' = RetryCount it"
          using cp by (auto simp: copies_ok_def sys_items_def s)
        moreover have "distinct (map ID ?rows)" using ok by (simp add: sys_ok_def table_ok_def)
        ultimately show ?thesis using r(1,2) distinct_ID_inj by metis
      qed
      moreover have "RetryCount r < MaxRetry r"
        using ok r by (auto simp: sys_ok_def table_ok_def row_ok_def)
      ultimately show ?thesis
        using n r(2,3) gone(2) f [rule_format, of r]
        by (auto simp: calls_allowed_def marked_def terminal_def)
    qed
    show ?thesis
      by (intro bound_update [OF b t rows less])
         (use gone f ch in \<open>auto simp: waiting_def marked_def\<close>)
  qed
qed

lemma rstep_bound_ok:
  assumes laws: "pg_laws pg" and b: "bound_ok pg s" and st: "rstep pg opts s ev t" and ev: "ev \<noteq> EvRecover"
  shows "bound_ok pg t"
proof -
  have ok: "sys_ok pg t" using b by (intro rstep_sys_ok [OF laws _ st]) (simp add: bound_ok_def)
  show ?thesis
    using st
  proof cases
    case (create params now res d')
    with ok show ?thesis using bound_create [OF laws b create(3)] by simp
  next
    case (cancel key now e d')
    with ok show ?thesis using bound_cancel [OF laws b cancel(3)] by simp
  next
    case (reschedule key at now e d')
    with ok show ?thesis using bound_reschedule [OF laws b reschedule(3)] by simp
  next
    case (claim now limit items d')
    with ok show ?thesis using bound_claim [OF laws b claim(3), of items] by simp
  next
    case (claim_error now limit e d')
    with ok show ?thesis using bound_claim [OF laws b claim_error(3), of "[]"] by simp
  next
    case (notify xs it ys outcome)
    with ok show ?thesis using bound_notify [OF b notify(3)] by simp
  next
    case (mark xs it outcome ys now tnow res d')
    with ok show ?thesis using bound_mark [OF laws b mark(3,4)] by simp
  next
    case (crash Q P)
    have "mset (map fst (filter Q (sys_marking s))) \<subseteq># mset (map fst (sys_marking s))"
      by (metis image_mset_subseteq_mono mset_filter mset_map multiset_filter_subset)
    then have "mset (sys_items t) \<subseteq># mset (sys_items s)"
      using crash by (simp add: sys_items_def subset_mset.add_mono)
    moreover have "waiting t \<subseteq> waiting s" using crash by (auto simp: waiting_def)
    ultimately show ?thesis using b ok crash
      by (auto simp: bound_ok_def intro: copies_fewer calls_fewer)
  next
    case (idle d')
    with ok show ?thesis by (intro bound_ok_same_rows [OF b]) (simp_all add: sys_items_def)
  qed (use ev in simp)
qed

interpretation rem_bound: invariant_steps "rstep pg opts" "\<lambda>ev. ev \<noteq> EvRecover"
    "\<lambda>s. pg_laws pg \<and> bound_ok pg s" for pg opts
  by unfold_locales (auto intro: rstep_bound_ok)

lemma rsys_init_bound: "rsys_init pg s \<Longrightarrow> bound_ok pg s"
  using rsys_init_ok [of pg s]
  by (simp add: rsys_init_def bound_ok_def sys_items_def copies_ok_def calls_ok_def)

end
