(* ===== verification/ReminderPages.thy ===== *)
theory ReminderPages
  imports ReminderSpec
begin

text \<open>
  Keyset pagination: a caller who follows \<open>NextCursor\<close> until it is empty gets every row of
  the query, once and in order.
\<close>

subsection \<open>Strictly sorted lists\<close>

lemma filter_after_nth:
  assumes "sorted (map f xs)" "distinct (map f xs)" "m < length xs"
  shows "filter (\<lambda>x. f (xs ! m) < (f x :: 'k :: linorder)) xs = drop (Suc m) xs"
proof -
  have split: "xs = take (Suc m) xs @ drop (Suc m) xs" by simp
  have le: "f x \<le> f (xs ! m)" if "x \<in> set (take (Suc m) xs)" for x
  proof -
    from that obtain i where "i \<le> m" "x = xs ! i"
      by (auto simp: in_set_conv_nth less_Suc_eq_le)
    then show ?thesis using assms sorted_nth_mono [of "map f xs" i m] by simp
  qed
  have lt: "f (xs ! m) < f x" if "x \<in> set (drop (Suc m) xs)" for x
  proof -
    from that obtain i where i: "m < i" "i < length xs" "x = xs ! i"
      by (auto simp: in_set_conv_nth) (metis add.commute add_Suc less_add_Suc1 less_diff_conv)
    then have "f (xs ! m) \<le> f x" using assms sorted_nth_mono [of "map f xs" m i] by simp
    moreover have "f (xs ! m) \<noteq> f x"
      using assms(2,3) i nth_eq_iff_index_eq [of "map f xs" m i] by simp
    ultimately show ?thesis by simp
  qed
  have "filter (\<lambda>x. f (xs ! m) < f x) (take (Suc m) xs) = []"
    using le by (auto simp: filter_empty_conv not_less)
  moreover have "filter (\<lambda>x. f (xs ! m) < f x) (drop (Suc m) xs) = drop (Suc m) xs"
    using lt by (auto simp: filter_id_conv)
  ultimately show ?thesis
    by (metis (no_types, lifting) append_Nil filter_append split)
qed

subsection \<open>The cursor\<close>

text \<open>
  The laws of the JSON and base64 functions: decoding undoes encoding, for instants JSON can
  represent, and an encoded cursor is not empty.
\<close>

definition codec_laws :: "cursor_codec \<Rightarrow> bool" where
  "codec_laws cc \<longleftrightarrow>
     (\<forall>s. cc_DecodeString cc (cc_EncodeToString cc s) = Inr s \<and> (cc_EncodeToString cc s = [] \<longrightarrow> s = []))
   \<and> (\<forall>c. json_time (lc_ScheduleAt c) \<and> 0 < lc_ID c \<longrightarrow>
        cc_Unmarshal cc (cc_Marshal cc c) = Inr c \<and> cc_Marshal cc c \<noteq> [])"

lemma decode_encode:
  assumes "codec_laws cc" "json_time (lc_ScheduleAt c)" "lc_ScheduleAt c \<noteq> 0" "0 < lc_ID c"
  shows "decodeCursor cc (encodeCursor cc c) = Inr c" "encodeCursor cc c \<noteq> []"
  using assms by (auto simp: decodeCursor_def encodeCursor_def codec_laws_def)

subsection \<open>All pages\<close>

text \<open>The caller's loop; \<open>None\<close> says that the fuel ran out.\<close>

fun all_pages :: "nat \<Rightarrow> 'd pg option \<Rightarrow> cursor_codec \<Rightarrow> list_params \<Rightarrow> 'd
    \<Rightarrow> (error + reminder list) option \<times> 'd" where
  "all_pages 0 st cc params d = (None, d)"
| "all_pages (Suc fuel) st cc params d =
     (case List st cc params d of
        (Inl e, d') \<Rightarrow> (Some (Inl e), d')
      | (Inr page1, d') \<Rightarrow>
          if lr_NextCursor page1 = [] then (Some (Inr (lr_Items page1)), d')
          else
            (case all_pages fuel st cc (params\<lparr>lp_Cursor := lr_NextCursor page1\<rparr>) d' of
               (Some (Inr rest), d'') \<Rightarrow> (Some (Inr (lr_Items page1 @ rest)), d'')
             | res \<Rightarrow> res))"

definition listed :: "'d pg \<Rightarrow> list_params \<Rightarrow> reminder list \<Rightarrow> reminder list" where
  "listed pg params rows = sort_key due_key (filter (list_where pg params None) rows)"

lemma listed_strict:
  assumes "distinct (map ID rows)"
  shows "sorted (map due_key (listed pg params rows))" "distinct (map due_key (listed pg params rows))"
    "set (listed pg params rows) \<subseteq> set rows"
proof -
  show "sorted (map due_key (listed pg params rows))" by (simp add: listed_def)
  show sub: "set (listed pg params rows) \<subseteq> set rows" by (auto simp: listed_def)
  have "distinct (map ID (filter (list_where pg params None) rows))"
    using assms by (rule distinct_map_filter)
  then have "distinct (filter (list_where pg params None) rows)" by (simp add: distinct_map)
  then have "distinct (listed pg params rows)" by (simp add: listed_def)
  moreover have "inj_on due_key (set (listed pg params rows))"
    using assms sub by (auto simp: inj_on_def due_key_def distinct_map)
  ultimately show "distinct (map due_key (listed pg params rows))" by (simp add: distinct_map)
qed

lemma list_where_cursor:
  "list_where pg params (Some c) r \<longleftrightarrow>
     list_where pg params None r \<and> (pg_ts pg (lc_ScheduleAt c), lc_ID c) < due_key r"
  by (auto simp: list_where_def due_key_def)

lemma list_where_Cursor [simp]:
  "list_where pg (params\<lparr>lp_Cursor := s\<rparr>) c = list_where pg params c"
  by (simp add: list_where_def fun_eq_iff)

lemma list_limit_Cursor [simp]: "list_limit (params\<lparr>lp_Cursor := s\<rparr>) = list_limit params"
  by (simp add: list_limit_def)

lemma list_limit_range: "1 \<le> list_limit params \<and> list_limit params \<le> 200"
  by (simp add: list_limit_def Let_def)

text \<open>Rows stored with a representable, non-zero schedule.\<close>

definition schedule_ok :: "'d pg \<Rightarrow> reminder \<Rightarrow> bool" where
  "schedule_ok pg r \<longleftrightarrow>
     pg_ts pg (ScheduleAt r) = ScheduleAt r \<and> ScheduleAt r \<noteq> 0 \<and> json_time (ScheduleAt r)"

definition cursor_of :: "reminder \<Rightarrow> list_cursor" where
  "cursor_of r = \<lparr>lc_ScheduleAt = ScheduleAt r, lc_ID = ID r\<rparr>"

lemma page_after:
  assumes "distinct (map ID rows)" "m < length (listed pg params rows)"
    and "schedule_ok pg (listed pg params rows ! m)"
  shows "page (list_where pg params (Some (cursor_of (listed pg params rows ! m)))) n rows
    = take n (drop (Suc m) (listed pg params rows))"
proof -
  let ?S = "listed pg params rows"
  have "(\<lambda>r. list_where pg params (Some (cursor_of (?S ! m))) r)
      = (\<lambda>r. list_where pg params None r \<and> due_key (?S ! m) < due_key r)"
    using assms(3) by (simp add: list_where_cursor schedule_ok_def due_key_def cursor_of_def fun_eq_iff)
  then have "sort_key due_key (filter (list_where pg params (Some (cursor_of (?S ! m)))) rows)
      = filter (\<lambda>r. due_key (?S ! m) < due_key r) ?S"
    by (simp add: listed_def filter_sort conj_commute)
  also have "\<dots> = drop (Suc m) ?S"
    using listed_strict [OF assms(1)] assms(2) by (intro filter_after_nth)
  finally show ?thesis by (simp add: page_def)
qed

text \<open>One call of \<open>List\<close> whose query starts at the \<open>j\<close>-th row of the whole listing.\<close>

definition starts_at :: "'d pg \<Rightarrow> cursor_codec \<Rightarrow> list_params \<Rightarrow> reminder list \<Rightarrow> nat \<Rightarrow> bool" where
  "starts_at pg cc params rows j \<longleftrightarrow>
     (\<exists>cursor. (if lp_Cursor params = [] then cursor = None
                else \<exists>c. decodeCursor cc (lp_Cursor params) = Inr c \<and> cursor = Some c)
        \<and> (\<forall>n. page (list_where pg params cursor) n rows = take n (drop j (listed pg params rows))))"

lemma List_step:
  assumes laws: "pg_laws pg" and st: "starts_at pg cc params (pg_rows pg d) j"
    and valid: "\<forall>s\<in>set (lp_Statuses params). validStatus s"
    and l: "List (Some pg) cc params d = (Inr res, d')"
  defines "S \<equiv> listed pg params (pg_rows pg d)" and "L \<equiv> nat (list_limit params)"
  shows "pg_rows pg d' = pg_rows pg d"
    and "lr_Items res = take L (drop j S)"
    and "lr_NextCursor res =
      (if length S - j > L then encodeCursor cc (cursor_of (S ! (j + L - 1))) else [])"
proof -
  have L: "int L = list_limit params" "1 \<le> L" "nat (list_limit params + 1) = Suc L"
    using list_limit_range [of params] unfolding L_def by arith+
  from st obtain cursor where cur: "(if lp_Cursor params = [] then cursor = None
        else \<exists>c. decodeCursor cc (lp_Cursor params) = Inr c \<and> cursor = Some c)"
      and pg: "\<And>n. page (list_where pg params cursor) n (pg_rows pg d) = take n (drop j S)"
    unfolding starts_at_def S_def by blast
  obtain sres d1 where s: "pg_select_page pg (list_where pg params cursor) (Suc L) d = (sres, d1)"
    by (rule prod.exhaust)
  with l cur valid L(3) obtain items where items: "sres = Inr items" "d1 = d'"
    by (cases sres) (auto simp: List_def Let_def split: if_splits)
  then have it: "items = take (Suc L) (drop j S)" using pg_page_ok [OF laws] s pg by blast
  show "pg_rows pg d' = pg_rows pg d" using pg_page_rows [OF laws s] items by simp
  have res: "res = (if int (length items) > int L
      then \<lparr>lr_Items = take L items, lr_NextCursor = encodeCursor cc (cursor_of (last (take L items)))\<rparr>
      else \<lparr>lr_Items = items, lr_NextCursor = []\<rparr>)"
    using l cur valid L s items
    by (auto simp: List_def Let_def cursor_of_def L_def split: if_splits)
  show "lr_Items res = take L (drop j S)" using res it by (auto simp: min_def)
  have "last (take L items) = S ! (j + L - 1)" if "length S - j > L"
    using that it L(2) by (simp add: last_conv_nth min_def)
  then show "lr_NextCursor res =
      (if length S - j > L then encodeCursor cc (cursor_of (S ! (j + L - 1))) else [])"
    using res it by auto
qed

lemma List_rows:
  "pg_laws pg \<Longrightarrow> List (Some pg) cc params d = (res, d') \<Longrightarrow> pg_rows pg d' = pg_rows pg d"
  by (auto simp: List_def Let_def split: if_splits sum.splits prod.splits dest: pg_page_rows)

text \<open>The SELECT of a page failed with \<open>e\<close>, on a table with the given rows.\<close>

definition page_failed :: "'d pg \<Rightarrow> reminder list \<Rightarrow> error \<Rightarrow> bool" where
  "page_failed pg rows e \<longleftrightarrow> (\<exists>w n d1 d2. pg_rows pg d1 = rows \<and> pg_select_page pg w n d1 = (Inl e, d2))"

lemma List_error:
  assumes "starts_at pg cc params (pg_rows pg d) j" "\<forall>s\<in>set (lp_Statuses params). validStatus s"
    and l: "List (Some pg) cc params d = (Inl e, d')"
  shows "page_failed pg (pg_rows pg d) e"
proof -
  from assms(1) obtain cursor where "(if lp_Cursor params = [] then cursor = None
        else \<exists>c. decodeCursor cc (lp_Cursor params) = Inr c \<and> cursor = Some c)"
    unfolding starts_at_def by blast
  with l assms(2) have "pg_select_page pg (list_where pg params cursor) (nat (list_limit params + 1)) d = (Inl e, d')"
    by (auto simp: List_def Let_def split: if_splits prod.splits sum.splits)
  then show ?thesis unfolding page_failed_def by blast
qed

lemma all_pages_from:
  assumes laws: "pg_laws pg" and cc: "codec_laws cc"
    and ok: "table_ok rows" "\<forall>r\<in>set rows. schedule_ok pg r"
    and valid: "\<forall>s\<in>set (lp_Statuses params). validStatus s"
  shows "pg_rows pg d = rows \<Longrightarrow> starts_at pg cc params rows j \<Longrightarrow>
    length (listed pg params rows) - j < fuel \<Longrightarrow>
    all_pages fuel (Some pg) cc params d = (res, d') \<Longrightarrow>
    pg_rows pg d' = rows \<and> res \<noteq> None \<and> (\<forall>xs. res = Some (Inr xs) \<longrightarrow> xs = drop j (listed pg params rows))
    \<and> (\<forall>e. res = Some (Inl e) \<longrightarrow> page_failed pg rows e)"
  using valid
proof (induction fuel arbitrary: params d j res d')
  case (Suc fuel)
  let ?S = "listed pg params rows" and ?L = "nat (list_limit params)"
  have dist: "distinct (map ID rows)" using ok(1) by (simp add: table_ok_def)
  obtain lres d1 where l: "List (Some pg) cc params d = (lres, d1)" by (rule prod.exhaust)
  have rows1: "pg_rows pg d1 = rows" using List_rows [OF laws l] Suc.prems(1) by simp
  show ?case
  proof (cases lres)
    case (Inl e)
    have "page_failed pg rows e"
      using List_error [OF _ Suc.prems(5) l [unfolded Inl]] Suc.prems(1,2) by simp
    with Inl Suc.prems(4) l rows1 show ?thesis by auto
  next
    case (Inr page1)
    note step = List_step [OF laws _ Suc.prems(5) l [unfolded Inr]]
    have it: "lr_Items page1 = take ?L (drop j ?S)"
      and nx: "lr_NextCursor page1 =
        (if length ?S - j > ?L then encodeCursor cc (cursor_of (?S ! (j + ?L - 1))) else [])"
      using step Suc.prems(1,2) by auto
    show ?thesis
    proof (cases "length ?S - j > ?L")
      case False
      with Suc.prems l Inr rows1 it nx show ?thesis by auto
    next
      case True
      let ?m = "j + ?L - 1" and ?p = "params\<lparr>lp_Cursor := lr_NextCursor page1\<rparr>"
      have L: "1 \<le> ?L" using list_limit_range [of params] by arith
      have m: "?m < length ?S" "Suc ?m = j + ?L" using True L by auto
      then have r: "?S ! ?m \<in> set rows" using listed_strict(3) [OF dist] nth_mem by blast
      with ok have sk: "schedule_ok pg (?S ! ?m)" "0 < ID (?S ! ?m)"
        by (auto simp: table_ok_def row_ok_def)
      then have dec: "decodeCursor cc (lr_NextCursor page1) = Inr (cursor_of (?S ! ?m))"
          "lr_NextCursor page1 \<noteq> []"
        using True nx decode_encode [OF cc, of "cursor_of (?S ! ?m)"]
        by (auto simp: cursor_of_def schedule_ok_def)
      have S: "listed pg ?p rows = ?S" by (simp add: listed_def)
      have "starts_at pg cc ?p rows (Suc ?m)"
        using dec page_after [OF dist m(1) sk(1)] by (simp add: starts_at_def S)
      moreover have "length (listed pg ?p rows) - Suc ?m < fuel"
        using Suc.prems(3) True m(2) L S by simp
      moreover obtain r2 d2 where a: "all_pages fuel (Some pg) cc ?p d1 = (r2, d2)" by (rule prod.exhaust)
      ultimately have "pg_rows pg d2 = rows \<and> r2 \<noteq> None \<and> (\<forall>xs. r2 = Some (Inr xs) \<longrightarrow> xs = drop (Suc ?m) ?S)
          \<and> (\<forall>e. r2 = Some (Inl e) \<longrightarrow> page_failed pg rows e)"
        using Suc.IH [OF rows1, of ?p "Suc ?m" r2 d2] Suc.prems(5) S by simp
      moreover have "drop j ?S = lr_Items page1 @ drop (Suc ?m) ?S"
        using it m(2) by (metis append_take_drop_id drop_drop add.commute)
      ultimately show ?thesis using Suc.prems(4) l Inr dec(2) a
        by (auto split: option.splits sum.splits)
    qed
  qed
qed simp

text \<open>
  C10: following the cursors of \<open>List\<close> from the first page ends, and gives every reminder that
  matches the filters exactly once, in the order of schedule and id, whatever the page size,
  unless the SELECT of a page failed, whose error it gives then: \<open>List\<close> accepts every cursor it
  has issued.
\<close>

theorem List_pages_complete:
  assumes "pg_laws pg" "codec_laws cc" "table_ok (pg_rows pg d)"
    and "\<forall>r\<in>set (pg_rows pg d). schedule_ok pg r"
    and "\<forall>s\<in>set (lp_Statuses params). validStatus s" "lp_Cursor params = []"
    and "all_pages (Suc (length (pg_rows pg d))) (Some pg) cc params d = (res, d')"
  shows "res = Some (Inr (listed pg params (pg_rows pg d)))
    \<or> (\<exists>e w n d1 d2. res = Some (Inl e) \<and> pg_rows pg d1 = pg_rows pg d \<and> pg_select_page pg w n d1 = (Inl e, d2))"
proof -
  have "starts_at pg cc params (pg_rows pg d) 0"
    using assms(6) by (simp add: starts_at_def page_def listed_def)
  moreover have "length (listed pg params (pg_rows pg d)) - 0 < Suc (length (pg_rows pg d))"
    by (simp add: listed_def le_imp_less_Suc)
  ultimately have "res \<noteq> None \<and> (\<forall>xs. res = Some (Inr xs) \<longrightarrow> xs = listed pg params (pg_rows pg d))
      \<and> (\<forall>e. res = Some (Inl e) \<longrightarrow> page_failed pg (pg_rows pg d) e)"
    using all_pages_from [OF assms(1-5) refl, of 0 _ res d'] assms(7) by simp
  then show ?thesis unfolding page_failed_def by (cases res; cases "the res") auto
qed

text \<open>A concrete codec: decimal digits, with no further encoding.\<close>

definition mem_codec :: cursor_codec where
  "mem_codec =
     \<lparr>cc_Marshal = (\<lambda>c. digits (nat (lc_ScheduleAt c)) @ CHR ''/'' # digits (nat (lc_ID c))),
      cc_Unmarshal = (\<lambda>s.
        case (parse_digits 0 (takeWhile (\<lambda>c. c \<noteq> CHR ''/'') s),
              parse_digits 0 (tl (dropWhile (\<lambda>c. c \<noteq> CHR ''/'') s))) of
          (Some t, Some i) \<Rightarrow> Inr \<lparr>lc_ScheduleAt = int t, lc_ID = int i\<rparr>
        | _ \<Rightarrow> Inl (Errs ''bad cursor'')),
      cc_EncodeToString = (\<lambda>s. s), cc_DecodeString = Inr\<rparr>"

lemma mem_codec_laws: "codec_laws mem_codec"
proof -
  have "c \<noteq> CHR ''/''" if "c \<in> set (digits n)" for c n
  proof -
    from digits_set [OF that] obtain d where "d < 10" "(of_char c :: nat) = 0x30 + d" by auto
    then show ?thesis by auto
  qed
  then have "takeWhile (\<lambda>c. c \<noteq> CHR ''/'') (digits n @ CHR ''/'' # s) = digits n"
      "dropWhile (\<lambda>c. c \<noteq> CHR ''/'') (digits n @ CHR ''/'' # s) = CHR ''/'' # s" for n s
    by (simp_all add: takeWhile_append2 dropWhile_append2)
  then show ?thesis
    by (auto simp: codec_laws_def mem_codec_def parse_digits_digits json_time_def)
qed

definition demo_list_params :: list_params where
  "demo_list_params = \<lparr>lp_UserID = ''u'', lp_Channel = [], lp_Statuses = [StatusPending, StatusFailed],
     lp_ScheduleFrom = 0, lp_ScheduleTo = 0, lp_Limit = 1, lp_Cursor = []\<rparr>"

lemma List_pages_complete_witness:
  "fst (all_pages 4 (Some mem_pg) mem_codec demo_list_params demo_db) =
     Some (Inr (listed mem_pg demo_list_params (pg_rows mem_pg demo_db)))
   \<and> map ID (listed mem_pg demo_list_params (pg_rows mem_pg demo_db)) = [1, 2]"
proof (intro conjI)
  have ok: "\<forall>r\<in>set (pg_rows mem_pg demo_db). schedule_ok mem_pg r"
    by (simp add: demo_db_def demo_row_def schedule_ok_def json_time_def second_def mem_pg_def)
  have v: "\<forall>s\<in>set (lp_Statuses demo_list_params). validStatus s"
    by (simp add: demo_list_params_def)
  have c: "lp_Cursor demo_list_params = []" by (simp add: demo_list_params_def)
  have l: "Suc (length (pg_rows mem_pg demo_db)) = 4" by (simp add: demo_db_def)
  note w = List_pages_complete [OF mem_pg_laws mem_codec_laws demo_table_ok ok v c prod.collapse [symmetric]]
  have row: "schedule_ok mem_pg r \<Longrightarrow> 0 < ID r \<Longrightarrow>
      decodeCursor mem_codec (encodeCursor mem_codec (cursor_of r)) = Inr (cursor_of r)
      \<and> encodeCursor mem_codec (cursor_of r) \<noteq> []" for r
    using decode_encode [OF mem_codec_laws, of "cursor_of r"] by (simp add: schedule_ok_def cursor_of_def)
  let ?a = "demo_row 1 ''a'' StatusPending" and ?b = "demo_row 2 ''b'' StatusFailed"
  have u: "TrimSpace ''u'' = ''u''" by code_simp
  note eval = List_def demo_db_def demo_list_params_def mem_pg_def mem_guard_def list_limit_def
       list_where_def page_def demo_row_def due_key_def u Let_def
  have 1: "List (Some mem_pg) mem_codec demo_list_params demo_db =
      (Inr \<lparr>lr_Items = [?a], lr_NextCursor = encodeCursor mem_codec (cursor_of ?a)\<rparr>, demo_db)"
    by (simp add: eval cursor_of_def)
  have "schedule_ok mem_pg ?a" "0 < ID ?a"
    using ok by (simp_all add: demo_db_def) (simp add: demo_row_def)
  note a = row [OF this]
  have 2: "List (Some mem_pg) mem_codec
      (demo_list_params\<lparr>lp_Cursor := encodeCursor mem_codec (cursor_of ?a)\<rparr>) demo_db =
      (Inr \<lparr>lr_Items = [?b], lr_NextCursor = []\<rparr>, demo_db)"
    using a by (simp add: eval) (simp add: eval cursor_of_def second_def)
  have "case fst (all_pages 4 (Some mem_pg) mem_codec demo_list_params demo_db) of
      Some (Inr _) \<Rightarrow> True | _ \<Rightarrow> False"
    using a by (simp add: eval_nat_numeral 1 2)
  with w [unfolded l] show "fst (all_pages 4 (Some mem_pg) mem_codec demo_list_params demo_db) =
     Some (Inr (listed mem_pg demo_list_params (pg_rows mem_pg demo_db)))"
    by (auto split: option.splits sum.splits)
  show "map ID (listed mem_pg demo_list_params (pg_rows mem_pg demo_db)) = [1, 2]" by code_simp
qed

end
