(* ===== verification/ReminderDispatcher.thy ===== *)
theory ReminderDispatcher
  imports ReminderService
begin

text \<open>
  dispatcher.go of package \<open>reminder\<close>: the notifier that picks a handler by the channel of
  the reminder and by the type its payload names.  Handlers are functions on a world \<open>'w\<close>;
  a nil handler or receiver is \<open>None\<close>.  Reading the \<open>type\<close> member of a payload is
  \<open>encoding/json\<close>'s and a parameter: \<open>unmarshal\<close> gives the \<open>Type\<close> of the envelope or the
  error.
\<close>

subsection \<open>Operations\<close>

definition ErrNoNotifierHandler :: error where
  "ErrNoNotifierHandler = Errs ''no reminder notifier registered''"

type_synonym dispatchRoute = "string \<times> string"

record 'w dispatcher =
  routeHandlers :: "dispatchRoute \<rightharpoonup> 'w notify"
  typeHandlers :: "string \<rightharpoonup> 'w notify"
  channelHandlers :: "string \<rightharpoonup> 'w notify"
  fallback :: "'w notify option"

definition NewDispatcherNotifier :: "'w dispatcher" where
  "NewDispatcherNotifier =
     \<lparr>routeHandlers = Map.empty, typeHandlers = Map.empty, channelHandlers = Map.empty, fallback = None\<rparr>"

definition normalizeDispatchKey :: "string \<Rightarrow> string" where
  "normalizeDispatchKey value = ToLower (TrimSpace value)"

definition Register ::
  "'w dispatcher option \<Rightarrow> string \<Rightarrow> string \<Rightarrow> 'w notify option \<Rightarrow> error option \<times> 'w dispatcher option" where
  "Register dp channel typeKey handler =
     (case dp of
        None \<Rightarrow> (Some ErrNoNotifierHandler, dp)
      | Some d \<Rightarrow>
          (case handler of
             None \<Rightarrow> (Some (Errs ''reminder handler is nil''), dp)
           | Some h \<Rightarrow>
               (let key = (normalizeDispatchKey channel, normalizeDispatchKey typeKey) in
                if fst key = [] \<or> snd key = [] then (Some (Errs ''channel and type are required''), dp)
                else (None, Some (d\<lparr>routeHandlers := (routeHandlers d)(key \<mapsto> h)\<rparr>)))))"

definition RegisterChannel ::
  "'w dispatcher option \<Rightarrow> string \<Rightarrow> 'w notify option \<Rightarrow> error option \<times> 'w dispatcher option" where
  "RegisterChannel dp channel handler =
     (case dp of
        None \<Rightarrow> (Some ErrNoNotifierHandler, dp)
      | Some d \<Rightarrow>
          (case handler of
             None \<Rightarrow> (Some (Errs ''reminder handler is nil''), dp)
           | Some h \<Rightarrow>
               (let key = normalizeDispatchKey channel in
                if key = [] then (Some (Errs ''channel is required''), dp)
                else (None, Some (d\<lparr>channelHandlers := (channelHandlers d)(key \<mapsto> h)\<rparr>)))))"

definition RegisterType ::
  "'w dispatcher option \<Rightarrow> string \<Rightarrow> 'w notify option \<Rightarrow> error option \<times> 'w dispatcher option" where
  "RegisterType dp typeKey handler =
     (case dp of
        None \<Rightarrow> (Some ErrNoNotifierHandler, dp)
      | Some d \<Rightarrow>
          (case handler of
             None \<Rightarrow> (Some (Errs ''reminder handler is nil''), dp)
           | Some h \<Rightarrow>
               (let key = normalizeDispatchKey typeKey in
                if key = [] then (Some (Errs ''type is required''), dp)
                else (None, Some (d\<lparr>typeHandlers := (typeHandlers d)(key \<mapsto> h)\<rparr>)))))"

definition SetFallback ::
  "'w dispatcher option \<Rightarrow> 'w notify option \<Rightarrow> error option \<times> 'w dispatcher option" where
  "SetFallback dp handler =
     (case dp of
        None \<Rightarrow> (Some ErrNoNotifierHandler, dp)
      | Some d \<Rightarrow>
          (case handler of
             None \<Rightarrow> (Some (Errs ''reminder handler is nil''), dp)
           | Some h \<Rightarrow> (None, Some (d\<lparr>fallback := Some h\<rparr>))))"

definition lookup :: "'w dispatcher \<Rightarrow> string \<Rightarrow> string \<Rightarrow> 'w notify option" where
  "lookup d channel typeKey =
     (case (if channel \<noteq> [] \<and> typeKey \<noteq> [] then routeHandlers d (channel, typeKey) else None) of
        Some h \<Rightarrow> Some h
      | None \<Rightarrow>
          (case (if typeKey \<noteq> [] then typeHandlers d typeKey else None) of
             Some h \<Rightarrow> Some h
           | None \<Rightarrow>
               (case (if channel \<noteq> [] then channelHandlers d channel else None) of
                  Some h \<Rightarrow> Some h
                | None \<Rightarrow> fallback d)))"

definition payloadType :: "(string \<Rightarrow> error + string) \<Rightarrow> string \<Rightarrow> string \<times> error option" where
  "payloadType unmarshal payload0 =
     (let payload = TrimSpace payload0 in
      if payload = [] then ([], None)
      else
        (case unmarshal payload of
           Inl err \<Rightarrow> ([], Some err)
         | Inr t \<Rightarrow> (normalizeDispatchKey t, None)))"

definition Notify ::
  "(string \<Rightarrow> error + string) \<Rightarrow> 'w dispatcher option \<Rightarrow> reminder option \<Rightarrow> 'w \<Rightarrow> error option \<times> 'w" where
  "Notify unmarshal dp item w =
     (case dp of
        None \<Rightarrow> (Some ErrNoNotifierHandler, w)
      | Some d \<Rightarrow>
          (case item of
             None \<Rightarrow> (Some ErrInvalidReminder, w)
           | Some r \<Rightarrow>
               (case payloadType unmarshal (Payload r) of
                  (typeKey, payloadErr) \<Rightarrow>
                    (case lookup d (normalizeDispatchKey (Channel r)) typeKey of
                       Some handler \<Rightarrow> handler r w
                     | None \<Rightarrow>
                         (case payloadErr of
                            Some e \<Rightarrow> (Some (Wrap ''decode reminder payload: '' e []), w)
                          | None \<Rightarrow> (Some ErrNoNotifierHandler, w))))))"

subsection \<open>What a sequence of registrations means\<close>

datatype 'w registration =
    RegRoute string string "'w notify option"
  | RegChannel string "'w notify option"
  | RegType string "'w notify option"
  | RegFallback "'w notify option"

fun do_register :: "'w registration \<Rightarrow> 'w dispatcher option \<Rightarrow> 'w dispatcher option" where
  "do_register (RegRoute c t h) dp = snd (Register dp c t h)"
| "do_register (RegChannel c h) dp = snd (RegisterChannel dp c h)"
| "do_register (RegType t h) dp = snd (RegisterType dp t h)"
| "do_register (RegFallback h) dp = snd (SetFallback dp h)"

text \<open>
  The handler a registration offers at one of the four levels to a reminder of a channel and
  a type, given normalised.
\<close>

datatype level = RouteLevel | TypeLevel | ChannelLevel | FallbackLevel

fun offers :: "level \<Rightarrow> string \<Rightarrow> string \<Rightarrow> 'w registration \<Rightarrow> 'w notify option" where
  "offers RouteLevel c t (RegRoute c' t' h) =
     (if normalizeDispatchKey c' = c \<and> normalizeDispatchKey t' = t \<and> c \<noteq> [] \<and> t \<noteq> [] then h else None)"
| "offers TypeLevel c t (RegType t' h) = (if normalizeDispatchKey t' = t \<and> t \<noteq> [] then h else None)"
| "offers ChannelLevel c t (RegChannel c' h) = (if normalizeDispatchKey c' = c \<and> c \<noteq> [] then h else None)"
| "offers FallbackLevel c t (RegFallback h) = h"
| "offers _ _ _ _ = None"

fun first_some :: "'b option list \<Rightarrow> 'b option" where
  "first_some [] = None"
| "first_some (Some x # _) = Some x"
| "first_some (None # xs) = first_some xs"

text \<open>The last offer at a level, and the levels in order of priority.\<close>

definition offered :: "level \<Rightarrow> string \<Rightarrow> string \<Rightarrow> 'w registration list \<Rightarrow> 'w notify option" where
  "offered l c t regs = first_some (map (offers l c t) (rev regs))"

definition chosen :: "string \<Rightarrow> string \<Rightarrow> 'w registration list \<Rightarrow> 'w notify option" where
  "chosen c t regs =
     first_some [offered RouteLevel c t regs, offered TypeLevel c t regs,
                 offered ChannelLevel c t regs, offered FallbackLevel c t regs]"

interpretation dispatch_norm: normaliser normalizeDispatchKey
  by unfold_locales (metis ToLower_idem TrimSpace_ToLower TrimSpace_idem normalizeDispatchKey_def)

lemma first_some_Cons: "first_some (x # xs) = (case x of None \<Rightarrow> first_some xs | Some h \<Rightarrow> Some h)"
  by (cases x) auto

lemma offered_snoc:
  "offered l c t (regs @ [r]) = (case offers l c t r of None \<Rightarrow> offered l c t regs | Some h \<Rightarrow> Some h)"
  by (simp add: offered_def first_some_Cons split: option.split)

text \<open>The tables hold exactly the last offers.\<close>

definition represents :: "'w registration list \<Rightarrow> 'w dispatcher \<Rightarrow> bool" where
  "represents regs d \<longleftrightarrow>
     (\<forall>c t. c \<noteq> [] \<longrightarrow> t \<noteq> [] \<longrightarrow> routeHandlers d (c, t) = offered RouteLevel c t regs)
   \<and> (\<forall>c t. t \<noteq> [] \<longrightarrow> typeHandlers d t = offered TypeLevel c t regs)
   \<and> (\<forall>c t. c \<noteq> [] \<longrightarrow> channelHandlers d c = offered ChannelLevel c t regs)
   \<and> (\<forall>c t. fallback d = offered FallbackLevel c t regs)"

lemma represents_step:
  assumes "represents regs d"
  shows "\<exists>d'. do_register r (Some d) = Some d' \<and> represents (regs @ [r]) d'"
proof (cases r)
  case (RegRoute c t h)
  with assms show ?thesis
    by (cases h) (auto simp: represents_def Register_def offered_snoc Let_def)
next
  case (RegChannel c h)
  with assms show ?thesis
    by (cases h) (auto simp: represents_def RegisterChannel_def offered_snoc Let_def)
next
  case (RegType t h)
  with assms show ?thesis
    by (cases h) (auto simp: represents_def RegisterType_def offered_snoc Let_def)
next
  case (RegFallback h)
  with assms show ?thesis
    by (cases h) (auto simp: represents_def SetFallback_def offered_snoc)
qed

lemma represents_all:
  "represents before d \<Longrightarrow> \<exists>d'. fold do_register regs (Some d) = Some d' \<and> represents (before @ regs) d'"
proof (induction regs arbitrary: before d)
  case (Cons r regs)
  obtain d1 where d1: "do_register r (Some d) = Some d1" "represents (before @ [r]) d1"
    using represents_step [OF Cons.prems] by blast
  from Cons.IH [OF d1(2)] d1(1) show ?case by simp
qed simp

lemma represents_new: "represents [] NewDispatcherNotifier"
  by (simp add: represents_def NewDispatcherNotifier_def offered_def)

lemma offered_empty: "offered RouteLevel [] t regs = None" "offered RouteLevel c [] regs = None"
    "offered TypeLevel c [] regs = None" "offered ChannelLevel [] t regs = None"
proof -
  have n: "first_some (map f xs) = None" if "\<And>x. f x = None" for f :: "'a registration \<Rightarrow> 'a notify option" and xs
    using that by (induction xs) auto
  have "offers RouteLevel [] t r = None" "offers RouteLevel c [] r = None"
    "offers TypeLevel c [] r = None" "offers ChannelLevel [] t r = None" for r :: "'a registration"
    by (cases r; simp)+
  then show "offered RouteLevel [] t regs = None" "offered RouteLevel c [] regs = None"
    "offered TypeLevel c [] regs = None" "offered ChannelLevel [] t regs = None"
    by (simp_all add: offered_def n)
qed

lemma lookup_represents:
  assumes "represents regs d"
  shows "lookup d c t = chosen c t regs"
  using assms by (auto simp: lookup_def represents_def chosen_def first_some_Cons offered_empty split: option.splits)

text \<open>
  After any sequence of registrations, valid or not, a notification is delivered by the
  handler registered last for its channel and payload type together, else by the one for its
  type, else for its channel, else by the fallback, in any spelling of the names; with none
  it fails and calls nobody, with the decoding error if the payload could not be decoded.
\<close>

theorem Notify_chosen:
  "Notify unmarshal (fold do_register regs (Some NewDispatcherNotifier)) (Some r) w =
     (case payloadType unmarshal (Payload r) of
        (typeKey, payloadErr) \<Rightarrow>
          (case chosen (normalizeDispatchKey (Channel r)) typeKey regs of
             Some handler \<Rightarrow> handler r w
           | None \<Rightarrow>
               (Some (case payloadErr of
                        Some e \<Rightarrow> Wrap ''decode reminder payload: '' e []
                      | None \<Rightarrow> ErrNoNotifierHandler), w)))"
proof -
  obtain d where d: "fold do_register regs (Some NewDispatcherNotifier) = Some d" "represents regs d"
    using represents_all [OF represents_new, of regs] by auto
  show ?thesis
    by (simp add: Notify_def d(1) lookup_represents [OF d(2)] split: prod.splits option.splits)
qed

text \<open>The keys of the tables are normalised and not empty.\<close>

definition dispatcher_ok :: "'w dispatcher \<Rightarrow> bool" where
  "dispatcher_ok d \<longleftrightarrow>
     (\<forall>(c, t)\<in>dom (routeHandlers d). dispatch_norm.normal c \<and> dispatch_norm.normal t \<and> c \<noteq> [] \<and> t \<noteq> [])
   \<and> (\<forall>t\<in>dom (typeHandlers d). dispatch_norm.normal t \<and> t \<noteq> [])
   \<and> (\<forall>c\<in>dom (channelHandlers d). dispatch_norm.normal c \<and> c \<noteq> [])"

lemma dispatcher_ok_fallback: "dispatcher_ok (d\<lparr>fallback := h\<rparr>) = dispatcher_ok d"
  by (simp add: dispatcher_ok_def)

lemma do_register_ok:
  assumes d: "dispatcher_ok d" and r: "do_register r (Some d) = Some d'"
  shows "dispatcher_ok d'"
proof (cases "d' = d")
  case False
  note norm = dispatch_norm.normal_norm
  show ?thesis
  proof (cases r)
    case (RegRoute c t h)
    with r False obtain f where "d' = d\<lparr>routeHandlers := (routeHandlers d)
        ((normalizeDispatchKey c, normalizeDispatchKey t) \<mapsto> f)\<rparr>"
        "normalizeDispatchKey c \<noteq> []" "normalizeDispatchKey t \<noteq> []"
      by (auto simp: Register_def Let_def split: option.splits if_splits)
    with d norm show ?thesis by (simp add: dispatcher_ok_def)
  next
    case (RegChannel c h)
    with r False obtain f where "d' = d\<lparr>channelHandlers := (channelHandlers d)(normalizeDispatchKey c \<mapsto> f)\<rparr>"
        "normalizeDispatchKey c \<noteq> []"
      by (auto simp: RegisterChannel_def Let_def split: option.splits if_splits)
    with d norm show ?thesis by (simp add: dispatcher_ok_def)
  next
    case (RegType t h)
    with r False obtain f where "d' = d\<lparr>typeHandlers := (typeHandlers d)(normalizeDispatchKey t \<mapsto> f)\<rparr>"
        "normalizeDispatchKey t \<noteq> []"
      by (auto simp: RegisterType_def Let_def split: option.splits if_splits)
    with d norm show ?thesis by (simp add: dispatcher_ok_def)
  next
    case (RegFallback h)
    then obtain f where f: "d' = d\<lparr>fallback := f\<rparr>"
      using r False by (cases h) (auto simp: SetFallback_def)
    show ?thesis unfolding f dispatcher_ok_fallback by (rule d)
  qed
qed (use d in simp)

end
