(* ===== verification/ReminderProps.thy ===== *)
theory ReminderProps
  imports ReminderBound ReminderPages ReminderDispatcher
begin

text \<open>
  The properties of the reminder package that rest on the invariants of the whole system
  and on the abstract operations, and a run of the system in memory for the witnesses.
\<close>

subsection \<open>A run in memory\<close>

definition demo_start :: "memdb rsys" where
  "demo_start =
     \<lparr>sys_db = \<lparr>md_rows = [], md_next = 0, md_locked = [], md_faults = []\<rparr>,
      sys_inflight = [], sys_marking = [], sys_notified = (\<lambda>_. 0)\<rparr>"

lemma demo_start_init: "rsys_init mem_pg demo_start"
  by (simp add: rsys_init_def demo_start_def)

text \<open>Created, claimed, notified, recorded as sent.\<close>

definition demo_created :: "memdb rsys" where
  "demo_created = demo_start\<lparr>sys_db := snd (Create (Some mem_pg) demo_params 7000 (sys_db demo_start))\<rparr>"

definition demo_item :: reminder where
  "demo_item = (insert_row mem_pg (new_reminder demo_params 7000))
     \<lparr>ID := 1, Status := StatusProcessing, UpdatedAt := 10 * second\<rparr>"

definition demo_claimed :: "memdb rsys" where
  "demo_claimed = demo_created
     \<lparr>sys_db := snd (ClaimDue (Some mem_pg) (10 * second) 5 (sys_db demo_created)),
      sys_inflight := [demo_item]\<rparr>"

definition demo_notified :: "memdb rsys" where
  "demo_notified = demo_claimed
     \<lparr>sys_inflight := [], sys_marking := [(demo_item, None)], sys_notified := (\<lambda>_. 0)(1 := 1)\<rparr>"

definition demo_sent :: "memdb rsys" where
  "demo_sent = demo_notified
     \<lparr>sys_db := snd (dispatch_mark reminder_defaultOptions (Some mem_pg) None demo_item
                      (11 * second) 0 (sys_db demo_notified)), sys_marking := []\<rparr>"

lemmas demo_steps = demo_start_def demo_created_def demo_claimed_def demo_notified_def demo_sent_def

lemma demo_created_rows: "md_rows (sys_db demo_created) =
    [(insert_row mem_pg (new_reminder demo_params 7000))\<lparr>ID := 1\<rparr>]"
  using demo_params_valid
  by (simp add: demo_steps Create_def mem_pg_def mem_insert_def Let_def mem_next_def insert_row_def new_reminder_def)

lemma demo_claim: "fst (ClaimDue (Some mem_pg) (10 * second) 5 (sys_db demo_created)) = Inr [demo_item]"
  by code_simp

lemma demo_item_ID: "ID demo_item = 1"
  by (simp add: demo_item_def)

lemma demo_run: "run (rstep mem_pg reminder_defaultOptions) (\<lambda>ev. ev \<noteq> EvRecover) demo_start demo_sent"
proof -
  let ?step = "rstep mem_pg reminder_defaultOptions"
  have "in_int64 (cp_MaxRetry demo_params)" by code_simp
  then have "?step demo_start EvCreate demo_created"
    unfolding demo_created_def by (intro rstep.create [OF prod.collapse [symmetric]])
  moreover have "?step demo_created EvClaim demo_claimed"
  proof -
    have c: "ClaimDue (Some mem_pg) (10 * second) 5 (sys_db demo_created) =
        (Inr [demo_item], snd (ClaimDue (Some mem_pg) (10 * second) 5 (sys_db demo_created)))"
      using demo_claim by (metis prod.collapse)
    have "sys_inflight demo_created = []" by (simp add: demo_created_def demo_start_def)
    with rstep.claim [OF c, of reminder_defaultOptions] show ?thesis by (simp add: demo_claimed_def)
  qed
  moreover have "?step demo_claimed (EvNotify (ID demo_item)) demo_notified"
  proof -
    have i: "sys_inflight demo_claimed = [] @ demo_item # []" by (simp add: demo_claimed_def)
    have "sys_marking demo_claimed = []" "sys_notified demo_claimed = (\<lambda>_. 0)"
      by (simp_all add: demo_claimed_def demo_created_def demo_start_def)
    with rstep.notify [OF i, of mem_pg reminder_defaultOptions None] show ?thesis
      by (simp add: demo_notified_def demo_item_ID)
  qed
  moreover have "?step demo_notified EvMark demo_sent"
  proof -
    have i: "sys_marking demo_notified = [] @ (demo_item, None) # []" by (simp add: demo_notified_def)
    from rstep.mark [OF i prod.collapse [symmetric], of mem_pg reminder_defaultOptions "11 * second" 0]
    show ?thesis by (simp add: demo_sent_def)
  qed
  moreover have "EvCreate \<noteq> EvRecover" "EvClaim \<noteq> EvRecover" "EvNotify (ID demo_item) \<noteq> EvRecover"
      "EvMark \<noteq> EvRecover" by simp_all
  ultimately show ?thesis by (meson run_one run_step)
qed

definition demo_final :: reminder where
  "demo_final = demo_item\<lparr>Status := StatusSent, SentAt := Some (11 * second), UpdatedAt := 11 * second\<rparr>"

lemma demo_sent_rows: "pg_rows mem_pg (sys_db demo_sent) = [demo_final]"
  unfolding mem_pg_rows by code_simp

lemma demo_final_terminal: "terminal demo_final"
  by (simp add: terminal_def demo_final_def)

lemma run_any: "run step P s t \<Longrightarrow> run step (\<lambda>_. True) s t"
  by (induction rule: run.induct) (auto intro: run_step)

subsection \<open>Reachable states\<close>

text \<open>
  C1: in every state any interleaving of API calls, workers, recoveries, crashes and failing
  statements can reach, the table is well-formed: unique ids and keys, known statuses, a
  retry count within \<open>MaxRetry\<close> (and below it while the reminder is pending or processing),
  and \<open>SentAt\<close> and \<open>CanceledAt\<close> set exactly for sent and canceled reminders.
\<close>

theorem reminder_reachable_ok:
  assumes "pg_laws pg" "rsys_init pg s" "run (rstep pg opts) (\<lambda>_. True) s t"
  shows "table_ok (pg_rows pg (sys_db t))"
  using rem_sys.run_inv [OF assms(3)] assms(1,2) rsys_init_ok by (auto simp: sys_ok_def)

lemma reminder_reachable_ok_witness: "table_ok (pg_rows mem_pg (sys_db demo_sent))"
  by (rule reminder_reachable_ok [OF mem_pg_laws demo_start_init run_any [OF demo_run]])

text \<open>
  C5: a reminder that was sent or canceled stays exactly as it is, whatever runs afterwards:
  it is never sent a second time, rescheduled, recovered or marked otherwise.
\<close>

theorem reminder_terminal_forever:
  assumes "pg_laws pg" "rsys_init pg s0" "run (rstep pg opts) (\<lambda>_. True) s0 s"
    and "r \<in> set (pg_rows pg (sys_db s))" "Status r \<in> {StatusSent, StatusCanceled}"
    and "run (rstep pg opts) (\<lambda>_. True) s t"
  shows "r \<in> set (pg_rows pg (sys_db t))"
proof -
  have "sys_ok pg s" using rem_sys.run_inv [OF assms(3)] assms(1,2) rsys_init_ok by auto
  moreover have "terminal r" using assms(5) by (auto simp: terminal_def)
  ultimately show ?thesis using rem_terminal.run_inv [OF assms(6), of r] assms(1,4) by auto
qed

lemma reminder_terminal_forever_witness:
  "demo_final \<in> set (pg_rows mem_pg (sys_db (demo_sent\<lparr>sys_inflight := filter (\<lambda>_. False) (sys_inflight demo_sent),
     sys_marking := filter (\<lambda>_. False) (sys_marking demo_sent)\<rparr>)))"
proof (rule reminder_terminal_forever [OF mem_pg_laws demo_start_init run_any [OF demo_run]])
  show "demo_final \<in> set (pg_rows mem_pg (sys_db demo_sent))" by (simp only: demo_sent_rows) simp
  show "Status demo_final \<in> {StatusSent, StatusCanceled}" by (simp add: demo_final_def)
qed (rule run_one, rule rstep.crash, simp)

text \<open>
  C3: while no stale reminder is recovered, the notifier is called at most \<open>MaxRetry\<close> times
  for a reminder between its creation or last rescheduling and the next one, across all
  workers and crashes.
\<close>

theorem reminder_notified_bounded:
  assumes "pg_laws pg" "rsys_init pg s" "run (rstep pg opts) (\<lambda>ev. ev \<noteq> EvRecover) s t"
    and "r \<in> set (pg_rows pg (sys_db t))"
  shows "int (sys_notified t (ID r)) \<le> MaxRetry r"
proof -
  have b: "bound_ok pg t" using rem_bound.run_inv [OF assms(3)] assms(1,2) rsys_init_bound by auto
  then have "row_ok r" using assms(4) by (auto simp: bound_ok_def sys_ok_def table_ok_def)
  with b assms(4) calls_allowed_le [of r "waiting t"] show ?thesis
    by (fastforce simp: bound_ok_def calls_ok_def)
qed

lemma reminder_notified_bounded_witness:
  "int (sys_notified demo_sent (ID demo_final)) \<le> MaxRetry demo_final \<and> sys_notified demo_sent (ID demo_final) = 1"
proof
  show "int (sys_notified demo_sent (ID demo_final)) \<le> MaxRetry demo_final"
    by (rule reminder_notified_bounded [OF mem_pg_laws demo_start_init demo_run]) (simp only: demo_sent_rows, simp)
  show "sys_notified demo_sent (ID demo_final) = 1"
    by (simp add: demo_sent_def demo_notified_def demo_final_def demo_item_ID)
qed

text \<open>
  C4: while no stale reminder is recovered, no two workers hold the same reminder: the claimed
  copies that wait for their notifier or for their outcome to be recorded have distinct ids,
  and the row of each is still \<open>processing\<close>.
\<close>

theorem reminder_claims_exclusive:
  assumes "pg_laws pg" "rsys_init pg s" "run (rstep pg opts) (\<lambda>ev. ev \<noteq> EvRecover) s t"
  shows "distinct (map ID (sys_inflight t @ map fst (sys_marking t)))
    \<and> (\<forall>it\<in>set (sys_inflight t @ map fst (sys_marking t)).
         \<exists>r\<in>set (pg_rows pg (sys_db t)). ID r = ID it \<and> Status r = StatusProcessing)"
proof -
  have "bound_ok pg t" using rem_bound.run_inv [OF assms(3)] assms(1,2) rsys_init_bound by auto
  then show ?thesis unfolding bound_ok_def copies_ok_def sys_items_def by blast
qed

lemma reminder_claims_exclusive_witness:
  "distinct (map ID (sys_inflight demo_sent @ map fst (sys_marking demo_sent)))"
  using reminder_claims_exclusive [OF mem_pg_laws demo_start_init demo_run] by blast

subsection \<open>The worker's operations\<close>

text \<open>The earliest rows, and nothing else.\<close>

lemma page_length: "length (page p n rows) = min n (length (filter p rows))"
  by (simp add: page_def min.commute)

lemma page_first:
  assumes "c \<in> set (page p n rows)" "r \<in> set rows" "p r" "r \<notin> set (page p n rows)"
  shows "due_key c \<le> due_key r"
proof -
  let ?s = "sort_key due_key (filter p rows)"
  have "r \<in> set ?s" using assms(2,3) by simp
  moreover have "set ?s = set (take n ?s) \<union> set (drop n ?s)" by (metis append_take_drop_id set_append)
  ultimately have r: "r \<in> set (drop n ?s)" using assms(4) by (auto simp: page_def)
  have "sorted (map due_key (take n ?s @ drop n ?s))" by simp
  then show ?thesis using assms(1) r unfolding map_append sorted_append page_def by auto
qed

text \<open>
  C6: \<open>ClaimDue\<close> claims, in one step, exactly the first \<open>limit\<close> pending reminders that are
  due and not locked by another transaction, in the order of schedule and id: it returns
  them marked \<open>processing\<close> and changes these rows only; if it fails, either nothing
  happened or (a commit whose answer was lost) the whole claim did.
\<close>

theorem ClaimDue_exact:
  assumes laws: "pg_laws pg" and ok: "table_ok (pg_rows pg d)"
    and c: "ClaimDue (Some pg) now limit d = (res, d')"
  defines "P \<equiv> \<lambda>r. Status r = StatusPending \<and> ScheduleAt r \<le> pg_ts pg now \<and> ID r \<notin> pg_locked pg d"
  shows "\<exists>chosen. length chosen = min (nat limit) (length (filter P (pg_rows pg d)))
    \<and> set chosen \<subseteq> {r \<in> set (pg_rows pg d). P r} \<and> distinct (map ID chosen)
    \<and> sorted (map due_key chosen)
    \<and> (\<forall>x\<in>set chosen. \<forall>r\<in>set (pg_rows pg d). P r \<and> r \<notin> set chosen \<longrightarrow> due_key x \<le> due_key r)
    \<and> (let after = map (\<lambda>r. if r \<in> set chosen
             then r\<lparr>Status := StatusProcessing, UpdatedAt := pg_ts pg now\<rparr> else r) (pg_rows pg d)
       in case res of
            Inr items \<Rightarrow> pg_rows pg d' = after
              \<and> items = map (\<lambda>r. r\<lparr>Status := StatusProcessing, UpdatedAt := now\<rparr>) chosen
          | Inl e \<Rightarrow> pg_rows pg d' = pg_rows pg d \<or> pg_rows pg d' = after)"
proof -
  let ?rows = "pg_rows pg d" and ?ch = "claimed pg now limit d"
  have dist: "distinct (map ID ?rows)" using ok by (simp add: table_ok_def)
  have ch: "?ch = page P (nat limit) ?rows" by (simp add: claimed_def due_def P_def conj_assoc)
  have "ID r \<in> ID ` set ?ch \<longleftrightarrow> r \<in> set ?ch" if "r \<in> set ?rows" for r
  proof -
    have "set ?ch \<subseteq> set ?rows" using set_page [of P _ ?rows] ch by auto
    then show ?thesis using that distinct_ID_inj [OF dist] by blast
  qed
  then have "after_claim pg now limit d = map (\<lambda>r. if r \<in> set ?ch
      then r\<lparr>Status := StatusProcessing, UpdatedAt := pg_ts pg now\<rparr> else r) ?rows"
    by (simp add: after_claim_def update_rows_def claim_set_def)
  moreover note ClaimDue_result [OF laws dist c]
  moreover have "sorted (map due_key ?ch)"
    by (simp add: ch page_def take_map [symmetric] sorted_wrt_take)
  moreover have "length ?ch = min (nat limit) (length (filter P ?rows))" by (simp add: ch page_length)
  moreover have "set ?ch \<subseteq> {r \<in> set ?rows. P r}" unfolding ch by (rule set_page)
  moreover have "distinct (map ID ?ch)" unfolding ch by (rule distinct_ID_page [OF dist])
  moreover have "\<forall>x\<in>set ?ch. \<forall>r\<in>set ?rows. P r \<and> r \<notin> set ?ch \<longrightarrow> due_key x \<le> due_key r"
    unfolding ch using page_first by blast
  ultimately show ?thesis by (intro exI [of _ ?ch]) (cases res; simp add: Let_def)
qed

lemma ClaimDue_exact_witness:
  "case ClaimDue (Some mem_pg) (10 * second) 5 demo_db of
     (Inr items, d') \<Rightarrow> length items = 1 \<and> length (md_rows d') = 3 | _ \<Rightarrow> False"
proof -
  obtain items d' where c: "ClaimDue (Some mem_pg) (10 * second) 5 demo_db = (Inr items, d')"
    and i: "length items = 1"
  proof -
    have "case ClaimDue (Some mem_pg) (10 * second) 5 demo_db of
        (Inr items, d') \<Rightarrow> length items = 1 | _ \<Rightarrow> False" by code_simp
    then show ?thesis using that by (auto split: prod.splits sum.splits)
  qed
  from ClaimDue_exact [OF mem_pg_laws demo_table_ok c] have "length (md_rows d') = length (md_rows demo_db)"
    by (auto simp: Let_def)
  with c i show ?thesis by (simp add: demo_db_def)
qed

text \<open>What recording an outcome does to the row of the claimed copy.\<close>

definition spec_mark ::
  "(go_time \<Rightarrow> go_time) \<Rightarrow> reminder_options \<Rightarrow> error option \<Rightarrow> go_time \<Rightarrow> go_time \<Rightarrow> reminder \<Rightarrow> reminder" where
  "spec_mark ts opts outcome now tnow r =
     (case outcome of
        None \<Rightarrow> r\<lparr>Status := StatusSent, SentAt := Some (ts now), UpdatedAt := ts now\<rparr>
      | Some e \<Rightarrow>
          if MaxRetry r \<le> RetryCount r + 1
          then r\<lparr>Status := StatusFailed, RetryCount := RetryCount r + 1, LastError := notify_message e,
                 UpdatedAt := ts tnow\<rparr>
          else r\<lparr>Status := StatusPending, RetryCount := RetryCount r + 1,
                 ScheduleAt := ts (now + reminder_retryDelay opts (RetryCount r + 1)),
                 LastError := notify_message e, UpdatedAt := ts tnow\<rparr>)"

text \<open>The same as a change of the table, with the error.\<close>

lemma dispatch_mark_mutation:
  assumes it: "item_ok (pg_rows pg d) item" and now: "0 < now" and opts: "reminder_options_ok opts"
    and m: "dispatch_mark opts (Some pg) outcome item now tnow d = ((err, label), d')"
  shows "\<exists>e f. mutation pg (\<lambda>r. ID r = ID item \<and> Status r = StatusProcessing) f d = (e, d')
    \<and> (err = None \<longleftrightarrow> e = None)
    \<and> (\<forall>r. RetryCount r = RetryCount item \<and> MaxRetry r = MaxRetry item \<longrightarrow>
          f r = spec_mark (pg_ts pg) opts outcome now tnow r)"
proof -
  let ?p = "\<lambda>r. ID r = ID item \<and> Status r = StatusProcessing"
  have i0: "ID item \<noteq> 0" and suc: "wrap64 (RetryCount item + 1) = RetryCount item + 1"
    using it item_ok_suc [OF it] by (auto simp: item_ok_def)
  have at: "now + reminder_retryDelay opts n \<noteq> 0" for n
    using now reminder_retryDelay_pos [OF opts, of n] by simp
  show ?thesis
  proof (cases outcome)
    case None
    with m i0 now show ?thesis
      by (intro exI [of _ err] exI [of _ "\<lambda>r. r\<lparr>Status := StatusSent, SentAt := Some (pg_ts pg now),
            UpdatedAt := pg_ts pg now\<rparr>"])
         (auto simp: dispatch_mark_def MarkSent_def spec_mark_def split: option.splits prod.splits)
  next
    case (Some x)
    show ?thesis
    proof (cases "MaxRetry item \<le> RetryCount item + 1")
      case True
      let ?f = "\<lambda>r. r\<lparr>Status := StatusFailed, RetryCount := RetryCount item + 1,
                 LastError := notify_message x, UpdatedAt := pg_ts pg tnow\<rparr>"
      obtain e d1 where e: "mutation pg ?p ?f d = (e, d1)" by (rule prod.exhaust)
      with m Some True i0 suc show ?thesis
        by (intro exI [of _ e] exI [of _ ?f])
           (auto simp: dispatch_mark_def MarkFailed_def spec_mark_def Let_def split: option.splits)
    next
      case False
      let ?f = "\<lambda>r. r\<lparr>Status := StatusPending, RetryCount := RetryCount item + 1,
                 ScheduleAt := pg_ts pg (now + reminder_retryDelay opts (RetryCount item + 1)),
                 LastError := notify_message x, UpdatedAt := pg_ts pg tnow\<rparr>"
      obtain e d1 where e: "mutation pg ?p ?f d = (e, d1)" by (rule prod.exhaust)
      with m Some False i0 suc at show ?thesis
        by (intro exI [of _ e] exI [of _ ?f])
           (auto simp: dispatch_mark_def MarkRetry_def spec_mark_def Let_def split: option.splits)
    qed
  qed
qed

text \<open>
  C11: on a database that is up, \<open>dispatch\<close> of a claimed reminder calls the notifier and
  records its outcome in the reminder's row alone: sent on success; on an error the retry
  count goes up by one and the reminder is pending again after the back-off delay of that
  count, or failed once the count reaches \<open>MaxRetry\<close>.
\<close>

theorem dispatch_outcome:
  assumes laws: "pg_laws pg" and up: "pg_up pg up" "up d" and ok: "table_ok (pg_rows pg d)"
    and r: "r \<in> set (pg_rows pg d)" "ID r = ID item" "Status r = StatusProcessing"
    and same: "RetryCount item = RetryCount r" "MaxRetry item = MaxRetry r"
    and opts: "reminder_options_ok opts" and now: "0 < now"
    and n: "notify item w = (outcome, w')"
    and disp: "dispatch opts (Some pg) notify item now tnow (w, d) = ((err, label), (w'', d'))"
  shows "err = None \<and> w'' = w'
    \<and> pg_rows pg d' = map (\<lambda>x. if x = r then spec_mark (pg_ts pg) opts outcome now tnow r else x) (pg_rows pg d)"
proof -
  have dist: "distinct (map ID (pg_rows pg d))" and rok: "row_ok r" using ok r(1) by (auto simp: table_ok_def)
  have only: "x = r \<longleftrightarrow> ID x = ID item \<and> Status x = StatusProcessing" if "x \<in> set (pg_rows pg d)" for x
  proof
    assume "ID x = ID item \<and> Status x = StatusProcessing"
    then have "ID x = ID r" using r(2) by simp
    then show "x = r" by (rule distinct_ID_inj [OF dist that r(1)])
  qed (use r(2,3) in simp)
  have it: "item_ok (pg_rows pg d) item"
    unfolding item_ok_def
  proof (intro conjI ballI impI)
    fix x assume "x \<in> set (pg_rows pg d)" "ID x = ID item"
    then have "x = r" using distinct_ID_inj [OF dist _ r(1)] r(2) by simp
    then show "MaxRetry x = MaxRetry item" using same(2) by simp
  qed (use rok same r in \<open>simp_all add: row_ok_def\<close>)
  have m: "dispatch_mark opts (Some pg) outcome item now tnow d = ((err, label), d')" "w'' = w'"
    using disp n by (auto simp: dispatch_def split: prod.splits)
  obtain e f where
      mu: "mutation pg (\<lambda>r. ID r = ID item \<and> Status r = StatusProcessing) f d = (e, d')"
      and e: "err = None \<longleftrightarrow> e = None"
      and f': "\<forall>r. RetryCount r = RetryCount item \<and> MaxRetry r = MaxRetry item \<longrightarrow>
          f r = spec_mark (pg_ts pg) opts outcome now tnow r"
    using dispatch_mark_mutation [OF it now opts m(1)] by blast
  have f: "f r = spec_mark (pg_ts pg) opts outcome now tnow r" using f' same by simp
  note res = mutation_up [OF laws up mu]
  have "e = None" using res(3) r by auto
  moreover have "pg_rows pg d' = map (\<lambda>x. if x = r then spec_mark (pg_ts pg) opts outcome now tnow r else x) (pg_rows pg d)"
    unfolding res(1) update_rows_def using only f by (intro map_cong refl) auto
  ultimately show ?thesis using e m(2) by simp
qed

definition demo_busy :: reminder where
  "demo_busy = demo_row 4 ''d'' StatusProcessing"

definition demo_work :: memdb where
  "demo_work = demo_db\<lparr>md_rows := md_rows demo_db @ [demo_busy]\<rparr>"

lemma demo_work_ok: "table_ok (pg_rows mem_pg demo_work)" "mem_up demo_work"
    "demo_busy \<in> set (pg_rows mem_pg demo_work)" "Status demo_busy = StatusProcessing"
  by (simp_all add: demo_work_def demo_busy_def demo_db_def demo_row_def table_ok_def row_ok_def
      in_int64_def min_int64_def max_int64_def mem_up_def)

definition demo_notifier :: "nat notify" where
  "demo_notifier it w = (Some (Errs ''down''), Suc w)"

lemma dispatch_outcome_witness:
  "case dispatch reminder_defaultOptions (Some mem_pg) demo_notifier demo_busy (20 * second) (20 * second) (0, demo_work) of
     ((err, label), (w, d')) \<Rightarrow> err = None \<and> w = 1
       \<and> md_rows d' = md_rows demo_db @ [demo_busy\<lparr>Status := StatusPending, RetryCount := 1,
            ScheduleAt := 80 * second, LastError := ''down'', UpdatedAt := 20 * second\<rparr>]"
proof -
  obtain err label w d' where
      disp: "dispatch reminder_defaultOptions (Some mem_pg) demo_notifier demo_busy (20 * second) (20 * second) (0, demo_work)
        = ((err, label), (w, d'))"
    by (metis prod.exhaust)
  have n: "demo_notifier demo_busy 0 = (Some (Errs ''down''), 1)" by (simp add: demo_notifier_def)
  note res = dispatch_outcome [OF mem_pg_laws mem_pg_up demo_work_ok(2,1,3) refl demo_work_ok(4) refl refl
      reminder_default_ok _ n disp]
  have "spec_mark (pg_ts mem_pg) reminder_defaultOptions (Some (Errs ''down'')) (20 * second) (20 * second) demo_busy
      = demo_busy\<lparr>Status := StatusPending, RetryCount := 1,
            ScheduleAt := 80 * second, LastError := ''down'', UpdatedAt := 20 * second\<rparr>"
    by code_simp
  moreover have "map (\<lambda>x. if x = demo_busy then f else x) (md_rows demo_work) = md_rows demo_db @ [f]" for f
    by (simp add: demo_work_def demo_busy_def demo_db_def demo_row_def)
  ultimately show ?thesis using res disp by (simp add: second_def)
qed

text \<open>
  When the claim was lost (the row was recovered and then canceled, rescheduled or
  claimed and finished by another worker), recording the outcome changes nothing and
  \<open>dispatch\<close> returns an error.
\<close>

theorem dispatch_lost_claim:
  assumes laws: "pg_laws pg" and it: "item_ok (pg_rows pg d) item"
    and lost: "\<forall>r\<in>set (pg_rows pg d). ID r = ID item \<longrightarrow> Status r \<noteq> StatusProcessing"
    and opts: "reminder_options_ok opts" and now: "0 < now"
    and disp: "dispatch opts (Some pg) notify item now tnow (w, d) = ((err, label), (w', d'))"
  shows "err \<noteq> None \<and> pg_rows pg d' = pg_rows pg d"
proof -
  have "dispatch_mark opts (Some pg) (fst (notify item w)) item now tnow d = ((err, label), d')"
    using disp by (auto simp: dispatch_def split: prod.splits)
  then obtain e f where mu: "mutation pg (\<lambda>r. ID r = ID item \<and> Status r = StatusProcessing) f d = (e, d')"
      and e: "err = None \<longleftrightarrow> e = None"
    using dispatch_mark_mutation [OF it now opts] by blast
  have "e \<noteq> None"
  proof
    assume "e = None"
    with mutation_ok(2) [OF laws, of _ f d d'] mu lost show False by blast
  qed
  moreover have "pg_rows pg d' = pg_rows pg d"
    using mutation_rows [OF laws mu] lost update_rows_none [of "pg_rows pg d" _ f] by auto
  ultimately show ?thesis using e by simp
qed

lemma dispatch_lost_claim_witness:
  "case dispatch reminder_defaultOptions (Some mem_pg) demo_notifier demo_busy (20 * second) 0 (0, demo_db) of
     ((err, _), (_, d')) \<Rightarrow> err \<noteq> None \<and> md_rows d' = md_rows demo_db"
proof -
  obtain err label w d' where
      disp: "dispatch reminder_defaultOptions (Some mem_pg) demo_notifier demo_busy (20 * second) 0 (0, demo_db)
        = ((err, label), (w, d'))"
    by (metis prod.exhaust)
  have "item_ok (pg_rows mem_pg demo_db) demo_busy"
    "\<forall>r\<in>set (pg_rows mem_pg demo_db). ID r = ID demo_busy \<longrightarrow> Status r \<noteq> StatusProcessing"
    by (simp_all add: demo_busy_def demo_db_def demo_row_def item_ok_def in_int64_def min_int64_def max_int64_def)
  from dispatch_lost_claim [OF mem_pg_laws this reminder_default_ok _ disp] disp show ?thesis
    by (simp add: second_def)
qed

lemma dispatch_world: "fst (snd (dispatch opts st notify it t t' (w, d))) = snd (notify it w)"
  by (auto simp: dispatch_def split: prod.splits)

lemma dispatch_all_world:
  "fst (snd (dispatch_all opts st notify clock k items (w, d) e)) = fold (\<lambda>it w. snd (notify it w)) items w"
proof (induction items arbitrary: k w d e)
  case (Cons it items)
  obtain err label w1 d1 where disp: "dispatch opts st notify it (clock k) (clock (k + 1)) (w, d) = ((err, label), (w1, d1))"
    by (metis prod.exhaust)
  with dispatch_world [of opts st notify it "clock k" "clock (k + 1)" w d] have "w1 = snd (notify it w)" by simp
  with disp Cons.IH show ?case by simp
qed simp

text \<open>
  A batch calls the notifier exactly once for every claimed reminder, in the order of the
  claim, also when an earlier one of the batch could not be delivered or recorded; when the
  claim fails it calls nobody.
\<close>

theorem processBatch_notifies_all:
  "fst (snd (processBatch opts st notify clock (w, d))) =
     (case fst (ClaimDue st (clock 0) (ro_batchSize opts) d) of
        Inr items \<Rightarrow> fold (\<lambda>it w. snd (notify it w)) items w
      | Inl _ \<Rightarrow> w)"
  by (auto simp: processBatch_def dispatch_all_world split: prod.splits sum.splits list.splits
      simp del: dispatch_all.simps)

text \<open>
  With whatever options a service is built, its timers, batches and time-outs are
  positive, and the delay before every retry is positive and one of the configured ones.
\<close>

theorem reminder_service_options_positive:
  "let opts = rs_opts (reminder_NewService getLogger db notifier options) in
     reminder_options_ok opts \<and> 0 < reminder_retryDelay opts n
     \<and> reminder_retryDelay opts (int (Suc k)) \<in> set (ro_retryDelays opts)"
proof -
  let ?o = "rs_opts (reminder_NewService getLogger db notifier options)"
  have ok: "reminder_options_ok ?o" by (rule reminder_NewService_ok)
  then have "reminder_retryDelay ?o (int (Suc k)) \<in> set (ro_retryDelays ?o)"
    by (intro reminder_backoff.delay_mem) (simp_all add: reminder_options_ok_def)
  with ok reminder_retryDelay_pos show ?thesis by (simp add: Let_def)
qed

text \<open>A row is on a page when fewer matching rows come before it than the page holds.\<close>

lemma in_page:
  assumes d: "distinct (map ID rows)" and x: "x \<in> set rows" "p x"
    and n: "length (filter (\<lambda>y. p y \<and> due_key y < due_key x) rows) < n"
  shows "x \<in> set (page p n rows)"
proof -
  define ys where "ys = sort_key due_key (filter p rows)"
  have dist: "distinct (map ID ys)"
    using distinct_map_filter [OF d, of p] by (simp add: ys_def distinct_map)
  have "x \<in> set ys" using x by (simp add: ys_def)
  then obtain i where i: "i < length ys" "ys ! i = x" by (auto simp: in_set_conv_nth)
  have before: "due_key y < due_key x" if y: "y \<in> set (take i ys)" for y
  proof -
    from y obtain j where j: "j < i" "y = ys ! j" by (auto simp: in_set_conv_nth)
    have "due_key (ys ! j) \<le> due_key (ys ! i)"
      using sorted_nth_mono [of "map due_key ys" j i] j(1) i(1) by (simp add: ys_def)
    moreover have "ID (ys ! j) \<noteq> ID (ys ! i)"
      using nth_eq_iff_index_eq [OF dist, of j i] j(1) i(1) by simp
    ultimately show ?thesis using i(2) j(2) by (auto simp: due_key_def)
  qed
  let ?P = "\<lambda>y. due_key y < due_key x"
  have "i = length (filter ?P (take i ys))" using before i(1) by (simp add: filter_id_conv [THEN iffD2])
  also have "\<dots> \<le> length (filter ?P (take i ys @ drop i ys))" unfolding filter_append by simp
  also have "\<dots> = size (filter_mset ?P (mset ys))" by (simp flip: mset_filter)
  also have "\<dots> = length (filter (\<lambda>y. p y \<and> ?P y) rows)"
    by (simp add: ys_def conj_commute flip: mset_filter)
  finally have "i < n" using n by simp
  with i have "x \<in> set (take n ys)" by (auto simp: in_set_conv_nth)
  then show ?thesis by (simp add: page_def ys_def)
qed

text \<open>
  C12: a reminder whose worker died is not lost.  Recovering puts every row that has been
  processing since before the time-out back to pending and changes no other, and a claim
  then returns it, once fewer due rows than the claim takes come before it in the order of
  schedule and id.
\<close>

theorem stale_reminder_reclaimed:
  assumes laws: "pg_laws pg" and up: "pg_up pg up" "up d" and ok: "table_ok (pg_rows pg d)"
    and r: "r \<in> set (pg_rows pg d)" "Status r = StatusProcessing"
    and stale: "UpdatedAt r \<le> pg_ts pg (now - ro_processingTTL opts)" "now \<noteq> ro_processingTTL opts"
    and rec: "recoverStaleProcessing opts (Some pg) now tnow d = (e, d1)"
    and due: "ScheduleAt r \<le> pg_ts pg cnow" "ID r \<notin> pg_locked pg d1"
      "length (filter (\<lambda>x. due pg cnow x \<and> ID x \<notin> pg_locked pg d1 \<and> (ScheduleAt x, ID x) < (ScheduleAt r, ID r))
         (pg_rows pg d1)) < nat limit"
    and cl: "ClaimDue (Some pg) cnow limit d1 = (Inr items, d2)"
  shows "e = None
    \<and> pg_rows pg d1 = map (\<lambda>x. if Status x = StatusProcessing \<and> UpdatedAt x \<le> pg_ts pg (now - ro_processingTTL opts)
         then x\<lparr>Status := StatusPending, UpdatedAt := pg_ts pg tnow\<rparr> else x) (pg_rows pg d)
    \<and> r\<lparr>Status := StatusProcessing, UpdatedAt := cnow\<rparr> \<in> set items"
proof -
  let ?p = "\<lambda>x. Status x = StatusProcessing \<and> UpdatedAt x \<le> pg_ts pg (now - ro_processingTTL opts)"
    and ?f = "\<lambda>x. x\<lparr>Status := StatusPending, UpdatedAt := pg_ts pg tnow\<rparr>"
  obtain n d' where u: "pg_update pg ?p ?f d = (Inr (Inr n), d')"
    using up unfolding pg_up_def by blast
  with rec stale(2) have e: "e = None" "d' = d1"
    by (auto simp: recoverStaleProcessing_def RequeueStaleProcessing_def split: if_splits)
  with pg_update_ok [OF laws u] have rows: "pg_rows pg d1 = update_rows ?p ?f (pg_rows pg d)" by simp
  have tok: "table_ok (pg_rows pg d1)"
    using recover_change [OF laws rec] ok by (simp add: good_change_def)
  then have res: "items = map (\<lambda>r. r\<lparr>Status := StatusProcessing, UpdatedAt := cnow\<rparr>) (claimed pg cnow limit d1)"
    using ClaimDue_result [OF laws _ cl] by (simp add: table_ok_def)
  have "?f r \<in> set (pg_rows pg d1)" using r stale(1) unfolding rows set_update_rows by force
  then have "?f r \<in> set (claimed pg cnow limit d1)"
    unfolding claimed_def using due tok
    by (intro in_page) (simp_all add: table_ok_def due_def due_key_def conj_assoc)
  then have "(?f r)\<lparr>Status := StatusProcessing, UpdatedAt := cnow\<rparr> \<in> set items"
    unfolding res set_map by (rule imageI)
  with e(1) rows show ?thesis by (simp add: update_rows_def)
qed

lemma stale_reminder_reclaimed_witness:
  "case recoverStaleProcessing reminder_defaultOptions (Some mem_pg) (300 * second) (300 * second) demo_work of
     (e, d1) \<Rightarrow> e = None \<and>
       (case ClaimDue (Some mem_pg) (301 * second) 9 d1 of
          (Inr items, _) \<Rightarrow> demo_busy\<lparr>Status := StatusProcessing, UpdatedAt := 301 * second\<rparr> \<in> set items
        | _ \<Rightarrow> False)"
proof -
  obtain e d1 where r: "recoverStaleProcessing reminder_defaultOptions (Some mem_pg) (300 * second) (300 * second)
      demo_work = (e, d1)" by (rule prod.exhaust)
  obtain res d2 where c: "ClaimDue (Some mem_pg) (301 * second) 9 d1 = (res, d2)" by (rule prod.exhaust)
  have "case recoverStaleProcessing reminder_defaultOptions (Some mem_pg) (300 * second) (300 * second) demo_work of
     (_, d1) \<Rightarrow> (case ClaimDue (Some mem_pg) (301 * second) 9 d1 of (Inr _, _) \<Rightarrow> True | _ \<Rightarrow> False)
       \<and> md_locked d1 = [] \<and> length (md_rows d1) = 4"
    by code_simp
  with r c obtain items where res: "res = Inr items" and d1: "md_locked d1 = []" "length (md_rows d1) = 4"
    by (auto split: sum.splits)
  have "Status demo_busy = StatusProcessing"
      "UpdatedAt demo_busy \<le> pg_ts mem_pg (300 * second - ro_processingTTL reminder_defaultOptions)"
      "300 * second \<noteq> ro_processingTTL reminder_defaultOptions"
      "ScheduleAt demo_busy \<le> pg_ts mem_pg (301 * second)" "ID demo_busy \<notin> pg_locked mem_pg d1"
      "length (filter (\<lambda>x. due mem_pg (301 * second) x \<and> ID x \<notin> pg_locked mem_pg d1
         \<and> (ScheduleAt x, ID x) < (ScheduleAt demo_busy, ID demo_busy)) (pg_rows mem_pg d1)) < nat 9"
    using d1 length_filter_le [of "\<lambda>x. due mem_pg (301 * second) x \<and> ID x \<notin> pg_locked mem_pg d1
         \<and> (ScheduleAt x, ID x) < (ScheduleAt demo_busy, ID demo_busy)" "md_rows d1"]
    by (simp_all add: demo_busy_def demo_row_def mem_pg_def reminder_defaultOptions_def minute_def second_def)
  from stale_reminder_reclaimed [OF mem_pg_laws mem_pg_up demo_work_ok(2,1,3) this(1-3) r this(4-6) c [unfolded res]]
  show ?thesis using r c res by simp
qed

end
