(* ===== verification/PubsubRedis.thy ===== *)
theory PubsubRedis
  imports GoStrings "HOL-Library.AList" "HOL-Library.Multiset"
begin

text \<open>
  The Redis server the pub/sub package works on.  It is not part of the repository: it is
  a parameter \<open>rd\<close>, a record of the commands the code sends, over an abstract server state
  \<open>'r\<close>, and \<open>redis_laws\<close> states what the commands do.  A command that fails leaves the
  server as it was.  The link between client and server can fail as well, before the server
  has run a request or after.  Lua scripts run on the server, without interruption, as a
  sequence of commands that stops at the first one that fails and keeps what was done.
\<close>

subsection \<open>Commands\<close>

type_synonym fields = "string \<rightharpoonup> string"

record entry =
  e_ID :: string
  e_Values :: fields

text \<open>
  The first four are not commands: the entries of a stream, the ids delivered to a group
  and not acknowledged yet, how often the group got such an id, and the members of a sorted set
  with their scores.
\<close>

record 'r redis =
  rd_entries :: "'r \<Rightarrow> string \<Rightarrow> entry list"
  rd_pending :: "'r \<Rightarrow> string \<Rightarrow> string \<Rightarrow> string set"
  rd_count :: "'r \<Rightarrow> string \<Rightarrow> string \<Rightarrow> string \<Rightarrow> int"
  rd_zset :: "'r \<Rightarrow> string \<Rightarrow> string \<rightharpoonup> int"
  rd_xadd :: "string \<Rightarrow> fields \<Rightarrow> (int \<times> bool) option \<Rightarrow> ('r, error, string) op"
  rd_xack :: "string \<Rightarrow> string \<Rightarrow> string list \<Rightarrow> ('r, error, int) op"
  rd_zadd :: "string \<Rightarrow> int \<Rightarrow> string \<Rightarrow> ('r, error, int) op"
  rd_zrem :: "string \<Rightarrow> string \<Rightarrow> ('r, error, int) op"
  rd_zrangebyscore :: "string \<Rightarrow> int \<Rightarrow> int \<Rightarrow> ('r, error, string list) op"
  rd_xgroup_create :: "string \<Rightarrow> string \<Rightarrow> string \<Rightarrow> ('r, error, unit) op"
  rd_xreadgroup :: "string \<Rightarrow> string \<Rightarrow> string \<Rightarrow> int \<Rightarrow> duration \<Rightarrow> ('r, error, entry list) op"
  rd_xautoclaim :: "string \<Rightarrow> string \<Rightarrow> string \<Rightarrow> duration \<Rightarrow> string \<Rightarrow> int \<Rightarrow> ('r, error, entry list \<times> string) op"
  rd_xpending :: "string \<Rightarrow> string \<Rightarrow> string \<Rightarrow> ('r, error, int option) op"

definition RedisNil :: error where "RedisNil = Errs ''redis: nil''"

text \<open>Two server states that differ in nothing the laws speak of.\<close>

definition same_data :: "'r redis \<Rightarrow> 'r \<Rightarrow> 'r \<Rightarrow> bool" where
  "same_data rd d d' \<longleftrightarrow>
     rd_entries rd d' = rd_entries rd d \<and> rd_pending rd d' = rd_pending rd d \<and> rd_zset rd d' = rd_zset rd d
     \<and> rd_count rd d' = rd_count rd d"

lemma same_data_refl [simp]: "same_data rd d d"
  by (simp add: same_data_def)

lemma same_data_trans: "same_data rd d d1 \<Longrightarrow> same_data rd d1 d2 \<Longrightarrow> same_data rd d d2"
  by (simp add: same_data_def)

definition keeps_on_error :: "'r redis \<Rightarrow> ('r, error, 'a) op \<Rightarrow> bool" where
  "keeps_on_error rd cmd \<longleftrightarrow> (\<forall>d e d'. cmd d = (Inl e, d') \<longrightarrow> same_data rd d d')"

definition reads_only :: "'r redis \<Rightarrow> ('r, error, 'a) op \<Rightarrow> bool" where
  "reads_only rd cmd \<longleftrightarrow> (\<forall>d res d'. cmd d = (res, d') \<longrightarrow> same_data rd d d')"

subsection \<open>Laws\<close>

text \<open>
  XADD appends an entry under a fresh id; with MAXLEN it may drop entries from the old end,
  never the new one, and keeps as many entries as MAXLEN says.
\<close>

definition xadd_law :: "'r redis \<Rightarrow> bool" where
  "xadd_law rd \<longleftrightarrow>
     (\<forall>s f m. keeps_on_error rd (rd_xadd rd s f m))
   \<and> (\<forall>s f m d i d'. rd_xadd rd s f m d = (Inr i, d') \<longrightarrow>
        i \<noteq> [] \<and> i \<notin> e_ID ` set (rd_entries rd d s) \<and> (\<forall>g. i \<notin> rd_pending rd d s g)
        \<and> (\<exists>k\<le>length (rd_entries rd d s). (m = None \<longrightarrow> k = 0)
             \<and> (\<forall>n a. m = Some (n, a) \<longrightarrow> k = 0 \<or> n \<le> int (length (rd_entries rd d s) - k) + 1)
             \<and> rd_entries rd d' = (rd_entries rd d)(s := drop k (rd_entries rd d s) @ [\<lparr>e_ID = i, e_Values = f\<rparr>]))
        \<and> rd_pending rd d' = rd_pending rd d \<and> rd_zset rd d' = rd_zset rd d)"

definition xack_law :: "'r redis \<Rightarrow> bool" where
  "xack_law rd \<longleftrightarrow>
     (\<forall>s g ids. keeps_on_error rd (rd_xack rd s g ids))
   \<and> (\<forall>s g ids d n d'. rd_xack rd s g ids d = (Inr n, d') \<longrightarrow>
        rd_entries rd d' = rd_entries rd d \<and> rd_zset rd d' = rd_zset rd d
        \<and> rd_pending rd d' = (rd_pending rd d)(s := (rd_pending rd d s)(g := rd_pending rd d s g - set ids)))"

text \<open>ZADD sets the score of a member, whether or not it is in the set already.\<close>

definition zset_law :: "'r redis \<Rightarrow> bool" where
  "zset_law rd \<longleftrightarrow>
     (\<forall>k sc m. keeps_on_error rd (rd_zadd rd k sc m)) \<and> (\<forall>k m. keeps_on_error rd (rd_zrem rd k m))
   \<and> (\<forall>k sc m d n d'. rd_zadd rd k sc m d = (Inr n, d') \<longrightarrow>
        rd_entries rd d' = rd_entries rd d \<and> rd_pending rd d' = rd_pending rd d
        \<and> rd_zset rd d' = (rd_zset rd d)(k := (rd_zset rd d k)(m \<mapsto> sc)))
   \<and> (\<forall>k m d n d'. rd_zrem rd k m d = (Inr n, d') \<longrightarrow>
        rd_entries rd d' = rd_entries rd d \<and> rd_pending rd d' = rd_pending rd d
        \<and> rd_zset rd d' = (rd_zset rd d)(k := (rd_zset rd d k)(m := None)))"

text \<open>
  ZRANGEBYSCORE key -inf max LIMIT 0 n: the first \<open>n\<close> of the members with a score up to
  \<open>max\<close>, all of them if there are fewer.
\<close>

definition zrange_law :: "'r redis \<Rightarrow> bool" where
  "zrange_law rd \<longleftrightarrow>
     (\<forall>k mx n. reads_only rd (rd_zrangebyscore rd k mx n))
   \<and> (\<forall>k mx n d ms d'. rd_zrangebyscore rd k mx n d = (Inr ms, d') \<longrightarrow>
        distinct ms \<and> length ms \<le> nat n
        \<and> (\<forall>m\<in>set ms. \<exists>sc\<le>mx. rd_zset rd d k m = Some sc)
        \<and> (\<forall>m sc. rd_zset rd d k m = Some sc \<longrightarrow> sc \<le> mx \<longrightarrow> m \<notin> set ms \<longrightarrow>
             length ms = nat n \<and> (\<forall>m'\<in>set ms. the (rd_zset rd d k m') \<le> sc)))"

text \<open>
  XREADGROUP with \<open>>\<close> hands out entries of the stream that the group has not had yet, makes them
  pending and counts one delivery of each.  XAUTOCLAIM hands out entries of the stream that are
  pending and counts one more delivery of each; ids it finds pending that are no longer in the
  stream leave the pending ones (Redis 7 and later).  XPENDING answers with the count of a pending id.
\<close>

definition xreadgroup_law :: "'r redis \<Rightarrow> bool" where
  "xreadgroup_law rd \<longleftrightarrow>
     (\<forall>s g c n b. keeps_on_error rd (rd_xreadgroup rd s g c n b))
   \<and> (\<forall>s g c n b d es d'. rd_xreadgroup rd s g c n b d = (Inr es, d') \<longrightarrow>
        set es \<subseteq> set (rd_entries rd d s) \<and> distinct (map e_ID es)
        \<and> (\<forall>e\<in>set es. e_ID e \<notin> rd_pending rd d s g \<and> rd_count rd d' s g (e_ID e) = 1)
        \<and> rd_entries rd d' = rd_entries rd d \<and> rd_zset rd d' = rd_zset rd d
        \<and> rd_pending rd d' = (rd_pending rd d)(s := (rd_pending rd d s)(g := rd_pending rd d s g \<union> e_ID ` set es)))
   \<and> (\<forall>s g st. reads_only rd (rd_xgroup_create rd s g st))"

text \<open>The pending ids \<open>gone\<close> of a group were dropped, as their entries are not in the stream.\<close>

definition dropped_pending :: "'r redis \<Rightarrow> string \<Rightarrow> string \<Rightarrow> string set \<Rightarrow> 'r \<Rightarrow> 'r \<Rightarrow> bool" where
  "dropped_pending rd s g gone d d' \<longleftrightarrow>
     rd_entries rd d' = rd_entries rd d \<and> rd_zset rd d' = rd_zset rd d
     \<and> gone \<subseteq> rd_pending rd d s g \<and> gone \<inter> e_ID ` set (rd_entries rd d s) = {}
     \<and> rd_pending rd d' = (rd_pending rd d)(s := (rd_pending rd d s)(g := rd_pending rd d s g - gone))"

definition xautoclaim_law :: "'r redis \<Rightarrow> bool" where
  "xautoclaim_law rd \<longleftrightarrow>
     (\<forall>d s g i. 0 \<le> rd_count rd d s g i)
   \<and> (\<forall>s g c t st n. keeps_on_error rd (rd_xautoclaim rd s g c t st n))
   \<and> (\<forall>s g c t st n d es nx d'. rd_xautoclaim rd s g c t st n d = (Inr (es, nx), d') \<longrightarrow>
        (\<forall>e\<in>set es. e \<in> set (rd_entries rd d s) \<and> e_ID e \<in> rd_pending rd d s g
           \<and> rd_count rd d' s g (e_ID e) = rd_count rd d s g (e_ID e) + 1)
        \<and> (\<exists>gone. dropped_pending rd s g gone d d'))
   \<and> (\<forall>s g i. reads_only rd (rd_xpending rd s g i))
   \<and> (\<forall>s g i d n d'. rd_xpending rd s g i d = (Inr n, d') \<longrightarrow>
        n = (if i \<in> rd_pending rd d s g then Some (rd_count rd d s g i) else None)
        \<and> (i \<in> rd_pending rd d s g \<longrightarrow> in_int64 (rd_count rd d s g i)))"

definition redis_laws :: "'r redis \<Rightarrow> bool" where
  "redis_laws rd \<longleftrightarrow> xadd_law rd \<and> xack_law rd \<and> zset_law rd \<and> zrange_law rd \<and> xreadgroup_law rd
     \<and> xautoclaim_law rd"

lemma rd_xadd_ok:
  assumes "redis_laws rd" "rd_xadd rd s f m d = (Inr i, d')"
  obtains k where "i \<noteq> []" "i \<notin> e_ID ` set (rd_entries rd d s)" "i \<notin> rd_pending rd d s g"
    "k \<le> length (rd_entries rd d s)" "m = None \<longrightarrow> k = 0"
    "\<forall>n a. m = Some (n, a) \<longrightarrow> k = 0 \<or> n \<le> int (length (rd_entries rd d s) - k) + 1"
    "rd_entries rd d' = (rd_entries rd d)(s := drop k (rd_entries rd d s) @ [\<lparr>e_ID = i, e_Values = f\<rparr>])"
    "rd_pending rd d' = rd_pending rd d" "rd_zset rd d' = rd_zset rd d"
proof -
  have "xadd_law rd" using assms(1) by (simp add: redis_laws_def)
  note law = this [unfolded xadd_law_def, THEN conjunct2, rule_format, OF assms(2)]
  then obtain k where "k \<le> length (rd_entries rd d s)" "m = None \<longrightarrow> k = 0"
    "\<forall>n a. m = Some (n, a) \<longrightarrow> k = 0 \<or> n \<le> int (length (rd_entries rd d s) - k) + 1"
    "rd_entries rd d' = (rd_entries rd d)(s := drop k (rd_entries rd d s) @ [\<lparr>e_ID = i, e_Values = f\<rparr>])"
    by blast
  with law show ?thesis by (intro that [of k]) simp_all
qed

lemma rd_xack_ok:
  assumes "redis_laws rd" "rd_xack rd s g ids d = (Inr n, d')"
  shows "rd_entries rd d' = rd_entries rd d" "rd_zset rd d' = rd_zset rd d"
    "rd_pending rd d' = (rd_pending rd d)(s := (rd_pending rd d s)(g := rd_pending rd d s g - set ids))"
proof -
  have "xack_law rd" using assms(1) by (simp add: redis_laws_def)
  with assms(2) show "rd_entries rd d' = rd_entries rd d" "rd_zset rd d' = rd_zset rd d"
    "rd_pending rd d' = (rd_pending rd d)(s := (rd_pending rd d s)(g := rd_pending rd d s g - set ids))"
    unfolding xack_law_def by blast+
qed

lemma rd_zadd_ok:
  assumes "redis_laws rd" "rd_zadd rd k sc m d = (Inr n, d')"
  shows "rd_entries rd d' = rd_entries rd d" "rd_pending rd d' = rd_pending rd d"
    "rd_zset rd d' = (rd_zset rd d)(k := (rd_zset rd d k)(m \<mapsto> sc))"
proof -
  have "zset_law rd" using assms(1) by (simp add: redis_laws_def)
  with assms(2) show "rd_entries rd d' = rd_entries rd d" "rd_pending rd d' = rd_pending rd d"
    "rd_zset rd d' = (rd_zset rd d)(k := (rd_zset rd d k)(m \<mapsto> sc))"
    unfolding zset_law_def by blast+
qed

lemma rd_zrem_ok:
  assumes "redis_laws rd" "rd_zrem rd k m d = (Inr n, d')"
  shows "rd_entries rd d' = rd_entries rd d" "rd_pending rd d' = rd_pending rd d"
    "rd_zset rd d' = (rd_zset rd d)(k := (rd_zset rd d k)(m := None))"
proof -
  have "zset_law rd" using assms(1) by (simp add: redis_laws_def)
  with assms(2) show "rd_entries rd d' = rd_entries rd d" "rd_pending rd d' = rd_pending rd d"
    "rd_zset rd d' = (rd_zset rd d)(k := (rd_zset rd d k)(m := None))"
    unfolding zset_law_def by blast+
qed

lemma rd_errors:
  assumes "redis_laws rd"
  shows "rd_xadd rd s f m d = (Inl e, d') \<Longrightarrow> same_data rd d d'"
    and "rd_xack rd s g ids d = (Inl e, d') \<Longrightarrow> same_data rd d d'"
    and "rd_zadd rd k sc z d = (Inl e, d') \<Longrightarrow> same_data rd d d'"
    and "rd_zrem rd k z d = (Inl e, d') \<Longrightarrow> same_data rd d d'"
    and "rd_zrangebyscore rd k mx n d = (res, d') \<Longrightarrow> same_data rd d d'"
  using assms
  by (auto simp: redis_laws_def xadd_law_def xack_law_def zset_law_def zrange_law_def
      keeps_on_error_def reads_only_def)

subsection \<open>The link and scripts\<close>

text \<open>
  A request fails before the server has seen it, or its answer is lost after the server has
  run it; which of it happens to the requests to come is part of the state.
\<close>

datatype link = LinkOk | LostBefore error | LostAfter error

record 'r conn =
  cn_srv :: 'r
  cn_links :: "link list"

definition rpc :: "('r, error, 'a) op \<Rightarrow> ('r conn, error, 'a) op" where
  "rpc cmd c =
     (case cn_links c of
        LostBefore e # ls \<Rightarrow> (Inl e, c\<lparr>cn_links := ls\<rparr>)
      | LostAfter e # ls \<Rightarrow> (Inl e, c\<lparr>cn_srv := snd (cmd (cn_srv c)), cn_links := ls\<rparr>)
      | ls \<Rightarrow> (case cmd (cn_srv c) of (res, d') \<Rightarrow> (res, c\<lparr>cn_srv := d', cn_links := tl ls\<rparr>)))"

definition op_then :: "('s, error, 'a) op \<Rightarrow> ('a \<Rightarrow> ('s, error, 'b) op) \<Rightarrow> ('s, error, 'b) op" where
  "op_then m k d = (case m d of (Inl e, d') \<Rightarrow> (Inl e, d') | (Inr a, d') \<Rightarrow> k a d')"

definition op_return :: "'a \<Rightarrow> ('s, error, 'a) op" where
  "op_return a d = (Inr a, d)"

definition op_raise :: "error \<Rightarrow> ('s, error, 'a) op" where
  "op_raise e d = (Inl e, d)"

lemmas op_defs = op_then_def op_return_def op_raise_def

text \<open>What a caller can conclude from the outcome of a request.\<close>

lemma rpc_cases:
  assumes "rpc cmd c = (res, c')"
  obtains (ran) "cmd (cn_srv c) = (res, cn_srv c')"
    | (lost) e where "res = Inl e" "cn_srv c' = cn_srv c"
    | (unheard) e where "res = Inl e" "cn_srv c' = snd (cmd (cn_srv c))"
  using assms by (auto simp: rpc_def split: list.splits link.splits prod.splits)

lemma rpc_ok: "rpc cmd c = (Inr a, c') \<Longrightarrow> cmd (cn_srv c) = (Inr a, cn_srv c')"
  by (auto simp: rpc_def split: list.splits link.splits prod.splits)

lemma rpc_srv: "rpc cmd c = (res, c') \<Longrightarrow> cn_srv c' = cn_srv c \<or> cn_srv c' = snd (cmd (cn_srv c))"
  by (auto simp: rpc_def split: list.splits link.splits prod.splits)

subsection \<open>A server in memory\<close>

record memredis =
  mr_streams :: "string \<Rightarrow> entry list"
  mr_pending :: "(string \<times> string \<times> string) list"
  mr_seen :: "(string \<times> string \<times> string) list"
  mr_counts :: "string \<times> string \<times> string \<Rightarrow> nat"
  mr_zsets :: "string \<Rightarrow> (string \<times> int) list"

definition mr_fresh :: "memredis \<Rightarrow> string \<Rightarrow> string" where
  "mr_fresh d s = replicate (Suc (fold (\<lambda>i n. max (length i) n)
     (map e_ID (mr_streams d s) @ map (\<lambda>x. snd (snd x)) (mr_pending d)) 0)) CHR ''1''"

fun remdups_id :: "entry list \<Rightarrow> entry list" where
  "remdups_id [] = []"
| "remdups_id (e # es) = e # filter (\<lambda>x. e_ID x \<noteq> e_ID e) (remdups_id es)"

definition mr_range :: "(string \<times> int) list \<Rightarrow> int \<Rightarrow> int \<Rightarrow> string list" where
  "mr_range zs mx n =
     take (nat n) (map fst (filter (\<lambda>x. snd x \<le> mx) (sort_key snd (AList.clearjunk zs))))"

definition mem_redis :: "memredis redis" where
  "mem_redis =
     \<lparr>rd_entries = mr_streams,
      rd_pending = (\<lambda>d s g. {i. (s, g, i) \<in> set (mr_pending d)}),
      rd_count = (\<lambda>d s g i. int (mr_counts d (s, g, i))),
      rd_zset = (\<lambda>d k. map_of (mr_zsets d k)),
      rd_xadd = (\<lambda>s f m d.
        let i = mr_fresh d s;
            old = (case m of None \<Rightarrow> mr_streams d s
                   | Some (n, _) \<Rightarrow> drop (length (mr_streams d s) - nat (n - 1)) (mr_streams d s))
        in (Inr i, d\<lparr>mr_streams := (mr_streams d)(s := old @ [\<lparr>e_ID = i, e_Values = f\<rparr>])\<rparr>)),
      rd_xack = (\<lambda>s g ids d.
        (Inr (int (length (filter (\<lambda>i. (s, g, i) \<in> set (mr_pending d)) ids))),
         d\<lparr>mr_pending := filter (\<lambda>x. \<not> (fst x = s \<and> fst (snd x) = g \<and> snd (snd x) \<in> set ids)) (mr_pending d)\<rparr>)),
      rd_zadd = (\<lambda>k sc m d. (Inr 1, d\<lparr>mr_zsets := (mr_zsets d)(k := AList.update m sc (mr_zsets d k))\<rparr>)),
      rd_zrem = (\<lambda>k m d. (Inr 1, d\<lparr>mr_zsets := (mr_zsets d)(k := AList.delete m (mr_zsets d k))\<rparr>)),
      rd_zrangebyscore = (\<lambda>k mx n d. (Inr (mr_range (mr_zsets d k) mx n), d)),
      rd_xgroup_create = (\<lambda>s g st d.
        (if (s, g) \<in> set (map (\<lambda>x. (fst x, fst (snd x))) (mr_seen d)) then Inl (Errs ''BUSYGROUP'') else Inr (), d)),
      rd_xreadgroup = (\<lambda>s g c n b d.
        let es = take (nat n) (filter (\<lambda>e. (s, g, e_ID e) \<notin> set (mr_pending d) \<and> (s, g, e_ID e) \<notin> set (mr_seen d))
                   (remdups_id (mr_streams d s)))
        in if es = [] then (Inl RedisNil, d)
           else (Inr es, d\<lparr>mr_pending := mr_pending d @ map (\<lambda>e. (s, g, e_ID e)) es,
                   mr_seen := mr_seen d @ map (\<lambda>e. (s, g, e_ID e)) es,
                   mr_counts := (\<lambda>x. if x \<in> set (map (\<lambda>e. (s, g, e_ID e)) es) then 1 else mr_counts d x)\<rparr>)),
      rd_xautoclaim = (\<lambda>s g c t st n d.
        let es = take (nat n) (filter (\<lambda>e. (s, g, e_ID e) \<in> set (mr_pending d)) (mr_streams d s))
        in (Inr (es, ''0-0''),
            d\<lparr>mr_pending := filter (\<lambda>x. \<not> (fst x = s \<and> fst (snd x) = g \<and> snd (snd x) \<notin> e_ID ` set (mr_streams d s)))
                 (mr_pending d),
              mr_counts := (\<lambda>x. if x \<in> set (map (\<lambda>e. (s, g, e_ID e)) es) then mr_counts d x + 1 else mr_counts d x)\<rparr>)),
      rd_xpending = (\<lambda>s g i d.
        (if (s, g, i) \<notin> set (mr_pending d) then Inr None
         else if in_int64 (int (mr_counts d (s, g, i))) then Inr (Some (int (mr_counts d (s, g, i))))
         else Inl (Errs ''value is not an integer or out of range''), d))\<rparr>"

lemma fold_length_ge: "(n :: nat) \<le> fold (\<lambda>i n. max (length i) n) is n"
  by (induction "is" arbitrary: n) (auto intro: order_trans [OF max.cobounded2])

lemma fold_length_mem: "i \<in> set is \<Longrightarrow> length i \<le> fold (\<lambda>i n. max (length i) n) is n"
proof (induction "is" arbitrary: n)
  case (Cons a as)
  then show ?case using fold_length_ge [of "max (length a) n" as] by (auto simp: max_def split: if_splits)
qed simp

lemma mr_fresh_new:
  "mr_fresh d s \<noteq> []" "mr_fresh d s \<notin> e_ID ` set (mr_streams d s)" "(s, g, mr_fresh d s) \<notin> set (mr_pending d)"
proof -
  let ?is = "map e_ID (mr_streams d s) @ map (\<lambda>x. snd (snd x)) (mr_pending d)"
  have "mr_fresh d s \<notin> set ?is"
  proof
    assume "mr_fresh d s \<in> set ?is"
    from fold_length_mem [OF this, of 0] show False by (simp add: mr_fresh_def)
  qed
  then show "mr_fresh d s \<notin> e_ID ` set (mr_streams d s)" "(s, g, mr_fresh d s) \<notin> set (mr_pending d)"
    by force+
qed (simp add: mr_fresh_def)

lemma mem_xadd_law: "xadd_law mem_redis"
proof -
  have k: "\<exists>k\<le>length es. (m = None \<longrightarrow> k = 0) \<and>
      (\<forall>n a. m = Some (n, a) \<longrightarrow> k = 0 \<or> n \<le> int (length es - k) + 1) \<and>
      (case m of None \<Rightarrow> es | Some (n :: int, _ :: bool) \<Rightarrow> drop (length es - nat (n - 1)) es) = drop k es"
    for es :: "entry list" and m
  proof (cases m)
    case (Some x)
    obtain n a where x: "x = (n, a)" by force
    have "length es - nat (n - 1) = 0 \<or> n \<le> int (length es - (length es - nat (n - 1))) + 1" by linarith
    with Some x show ?thesis by (intro exI [of _ "length es - nat (n - 1)"]) auto
  qed simp
  show ?thesis
    unfolding xadd_law_def keeps_on_error_def
  proof (intro conjI allI impI; (elim conjE)?)
    fix s f m d i d'
    assume "rd_xadd mem_redis s f m d = (Inr i, d')"
    then show "\<exists>k\<le>length (rd_entries mem_redis d s). (m = None \<longrightarrow> k = 0) \<and>
        (\<forall>n a. m = Some (n, a) \<longrightarrow> k = 0 \<or> n \<le> int (length (rd_entries mem_redis d s) - k) + 1) \<and>
        rd_entries mem_redis d' = (rd_entries mem_redis d)
          (s := drop k (rd_entries mem_redis d s) @ [\<lparr>e_ID = i, e_Values = f\<rparr>])"
      using k [of "mr_streams d s" m] by (auto simp: mem_redis_def Let_def)
  qed (auto simp: mem_redis_def Let_def mr_fresh_new)
qed

lemma mem_zset_laws: "xack_law mem_redis" "zset_law mem_redis"
  by (auto simp: xack_law_def zset_law_def keeps_on_error_def mem_redis_def fun_eq_iff
      update_conv' delete_conv')

lemma mr_range_law:
  fixes zs :: "(string \<times> int) list" and mx n :: int
  defines "ms \<equiv> mr_range zs mx n"
  shows "distinct ms" "length ms \<le> nat n" "\<forall>m\<in>set ms. \<exists>sc\<le>mx. map_of zs m = Some sc"
    and "map_of zs m = Some sc \<Longrightarrow> sc \<le> mx \<Longrightarrow> m \<notin> set ms \<Longrightarrow>
      length ms = nat n \<and> (\<forall>m'\<in>set ms. the (map_of zs m') \<le> sc)"
proof -
  define ys where "ys = filter (\<lambda>x. snd x \<le> mx) (sort_key snd (AList.clearjunk zs))"
  have ms: "ms = take (nat n) (map fst ys)" by (simp add: ms_def mr_range_def ys_def)
  have set_ys: "set ys = {(m, sc). map_of zs m = Some sc \<and> sc \<le> mx}"
    using map_of_eq_Some_iff [OF distinct_clearjunk, of zs]
    by (auto simp: ys_def map_of_clearjunk)
  have "mset (map fst (sort_key snd (AList.clearjunk zs))) = mset (map fst (AList.clearjunk zs))"
    by (metis mset_map mset_sort)
  then have "distinct (map fst (sort_key snd (AList.clearjunk zs)))"
    using distinct_clearjunk mset_eq_imp_distinct_iff by blast
  then have dist: "distinct (map fst ys)" unfolding ys_def by (rule distinct_map_filter)
  then show "distinct ms" by (simp add: ms)
  show "length ms \<le> nat n" by (simp add: ms)
  have mem: "map_of zs m = Some sc \<and> sc \<le> mx" if "(m, sc) \<in> set ys" for m sc using that set_ys by auto
  then show "\<forall>m\<in>set ms. \<exists>sc\<le>mx. map_of zs m = Some sc"
    by (auto simp: ms dest!: in_set_takeD)
  assume m: "map_of zs m = Some sc" "sc \<le> mx" "m \<notin> set ms"
  then have "(m, sc) \<in> set ys" using set_ys by auto
  moreover have "(m, sc) \<notin> set (take (nat n) ys)" using m(3) by (force simp: ms take_map)
  moreover have "set ys = set (take (nat n) ys) \<union> set (drop (nat n) ys)"
    by (metis append_take_drop_id set_append)
  ultimately have late: "(m, sc) \<in> set (drop (nat n) ys)" by blast
  then have "drop (nat n) ys \<noteq> []" by auto
  then have "length ms = nat n" by (simp add: ms)
  moreover have "the (map_of zs m') \<le> sc" if "m' \<in> set ms" for m'
  proof -
    from that obtain sc' where s: "(m', sc') \<in> set (take (nat n) ys)" by (auto simp: ms take_map)
    have "sorted (map snd (take (nat n) ys @ drop (nat n) ys))"
      by (simp add: ys_def sorted_filter)
    then have "\<forall>x\<in>set (take (nat n) ys). \<forall>y\<in>set (drop (nat n) ys). snd x \<le> snd y"
      unfolding map_append sorted_append by simp
    with s late have "sc' \<le> sc" by fastforce
    moreover have "map_of zs m' = Some sc'" using mem s by (blast dest: in_set_takeD)
    ultimately show ?thesis by simp
  qed
  ultimately show "length ms = nat n \<and> (\<forall>m'\<in>set ms. the (map_of zs m') \<le> sc)" by blast
qed

lemma remdups_id: "set (remdups_id es) \<subseteq> set es" "distinct (map e_ID (remdups_id es))"
proof (induction es)
  case (Cons e es)
  show "set (remdups_id (e # es)) \<subseteq> set (e # es)" using Cons by auto
  show "distinct (map e_ID (remdups_id (e # es)))" using Cons by (auto intro: distinct_map_filter)
qed simp_all

theorem mem_redis_laws: "redis_laws mem_redis"
proof -
  have "zrange_law mem_redis"
    unfolding zrange_law_def reads_only_def
    using mr_range_law by (simp add: mem_redis_def)
  moreover have "xreadgroup_law mem_redis"
    unfolding xreadgroup_law_def
  proof (intro conjI allI impI)
    fix s g c n b d es d'
    assume r: "rd_xreadgroup mem_redis s g c n b d = (Inr es, d')"
    define P where "P = (\<lambda>e :: entry. (s, g, e_ID e) \<notin> set (mr_pending d) \<and> (s, g, e_ID e) \<notin> set (mr_seen d))"
    from r have es: "es = take (nat n) (filter P (remdups_id (mr_streams d s)))"
      and d': "d' = d\<lparr>mr_pending := mr_pending d @ map (\<lambda>e. (s, g, e_ID e)) es,
                   mr_seen := mr_seen d @ map (\<lambda>e. (s, g, e_ID e)) es,
                   mr_counts := (\<lambda>x. if x \<in> set (map (\<lambda>e. (s, g, e_ID e)) es) then 1 else mr_counts d x)\<rparr>"
      by (auto simp: mem_redis_def Let_def P_def split: if_splits)
    have "set es \<subseteq> set (filter P (remdups_id (mr_streams d s)))" unfolding es by (rule set_take_subset)
    then have sub: "\<forall>e\<in>set es. e \<in> set (mr_streams d s) \<and> P e"
      using remdups_id(1) by fastforce
    then show "set es \<subseteq> set (rd_entries mem_redis d s)" by (auto simp: mem_redis_def)
    show "distinct (map e_ID es)" unfolding es
      using remdups_id(2) by (metis distinct_map_filter distinct_take take_map)
    from sub show "\<forall>e\<in>set es. e_ID e \<notin> rd_pending mem_redis d s g \<and> rd_count mem_redis d' s g (e_ID e) = 1"
      by (simp add: mem_redis_def P_def d')
    show "rd_entries mem_redis d' = rd_entries mem_redis d" "rd_zset mem_redis d' = rd_zset mem_redis d"
      by (simp_all add: mem_redis_def d')
    show "rd_pending mem_redis d' = (rd_pending mem_redis d)
        (s := (rd_pending mem_redis d s)(g := rd_pending mem_redis d s g \<union> e_ID ` set es))"
      by (auto simp: mem_redis_def d' fun_eq_iff)
  qed (auto simp: keeps_on_error_def reads_only_def mem_redis_def Let_def split: if_splits)
  moreover have "xautoclaim_law mem_redis"
    unfolding xautoclaim_law_def
  proof (intro conjI allI impI)
    fix s g c t st n d es nx d'
    assume r: "rd_xautoclaim mem_redis s g c t st n d = (Inr (es, nx), d')"
    then have es: "set es \<subseteq> {e \<in> set (mr_streams d s). (s, g, e_ID e) \<in> set (mr_pending d)}"
      and d': "mr_streams d' = mr_streams d" "mr_zsets d' = mr_zsets d"
        "mr_counts d' = (\<lambda>x. if x \<in> set (map (\<lambda>e. (s, g, e_ID e)) es) then mr_counts d x + 1 else mr_counts d x)"
        "mr_pending d' = filter (\<lambda>x. \<not> (fst x = s \<and> fst (snd x) = g \<and> snd (snd x) \<notin> e_ID ` set (mr_streams d s)))
                 (mr_pending d)"
      by (auto simp: mem_redis_def Let_def dest!: in_set_takeD)
    show "\<forall>e\<in>set es. e \<in> set (rd_entries mem_redis d s) \<and> e_ID e \<in> rd_pending mem_redis d s g
        \<and> rd_count mem_redis d' s g (e_ID e) = rd_count mem_redis d s g (e_ID e) + 1"
      using es by (auto simp: mem_redis_def d'(3))
    show "\<exists>gone. dropped_pending mem_redis s g gone d d'"
      by (rule exI [of _ "{i. (s, g, i) \<in> set (mr_pending d) \<and> i \<notin> e_ID ` set (mr_streams d s)}"])
        (auto simp: dropped_pending_def mem_redis_def d'(1,2,4) fun_eq_iff)
  qed (auto simp: keeps_on_error_def reads_only_def mem_redis_def Let_def split: if_splits)
  ultimately show ?thesis by (simp add: redis_laws_def mem_xadd_law mem_zset_laws)
qed

end
