(* ===== verification/GoCodec.thy ===== *)
theory GoCodec
  imports GoStrings
begin

text \<open>
  Valid UTF-8, what \<open>encoding/json\<close> makes of a string that is not (each byte that starts no
  character is replaced by U+FFFD), and a plain encoding of lists of strings, from which the
  witnesses build concrete codecs in the place of JSON.
\<close>

subsection \<open>UTF-8\<close>

definition byte :: "char \<Rightarrow> nat" where "byte c = of_char c"

definition cont :: "nat \<Rightarrow> nat \<Rightarrow> char \<Rightarrow> bool" where
  "cont lo hi c \<longleftrightarrow> lo \<le> byte c \<and> byte c \<le> hi"

text \<open>The bytes that may follow a first byte, or \<open>None\<close> where it starts no character.\<close>

definition utf8_tail :: "char \<Rightarrow> (char \<Rightarrow> bool) list option" where
  "utf8_tail c =
     (let b = byte c; any = cont 0x80 0xBF in
      if b < 0x80 then Some []
      else if b < 0xC2 then None
      else if b \<le> 0xDF then Some [any]
      else if b = 0xE0 then Some [cont 0xA0 0xBF, any]
      else if b = 0xED then Some [cont 0x80 0x9F, any]
      else if b \<le> 0xEF then Some [any, any]
      else if b = 0xF0 then Some [cont 0x90 0xBF, any, any]
      else if b \<le> 0xF3 then Some [any, any, any]
      else if b = 0xF4 then Some [cont 0x80 0x8F, any, any]
      else None)"

function utf8_valid :: "string \<Rightarrow> bool" where
  "utf8_valid [] \<longleftrightarrow> True"
| "utf8_valid (c # cs) \<longleftrightarrow>
     (case utf8_tail c of
        None \<Rightarrow> False
      | Some ps \<Rightarrow>
          length ps \<le> length cs \<and> list_all2 (\<lambda>p x. p x) ps (take (length ps) cs)
          \<and> utf8_valid (drop (length ps) cs))"
  by pat_completeness auto
termination by (relation "measure length") auto

lemma utf8_ascii: "(\<forall>c\<in>set s. byte c < 0x80) \<Longrightarrow> utf8_valid s"
  by (induction s) (simp_all add: utf8_tail_def)

text \<open>The string that is read back from the JSON of a string.\<close>

definition repl :: string where "repl = [CHR 0xEF, CHR 0xBF, CHR 0xBD]"

function utf8_clean :: "string \<Rightarrow> string" where
  "utf8_clean [] = []"
| "utf8_clean (c # cs) =
     (case utf8_tail c of
        None \<Rightarrow> repl @ utf8_clean cs
      | Some ps \<Rightarrow>
          if length ps \<le> length cs \<and> list_all2 (\<lambda>p x. p x) ps (take (length ps) cs)
          then c # take (length ps) cs @ utf8_clean (drop (length ps) cs)
          else repl @ utf8_clean cs)"
  by pat_completeness auto
termination by (relation "measure length") auto

lemma utf8_valid_repl [simp]: "utf8_valid (repl @ s) = utf8_valid s"
  by (simp add: repl_def utf8_tail_def byte_def cont_def Let_def)

lemma utf8_clean_valid [simp]: "utf8_valid (utf8_clean s)"
  by (induction s rule: utf8_clean.induct) (auto split: option.splits)

lemma utf8_clean_id: "utf8_valid s \<Longrightarrow> utf8_clean s = s"
  by (induction s rule: utf8_clean.induct) (auto split: option.splits)

lemma utf8_clean_idem [simp]: "utf8_clean (utf8_clean s) = utf8_clean s"
  by (rule utf8_clean_id) simp

lemma utf8_clean_nil [simp]: "utf8_clean s = [] \<longleftrightarrow> s = []"
  by (cases s) (auto simp: repl_def split: option.splits)

subsection \<open>Lists of strings\<close>

definition nib :: "nat \<Rightarrow> char" where "nib n = char_of (0x61 + n)"
definition unnib :: "char \<Rightarrow> nat" where "unnib c = of_char c - 0x61"

fun esc :: "string \<Rightarrow> string" where
  "esc [] = []"
| "esc (c # cs) = nib (of_char c div 16) # nib (of_char c mod 16) # esc cs"

fun unesc :: "string \<Rightarrow> string" where
  "unesc (a # b # cs) = char_of (16 * unnib a + unnib b) # unesc cs"
| "unesc _ = []"

lemma unnib_nib [simp]: "n < 16 \<Longrightarrow> unnib (nib n) = n"
  by (simp add: unnib_def nib_def)

lemma nib_visible: "n < 16 \<Longrightarrow> visible (nib n) \<and> nib n \<noteq> CHR '';''"
proof -
  assume n: "n < 16"
  then have b: "(of_char (nib n) :: nat) = 0x61 + n" by (simp add: nib_def)
  then have "nib n \<noteq> CHR '';''" by auto
  with n b show ?thesis by (simp add: visible_def)
qed

lemma byte_div: "(of_char c :: nat) div 16 < 16" "(of_char (c :: char) :: nat) mod 16 < 16"
  using nat_of_char_less_256 [of c] by (auto simp: less_mult_imp_div_less)

lemma unesc_esc [simp]: "unesc (esc s) = s"
  by (induction s) (simp_all add: byte_div)

lemma esc_visible: "c \<in> set (esc s) \<Longrightarrow> visible c \<and> c \<noteq> CHR '';''"
  by (induction s) (auto simp: nib_visible byte_div)

fun enc_strs :: "string list \<Rightarrow> string" where
  "enc_strs [] = '';''"
| "enc_strs (s # ss) = esc s @ CHR '';'' # enc_strs ss"

function dec_strs :: "string \<Rightarrow> string list" where
  "dec_strs s =
     (let rest = dropWhile (\<lambda>c. c \<noteq> CHR '';'') s in
      if length rest \<le> 1 then [] else unesc (takeWhile (\<lambda>c. c \<noteq> CHR '';'') s) # dec_strs (tl rest))"
  by pat_completeness auto
termination
proof (relation "measure length")
  fix s and rest :: string
  assume r: "rest = dropWhile (\<lambda>c. c \<noteq> CHR '';'') s" "\<not> length rest \<le> 1"
  then have "length rest \<le> length s" by (simp add: length_dropWhile_le)
  with r(2) show "(tl rest, s) \<in> measure length" by simp
qed simp

declare dec_strs.simps [simp del]

lemma enc_strs_ne [simp]: "enc_strs ss \<noteq> []"
  by (cases ss) auto

lemma dec_enc [simp]: "dec_strs (enc_strs ss) = ss"
proof (induction ss)
  case Nil
  show ?case by (simp add: dec_strs.simps)
next
  case (Cons s ss)
  have "takeWhile (\<lambda>c. c \<noteq> CHR '';'') (esc s @ CHR '';'' # t) = esc s"
      "dropWhile (\<lambda>c. c \<noteq> CHR '';'') (esc s @ CHR '';'' # t) = CHR '';'' # t" for t
    using esc_visible [of _ s] by (simp_all add: takeWhile_append2 dropWhile_append2)
  moreover have "length (enc_strs ss) \<ge> 1" by (cases "enc_strs ss") auto
  ultimately show ?case using Cons by (subst dec_strs.simps) (simp add: Let_def)
qed

lemma enc_strs_visible: "c \<in> set (enc_strs ss) \<Longrightarrow> visible c"
  by (induction ss) (auto simp: esc_visible, auto simp: visible_def)

lemma TrimSpace_enc [simp]: "TrimSpace (enc_strs ss) = enc_strs ss"
  by (rule TrimSpace_visible) (simp_all add: enc_strs_visible [where ss = ss])

end
