(* ===== verification/PubsubMessage.thy ===== *)
theory PubsubMessage
  imports PubsubRedis GoCodec
begin

text \<open>
  message.go and errors.go of package \<open>pubsub\<close>: messages, the fields under which a stream
  entry stores one, and decoding an entry.  Byte slices are strings of bytes.  A map of
  headers can be nil.  \<open>encoding/json\<close>, \<open>time.Format\<close>, \<open>time.Parse\<close> and the server's
  \<open>cjson\<close> are the parameter \<open>pc\<close>; \<open>codec_ok\<close> states the round trips the code relies on.
\<close>

subsection \<open>Data\<close>

definition ErrRedisNotConfigured :: error where "ErrRedisNotConfigured = Errs ''pubsub redis is not configured''"
definition ErrServiceStarted :: error where "ErrServiceStarted = Errs ''pubsub service already started''"
definition ErrInvalidTopic :: error where "ErrInvalidTopic = Errs ''invalid pubsub topic''"
definition ErrInvalidMessage :: error where "ErrInvalidMessage = Errs ''invalid pubsub message''"
definition ErrInvalidSubscription :: error where "ErrInvalidSubscription = Errs ''invalid pubsub subscription''"
definition ErrDuplicateSubscription :: error where "ErrDuplicateSubscription = Errs ''duplicate pubsub subscription''"
definition ErrHandlerRequired :: error where "ErrHandlerRequired = Errs ''pubsub handler is required''"

type_synonym headers = "(string \<rightharpoonup> string) option"

record message =
  m_Key :: string
  m_Type :: string
  m_Data :: string
  m_Headers :: headers
  m_MaxDeliver :: int
  m_ScheduledAt :: go_time

record delivery =
  dl_ID :: string
  dl_Topic :: string
  dl_Group :: string
  dl_Consumer :: string
  dl_Attempt :: int
  dl_PublishedAt :: go_time
  dl_Message :: message
  dl_Raw :: fields

definition fieldKey :: string where "fieldKey = ''key''"
definition fieldType :: string where "fieldType = ''type''"
definition fieldData :: string where "fieldData = ''data''"
definition fieldHeaders :: string where "fieldHeaders = ''headers''"
definition fieldPublishedAt :: string where "fieldPublishedAt = ''published_at''"
definition fieldMaxDeliver :: string where "fieldMaxDeliver = ''max_deliver''"
definition fieldAttempt :: string where "fieldAttempt = ''attempt''"

lemmas field_defs =
  fieldKey_def fieldType_def fieldData_def fieldHeaders_def fieldPublishedAt_def fieldMaxDeliver_def fieldAttempt_def

text \<open>\<open>values[k]\<close> of a Go map: the empty string where the key is missing.\<close>

definition field :: "fields \<Rightarrow> string \<Rightarrow> string" where
  "field vs k = (case vs k of None \<Rightarrow> [] | Some v \<Rightarrow> v)"

text \<open>
  What a retry is stored as, and the table \<open>cjson\<close> decodes it to: an absent member is
  \<open>None\<close>, the last three are the strings Lua passes to a command.
\<close>

record retryEnvelope =
  re_Topic :: string
  re_Group :: string
  re_Key :: string
  re_Type :: string
  re_Data :: string
  re_Headers :: headers
  re_MaxDeliver :: int
  re_Attempt :: int
  re_PublishedAt :: go_time

record lua_item =
  li_key :: "string option"
  li_type :: "string option"
  li_data :: "string option"
  li_headers :: "headers option"
  li_published_at :: "string option"
  li_max_deliver :: "string option"
  li_attempt :: "string option"

record pubsub_codec =
  pc_marshal_headers :: "headers \<Rightarrow> error + string"
  pc_unmarshal_headers :: "string \<Rightarrow> error + headers"
  pc_format :: "go_time \<Rightarrow> string"
  pc_parse :: "string \<Rightarrow> go_time option"
  pc_marshal_envelope :: "retryEnvelope \<Rightarrow> error + string"
  pc_lua_decode :: "string \<Rightarrow> error + lua_item"
  pc_lua_encode :: "headers \<Rightarrow> string"

subsection \<open>Validation and encoding\<close>

definition message_Validate :: "message \<Rightarrow> error option" where
  "message_Validate m =
     (if TrimSpace (m_Type m) = [] \<and> m_Data m = [] then Some ErrInvalidMessage
      else if m_MaxDeliver m < 0 then Some ErrInvalidMessage
      else if m_ScheduledAt m \<noteq> 0 then Some ErrInvalidMessage
      else None)"

definition messageFieldsWithAttempt ::
  "pubsub_codec \<Rightarrow> message \<Rightarrow> go_time \<Rightarrow> int \<Rightarrow> int \<Rightarrow> error + fields" where
  "messageFieldsWithAttempt pc msg publishedAt defaultMaxDeliver attempt =
     (case message_Validate msg of
        Some e \<Rightarrow> Inl e
      | None \<Rightarrow>
          if attempt \<le> 0 then Inl ErrInvalidMessage
          else
            (let maxDeliver = (if m_MaxDeliver msg \<le> 0 then defaultMaxDeliver else m_MaxDeliver msg) in
             case pc_marshal_headers pc (m_Headers msg) of
               Inl e \<Rightarrow> Inl ErrInvalidMessage
             | Inr headers \<Rightarrow>
                 Inr [fieldKey \<mapsto> m_Key msg, fieldType \<mapsto> m_Type msg, fieldData \<mapsto> m_Data msg,
                      fieldHeaders \<mapsto> headers, fieldPublishedAt \<mapsto> pc_format pc publishedAt,
                      fieldMaxDeliver \<mapsto> Itoa maxDeliver, fieldAttempt \<mapsto> Itoa attempt]))"

definition messageFields :: "pubsub_codec \<Rightarrow> message \<Rightarrow> go_time \<Rightarrow> int \<Rightarrow> error + fields" where
  "messageFields pc msg publishedAt defaultMaxDeliver =
     messageFieldsWithAttempt pc msg publishedAt defaultMaxDeliver 1"

definition decode_attempt :: "fields \<Rightarrow> int option" where
  "decode_attempt vs =
     (let rawAttempt = TrimSpace (field vs fieldAttempt) in
      if rawAttempt \<noteq> []
      then (case Atoi rawAttempt of None \<Rightarrow> None | Some attempt \<Rightarrow> if attempt \<le> 0 then None else Some attempt)
      else Some 1)"

definition decodeEntry ::
  "pubsub_codec \<Rightarrow> string \<Rightarrow> string \<Rightarrow> string \<Rightarrow> entry \<Rightarrow> error + delivery" where
  "decodeEntry pc topic grp consumer ent =
     (let vs = e_Values ent in
      if e_ID ent = [] then Inl ErrInvalidMessage
      else
        (case Atoi (TrimSpace (field vs fieldMaxDeliver)) of
           None \<Rightarrow> Inl ErrInvalidMessage
         | Some maxDeliver \<Rightarrow>
             if maxDeliver < 0 then Inl ErrInvalidMessage
             else
               (case decode_attempt vs of
                  None \<Rightarrow> Inl ErrInvalidMessage
                | Some attempt \<Rightarrow>
                    (case pc_parse pc (TrimSpace (field vs fieldPublishedAt)) of
                       None \<Rightarrow> Inl ErrInvalidMessage
                     | Some publishedAt \<Rightarrow>
                         (case (let rawHeaders = TrimSpace (field vs fieldHeaders) in
                                if rawHeaders \<noteq> [] then pc_unmarshal_headers pc rawHeaders
                                else Inr (Some Map.empty)) of
                            Inl e \<Rightarrow> Inl ErrInvalidMessage
                          | Inr headers \<Rightarrow>
                              Inr \<lparr>dl_ID = e_ID ent, dl_Topic = topic, dl_Group = grp, dl_Consumer = consumer,
                                   dl_Attempt = attempt, dl_PublishedAt = publishedAt,
                                   dl_Message =
                                     \<lparr>m_Key = field vs fieldKey, m_Type = field vs fieldType,
                                      m_Data = field vs fieldData, m_Headers = headers,
                                      m_MaxDeliver = maxDeliver, m_ScheduledAt = 0\<rparr>,
                                   dl_Raw = vs\<rparr>)))))"

subsection \<open>What JSON makes of headers\<close>

text \<open>A finite map as the list of its pairs, in the order of the keys.\<close>

definition pairs :: "(string \<rightharpoonup> string) \<Rightarrow> (string \<times> string) list" where
  "pairs m = map (\<lambda>k. (k, the (m k))) (sorted_list_of_set (dom m))"

lemma map_of_pairs: "finite (dom m) \<Longrightarrow> map_of (pairs m) = m"
  by (rule ext) (auto simp: pairs_def map_of_map_keys restrict_map_def domIff comp_def split: option.splits
      intro!: map_of_map_restrict)

lemma pairs_distinct: "finite (dom m) \<Longrightarrow> distinct (map fst (pairs m))"
  by (simp add: pairs_def comp_def)

definition finite_headers :: "headers \<Rightarrow> bool" where
  "finite_headers h \<longleftrightarrow> (case h of None \<Rightarrow> True | Some m \<Rightarrow> finite (dom m))"

definition utf8_headers :: "headers \<Rightarrow> bool" where
  "utf8_headers h \<longleftrightarrow>
     (case h of None \<Rightarrow> True
      | Some m \<Rightarrow> finite (dom m) \<and> (\<forall>k\<in>dom m. utf8_valid k \<and> utf8_valid (the (m k))))"

text \<open>
  Members are written in the order of their keys, each byte that is no UTF-8 replaced; of members
  that get the same key that way, the last one read stays.
\<close>

definition clean_headers :: "headers \<Rightarrow> headers" where
  "clean_headers h =
     map_option (\<lambda>m. map_of (rev (map (\<lambda>(k, v). (utf8_clean k, utf8_clean v)) (pairs m)))) h"

lemma utf8_headers_finite: "utf8_headers h \<Longrightarrow> finite_headers h"
  by (simp add: utf8_headers_def finite_headers_def split: option.splits)

lemma clean_headers_utf8 [simp]: "utf8_headers (clean_headers h)"
proof (cases h)
  case (Some m)
  let ?ps = "rev (map (\<lambda>(k, v). (utf8_clean k, utf8_clean v)) (pairs m))"
  have "utf8_valid k \<and> utf8_valid v" if "map_of ?ps k = Some v" for k v
    using map_of_SomeD [OF that] by auto
  then show ?thesis by (auto simp: Some utf8_headers_def clean_headers_def finite_dom_map_of)
qed (simp add: clean_headers_def utf8_headers_def)

lemma clean_headers_id: "utf8_headers h \<Longrightarrow> clean_headers h = h"
proof (cases h)
  case (Some m)
  assume "utf8_headers h"
  then have f: "finite (dom m)" and u: "\<forall>k\<in>dom m. utf8_valid k \<and> utf8_valid (the (m k))"
    by (simp_all add: utf8_headers_def Some)
  have "map (\<lambda>(k, v). (utf8_clean k, utf8_clean v)) (pairs m) = pairs m"
  proof (rule map_idI)
    fix x assume "x \<in> set (pairs m)"
    then obtain k where "x = (k, the (m k))" "k \<in> dom m" using f by (auto simp: pairs_def)
    with u show "(case x of (k, v) \<Rightarrow> (utf8_clean k, utf8_clean v)) = x" by (simp add: utf8_clean_id)
  qed
  moreover have "map_of (rev (pairs m)) = map_of (pairs m)"
    using pairs_distinct [OF f] by (intro map_of_eqI) (auto simp: map_of_eq_Some_iff rev_map [symmetric])
  ultimately show ?thesis using map_of_pairs [OF f] by (simp add: clean_headers_def Some)
qed (simp add: clean_headers_def)

lemma clean_headers_finite [simp]: "finite_headers (clean_headers h)"
  by (simp add: utf8_headers_finite)

lemma clean_headers_idem [simp]: "clean_headers (clean_headers h) = clean_headers h"
  by (simp add: clean_headers_id)

text \<open>A message that has been through JSON as a whole.\<close>

definition clean_message :: "message \<Rightarrow> message" where
  "clean_message m =
     m\<lparr>m_Key := utf8_clean (m_Key m), m_Type := utf8_clean (m_Type m), m_Data := utf8_clean (m_Data m),
       m_Headers := clean_headers (m_Headers m)\<rparr>"

definition utf8_message :: "message \<Rightarrow> bool" where
  "utf8_message m \<longleftrightarrow>
     utf8_valid (m_Key m) \<and> utf8_valid (m_Type m) \<and> utf8_valid (m_Data m) \<and> utf8_headers (m_Headers m)"

lemma clean_message_simps [simp]:
  "m_Key (clean_message m) = utf8_clean (m_Key m)" "m_Type (clean_message m) = utf8_clean (m_Type m)"
  "m_Data (clean_message m) = utf8_clean (m_Data m)" "m_Headers (clean_message m) = clean_headers (m_Headers m)"
  "m_MaxDeliver (clean_message m) = m_MaxDeliver m" "m_ScheduledAt (clean_message m) = m_ScheduledAt m"
  by (simp_all add: clean_message_def)

lemma clean_message_idem [simp]: "clean_message (clean_message m) = clean_message m"
  by (simp add: clean_message_def)

lemma clean_message_id: "utf8_message m \<Longrightarrow> clean_message m = m"
  by (simp add: clean_message_def utf8_message_def utf8_clean_id clean_headers_id)

subsection \<open>Laws of the codecs\<close>

text \<open>
  JSON keeps finite maps and strings but for the bytes that are not UTF-8; RFC 3339 with
  nanoseconds keeps the instants it can represent; what \<open>cjson\<close> reads from an encoded envelope
  gives back its members, with integers up to 14 digits printed as such, and what it writes of
  headers of valid UTF-8 is read as these.
\<close>

definition headers_law :: "pubsub_codec \<Rightarrow> bool" where
  "headers_law pc \<longleftrightarrow>
     (\<forall>h. finite_headers h \<longrightarrow>
        (\<exists>s. pc_marshal_headers pc h = Inr s \<and> TrimSpace s \<noteq> []
           \<and> pc_unmarshal_headers pc (TrimSpace s) = Inr (clean_headers h)))"

definition time_law :: "pubsub_codec \<Rightarrow> bool" where
  "time_law pc \<longleftrightarrow> (\<forall>t. json_time t \<longrightarrow> pc_parse pc (TrimSpace (pc_format pc t)) = Some t)"

definition envelope_ok :: "retryEnvelope \<Rightarrow> bool" where
  "envelope_ok re \<longleftrightarrow>
     finite_headers (re_Headers re) \<and> json_time (re_PublishedAt re)
     \<and> 0 \<le> re_MaxDeliver re \<and> re_MaxDeliver re < 10 ^ 14 \<and> 0 \<le> re_Attempt re \<and> re_Attempt re < 10 ^ 14"

definition envelope_law :: "pubsub_codec \<Rightarrow> bool" where
  "envelope_law pc \<longleftrightarrow>
     (\<forall>re. envelope_ok re \<longrightarrow>
        (\<exists>s it. pc_marshal_envelope pc re = Inr s \<and> pc_lua_decode pc s = Inr it
           \<and> li_key it = Some (utf8_clean (re_Key re)) \<and> li_type it = Some (utf8_clean (re_Type re))
           \<and> li_data it = Some (utf8_clean (re_Data re))
           \<and> li_headers it = Some (clean_headers (re_Headers re))
           \<and> (\<exists>p. li_published_at it = Some p \<and> pc_parse pc (TrimSpace p) = Some (re_PublishedAt re))
           \<and> li_max_deliver it = Some (Itoa (re_MaxDeliver re)) \<and> li_attempt it = Some (Itoa (re_Attempt re))))
   \<and> (\<forall>h. utf8_headers h \<longrightarrow>
        TrimSpace (pc_lua_encode pc h) \<noteq> [] \<and> pc_unmarshal_headers pc (TrimSpace (pc_lua_encode pc h)) = Inr h)"

definition codec_ok :: "pubsub_codec \<Rightarrow> bool" where
  "codec_ok pc \<longleftrightarrow> headers_law pc \<and> time_law pc \<and> envelope_law pc"

subsection \<open>A concrete codec\<close>

fun flat :: "(string \<times> string) list \<Rightarrow> string list" where
  "flat [] = []"
| "flat ((k, v) # xs) = k # v # flat xs"

fun unflat :: "string list \<Rightarrow> (string \<times> string) list" where
  "unflat (k # v # xs) = (k, v) # unflat xs"
| "unflat _ = []"

lemma unflat_flat [simp]: "unflat (flat xs) = xs"
  by (induction xs rule: flat.induct) auto

definition headers_strs :: "headers \<Rightarrow> string list" where
  "headers_strs h = (case h of None \<Rightarrow> [] | Some m \<Rightarrow> ''m'' # flat (pairs m))"

definition strs_headers :: "string list \<Rightarrow> headers" where
  "strs_headers ss = (case ss of [] \<Rightarrow> None | _ # xs \<Rightarrow> Some (map_of (unflat xs)))"

definition mem_pc :: pubsub_codec where
  "mem_pc =
     \<lparr>pc_marshal_headers = (\<lambda>h. Inr (enc_strs (headers_strs (clean_headers h)))),
      pc_unmarshal_headers = (\<lambda>s. Inr (strs_headers (dec_strs s))),
      pc_format = (\<lambda>t. digits (nat t)),
      pc_parse = (\<lambda>s. map_option int (parse_digits 0 s)),
      pc_marshal_envelope = (\<lambda>re. Inr (enc_strs
        ([utf8_clean (re_Key re), utf8_clean (re_Type re), utf8_clean (re_Data re), digits (nat (re_PublishedAt re)),
          Itoa (re_MaxDeliver re), Itoa (re_Attempt re), utf8_clean (re_Topic re), utf8_clean (re_Group re)]
         @ headers_strs (clean_headers (re_Headers re))))),
      pc_lua_decode = (\<lambda>s.
        case dec_strs s of
          k # t # d # p # m # a # _ # _ # hs \<Rightarrow>
            Inr \<lparr>li_key = Some k, li_type = Some t, li_data = Some d, li_headers = Some (strs_headers hs),
                 li_published_at = Some p, li_max_deliver = Some m, li_attempt = Some a\<rparr>
        | _ \<Rightarrow> Inl (Errs ''bad json'')),
      pc_lua_encode = (\<lambda>h. enc_strs (headers_strs h))\<rparr>"

lemma strs_headers_inverse: "finite_headers h \<Longrightarrow> strs_headers (headers_strs h) = h"
  by (cases h) (simp_all add: finite_headers_def headers_strs_def strs_headers_def map_of_pairs)

lemma TrimSpace_digits [simp]: "TrimSpace (digits n) = digits n"
  by (rule TrimSpace_visible) (simp_all add: digits_visible [where n = n])

lemma mem_pc_ok: "codec_ok mem_pc"
proof -
  have "headers_law mem_pc"
    by (simp add: headers_law_def mem_pc_def strs_headers_inverse)
  moreover have "time_law mem_pc"
    by (simp add: time_law_def mem_pc_def parse_digits_digits json_time_def)
  moreover have "envelope_law mem_pc"
    by (simp add: envelope_law_def envelope_ok_def mem_pc_def strs_headers_inverse utf8_headers_finite
        parse_digits_digits json_time_def del: enc_strs.simps)
  ultimately show ?thesis by (simp add: codec_ok_def)
qed

subsection \<open>Decoding undoes encoding\<close>

lemma message_Validate_ok:
  "message_Validate m = None \<longleftrightarrow>
     (TrimSpace (m_Type m) \<noteq> [] \<or> m_Data m \<noteq> []) \<and> 0 \<le> m_MaxDeliver m \<and> m_ScheduledAt m = 0"
  by (auto simp: message_Validate_def)

lemma field_upd [simp]: "field (f(k \<mapsto> v)) j = (if j = k then v else field f j)"
  by (simp add: field_def)

lemma field_names_distinct [simp]:
  "distinct [fieldKey, fieldType, fieldData, fieldHeaders, fieldPublishedAt, fieldMaxDeliver, fieldAttempt]"
  by (simp add: field_defs)

text \<open>Entries whose fields encode a message decode to it.\<close>

lemma decodeEntry_fields:
  assumes "e_ID ent \<noteq> []" "vs = e_Values ent"
    and "field vs fieldMaxDeliver = Itoa mx" "0 \<le> mx" "in_int64 mx"
    and "field vs fieldAttempt = Itoa att" "0 < att" "in_int64 att"
    and "pc_parse pc (TrimSpace (field vs fieldPublishedAt)) = Some t"
    and "TrimSpace (field vs fieldHeaders) \<noteq> []"
    and "pc_unmarshal_headers pc (TrimSpace (field vs fieldHeaders)) = Inr h"
  shows "decodeEntry pc topic grp consumer ent =
    Inr \<lparr>dl_ID = e_ID ent, dl_Topic = topic, dl_Group = grp, dl_Consumer = consumer, dl_Attempt = att,
         dl_PublishedAt = t,
         dl_Message = \<lparr>m_Key = field vs fieldKey, m_Type = field vs fieldType, m_Data = field vs fieldData,
           m_Headers = h, m_MaxDeliver = mx, m_ScheduledAt = 0\<rparr>, dl_Raw = vs\<rparr>"
  using assms by (simp add: decodeEntry_def decode_attempt_def Let_def)

lemma messageFields_decode:
  assumes cc: "codec_ok pc" and v: "message_Validate msg = None" "finite_headers (m_Headers msg)" "in_int64 (m_MaxDeliver msg)"
    and t: "json_time t" and mx: "0 \<le> mx" "in_int64 mx" and att: "0 < att" "in_int64 att"
    and f: "messageFieldsWithAttempt pc msg t mx att = Inr f"
    and i: "i \<noteq> []"
  shows "decodeEntry pc topic grp consumer \<lparr>e_ID = i, e_Values = f\<rparr> =
    Inr \<lparr>dl_ID = i, dl_Topic = topic, dl_Group = grp, dl_Consumer = consumer, dl_Attempt = att,
         dl_PublishedAt = t,
         dl_Message = msg\<lparr>m_Headers := clean_headers (m_Headers msg), m_MaxDeliver := if m_MaxDeliver msg = 0 then mx else m_MaxDeliver msg\<rparr>,
         dl_Raw = f\<rparr>"
proof -
  obtain s where s: "pc_marshal_headers pc (m_Headers msg) = Inr s" "TrimSpace s \<noteq> []"
      "pc_unmarshal_headers pc (TrimSpace s) = Inr (clean_headers (m_Headers msg))"
    using cc v(2) unfolding codec_ok_def headers_law_def by blast
  have pt: "pc_parse pc (TrimSpace (pc_format pc t)) = Some t"
    using cc t by (simp add: codec_ok_def time_law_def)
  let ?mx = "if m_MaxDeliver msg = 0 then mx else m_MaxDeliver msg"
  have "f = [fieldKey \<mapsto> m_Key msg, fieldType \<mapsto> m_Type msg, fieldData \<mapsto> m_Data msg,
      fieldHeaders \<mapsto> s, fieldPublishedAt \<mapsto> pc_format pc t,
      fieldMaxDeliver \<mapsto> Itoa ?mx, fieldAttempt \<mapsto> Itoa att]"
    using f v(1) att s(1) by (auto simp: messageFieldsWithAttempt_def message_Validate_ok Let_def)
  then have fs: "field f fieldKey = m_Key msg" "field f fieldType = m_Type msg" "field f fieldData = m_Data msg"
      "field f fieldHeaders = s" "field f fieldPublishedAt = pc_format pc t"
      "field f fieldMaxDeliver = Itoa ?mx" "field f fieldAttempt = Itoa att"
    using field_names_distinct by simp_all
  have "0 \<le> ?mx" "in_int64 ?mx" using v(1,3) mx by (simp_all add: message_Validate_ok)
  with decodeEntry_fields [of "\<lparr>e_ID = i, e_Values = f\<rparr>" f ?mx att pc t "clean_headers (m_Headers msg)" topic grp consumer]
    i att fs s pt v(1)
  show ?thesis by (simp add: message_Validate_ok)
qed


definition demo_message :: message where
  "demo_message = \<lparr>m_Key = ''k'', m_Type = ''order'', m_Data = ''body'', m_Headers = Some [''trace'' \<mapsto> ''1''],
     m_MaxDeliver = 0, m_ScheduledAt = 0\<rparr>"

lemma demo_message_ok: "message_Validate demo_message = None" "utf8_headers (m_Headers demo_message)"
    "in_int64 (m_MaxDeliver demo_message)"
proof -
  show "message_Validate demo_message = None" "in_int64 (m_MaxDeliver demo_message)" by code_simp+
  have "utf8_valid ''trace''" "utf8_valid ''1''" by code_simp+
  then show "utf8_headers (m_Headers demo_message)" by (simp add: utf8_headers_def demo_message_def)
qed


end
