(* ===== verification/PubsubRouter.thy ===== *)
theory PubsubRouter
  imports PubsubMessage
begin

text \<open>
  options.go and router.go of package \<open>pubsub\<close>.  The options struct is private to the
  package, so its options are the constructors of \<open>pubsub_option\<close>.  The functions it holds
  (\<open>consumerNamer\<close>, \<open>now\<close>) are given by a number that names them; what a call returns is an
  argument where they are called.  Handlers are of an arbitrary type \<open>'h\<close>, nil as \<open>None\<close>.
\<close>

subsection \<open>Options\<close>

record retry_policy =
  rp_MaxDeliver :: int
  rp_Backoff :: "duration list"
  rp_IdleTimeout :: duration
  rp_ClaimInterval :: duration

record stream_policy =
  sp_Prefix :: string
  sp_MaxLen :: int
  sp_ApproxMaxLen :: bool
  sp_Block :: duration
  sp_ReadCount :: int

record dlq_policy =
  dp_Enabled :: bool
  dp_Suffix :: string

record pubsub_options =
  po_name :: string
  po_logger :: ptr
  po_retry :: retry_policy
  po_stream :: stream_policy
  po_dlq :: dlq_policy
  po_consumerNamer :: nat
  po_now :: nat
  po_telemetry :: ptr
  po_metrics :: ptr

definition pubsub_defaultOptions :: pubsub_options where
  "pubsub_defaultOptions =
     \<lparr>po_name = ''pubsub'', po_logger = None,
      po_retry = \<lparr>rp_MaxDeliver = 3, rp_Backoff = [second, 5 * second, 30 * second],
                  rp_IdleTimeout = 30 * second, rp_ClaimInterval = second\<rparr>,
      po_stream = \<lparr>sp_Prefix = ''wego:pubsub'', sp_MaxLen = 10000, sp_ApproxMaxLen = True,
                   sp_Block = second, sp_ReadCount = 16\<rparr>,
      po_dlq = \<lparr>dp_Enabled = True, dp_Suffix = '':dlq''\<rparr>,
      po_consumerNamer = 0, po_now = 0, po_telemetry = None, po_metrics = None\<rparr>"

datatype pubsub_option =
    P_WithTelemetry ptr ptr
  | P_WithName string
  | P_WithLogger ptr
  | P_WithRetryPolicy retry_policy
  | P_WithStreamPolicy stream_policy
  | P_WithDeadLetterPolicy dlq_policy
  | P_WithConsumerNamer "nat option"
  | P_WithNow "nat option"

definition merge_retry :: "retry_policy \<Rightarrow> retry_policy \<Rightarrow> retry_policy" where
  "merge_retry p q =
     \<lparr>rp_MaxDeliver = (if rp_MaxDeliver p > 0 then rp_MaxDeliver p else rp_MaxDeliver q),
      rp_Backoff = (if length (rp_Backoff p) > 0 then rp_Backoff p else rp_Backoff q),
      rp_IdleTimeout = (if rp_IdleTimeout p > 0 then rp_IdleTimeout p else rp_IdleTimeout q),
      rp_ClaimInterval = (if rp_ClaimInterval p > 0 then rp_ClaimInterval p else rp_ClaimInterval q)\<rparr>"

definition merge_stream :: "stream_policy \<Rightarrow> stream_policy \<Rightarrow> stream_policy" where
  "merge_stream p q =
     \<lparr>sp_Prefix = (if TrimSpace (sp_Prefix p) \<noteq> [] then TrimSpace (sp_Prefix p) else sp_Prefix q),
      sp_MaxLen = (if sp_MaxLen p > 0 then sp_MaxLen p else sp_MaxLen q),
      sp_ApproxMaxLen = sp_ApproxMaxLen p,
      sp_Block = (if sp_Block p > 0 then sp_Block p else sp_Block q),
      sp_ReadCount = (if sp_ReadCount p > 0 then sp_ReadCount p else sp_ReadCount q)\<rparr>"

fun apply_pubsub_option :: "pubsub_option \<Rightarrow> pubsub_options \<Rightarrow> pubsub_options" where
  "apply_pubsub_option (P_WithTelemetry rt ms) po = po\<lparr>po_telemetry := rt, po_metrics := ms\<rparr>"
| "apply_pubsub_option (P_WithName name) po =
     (if TrimSpace name \<noteq> [] then po\<lparr>po_name := TrimSpace name\<rparr> else po)"
| "apply_pubsub_option (P_WithLogger l) po = (if l \<noteq> None then po\<lparr>po_logger := l\<rparr> else po)"
| "apply_pubsub_option (P_WithRetryPolicy policy) po = po\<lparr>po_retry := merge_retry policy (po_retry po)\<rparr>"
| "apply_pubsub_option (P_WithStreamPolicy policy) po = po\<lparr>po_stream := merge_stream policy (po_stream po)\<rparr>"
| "apply_pubsub_option (P_WithDeadLetterPolicy policy) po =
     po\<lparr>po_dlq := \<lparr>dp_Enabled = dp_Enabled policy,
         dp_Suffix = (if dp_Suffix policy \<noteq> [] then dp_Suffix policy else dp_Suffix (po_dlq po))\<rparr>\<rparr>"
| "apply_pubsub_option (P_WithConsumerNamer fn) po =
     (case fn of None \<Rightarrow> po | Some f \<Rightarrow> po\<lparr>po_consumerNamer := f\<rparr>)"
| "apply_pubsub_option (P_WithNow fn) po = (case fn of None \<Rightarrow> po | Some f \<Rightarrow> po\<lparr>po_now := f\<rparr>)"

text \<open>What the loops and the store rely on.\<close>

definition retry_policy_ok :: "retry_policy \<Rightarrow> bool" where
  "retry_policy_ok p \<longleftrightarrow>
     0 < rp_MaxDeliver p \<and> rp_Backoff p \<noteq> [] \<and> 0 < rp_IdleTimeout p \<and> 0 < rp_ClaimInterval p"

definition pubsub_options_ok :: "pubsub_options \<Rightarrow> bool" where
  "pubsub_options_ok po \<longleftrightarrow>
     po_name po \<noteq> [] \<and> retry_policy_ok (po_retry po)
     \<and> sp_Prefix (po_stream po) \<noteq> [] \<and> 0 < sp_MaxLen (po_stream po) \<and> 0 < sp_Block (po_stream po)
     \<and> 0 < sp_ReadCount (po_stream po) \<and> dp_Suffix (po_dlq po) \<noteq> []"

lemma merge_retry_ok: "retry_policy_ok q \<Longrightarrow> retry_policy_ok (merge_retry p q)"
  by (auto simp: retry_policy_ok_def merge_retry_def)

lemma pubsub_default_ok: "pubsub_options_ok pubsub_defaultOptions"
  by (simp add: pubsub_options_ok_def pubsub_defaultOptions_def retry_policy_ok_def)

lemma apply_pubsub_option_ok: "pubsub_options_ok po \<Longrightarrow> pubsub_options_ok (apply_pubsub_option p po)"
  by (cases p) (auto simp: pubsub_options_ok_def merge_stream_def merge_retry_ok split: option.splits)

interpretation pubsub_opts: option_family apply_pubsub_option pubsub_options_ok
  by unfold_locales (rule apply_pubsub_option_ok)

subsection \<open>Retry delays\<close>

definition pubsub_retryDelay :: "retry_policy \<Rightarrow> int \<Rightarrow> duration" where
  "pubsub_retryDelay policy attempt =
     (if attempt \<le> 1 then 0
      else if length (rp_Backoff policy) = 0 then 0
      else
        (let index0 = attempt - 2;
             index = (if index0 < 0 then 0 else index0)
         in if index \<ge> int (length (rp_Backoff policy))
            then rp_Backoff policy ! (length (rp_Backoff policy) - 1)
            else rp_Backoff policy ! nat index))"

interpretation pubsub_backoff: backoff rp_Backoff 2 pubsub_retryDelay
  by unfold_locales (auto simp: pubsub_retryDelay_def last_conv_nth Let_def)

subsection \<open>Subscriptions\<close>

record 'h subscription =
  s_Topic :: string
  s_Group :: string
  s_Consumer :: string
  s_Concurrency :: int
  s_Handler :: "'h option"
  s_Retry :: retry_policy

record 'h router =
  rt_started :: bool
  rt_subs :: "string \<rightharpoonup> 'h subscription"

definition effectiveRetry :: "'h subscription \<Rightarrow> retry_policy \<Rightarrow> retry_policy" where
  "effectiveRetry sub defaults = merge_retry (s_Retry sub) defaults"

definition normalizeTopic :: "string \<Rightarrow> string" where
  "normalizeTopic topic = TrimSpace (ToLower topic)"

definition normalizeGroup :: "string \<Rightarrow> string" where
  "normalizeGroup grp = TrimSpace (ToLower grp)"

definition subscriptionKey :: "string \<Rightarrow> string \<Rightarrow> string" where
  "subscriptionKey topic grp = normalizeTopic topic @ ''::'' @ normalizeGroup grp"

definition subscription_Validate :: "'h subscription \<Rightarrow> error option" where
  "subscription_Validate s =
     (if normalizeTopic (s_Topic s) = [] \<or> normalizeGroup (s_Group s) = [] then Some ErrInvalidSubscription
      else if s_Handler s = None then Some ErrHandlerRequired
      else None)"

definition NewRouter :: "'h router" where
  "NewRouter = \<lparr>rt_started = False, rt_subs = Map.empty\<rparr>"

text \<open>The entry \<open>Add\<close> stores.\<close>

definition added :: "'h subscription \<Rightarrow> 'h subscription" where
  "added sub = sub
     \<lparr>s_Concurrency := (if s_Concurrency sub \<le> 0 then 1 else s_Concurrency sub),
      s_Consumer := (if TrimSpace (s_Consumer sub) = [] then [] else s_Consumer sub),
      s_Topic := normalizeTopic (s_Topic sub), s_Group := normalizeGroup (s_Group sub)\<rparr>"

definition Add :: "'h router \<Rightarrow> 'h subscription \<Rightarrow> error option \<times> 'h router" where
  "Add r sub =
     (case subscription_Validate sub of
        Some e \<Rightarrow> (Some e, r)
      | None \<Rightarrow>
          if rt_started r then (Some ErrServiceStarted, r)
          else
            (let key = subscriptionKey (s_Topic sub) (s_Group sub) in
             if rt_subs r key \<noteq> None then (Some (Wrap [] ErrDuplicateSubscription ('': '' @ key)), r)
             else (None, r\<lparr>rt_subs := (rt_subs r)(key \<mapsto> added sub)\<rparr>)))"

text \<open>\<open>List\<close> ranges over the map in the order \<open>ks\<close> the runtime picks for its keys.\<close>

definition router_List :: "'h router \<Rightarrow> string list \<Rightarrow> 'h subscription list" where
  "router_List r ks = map (\<lambda>k. the (rt_subs r k)) ks"

definition range_order :: "('k \<rightharpoonup> 'v) \<Rightarrow> 'k list \<Rightarrow> bool" where
  "range_order m ks \<longleftrightarrow> distinct ks \<and> set ks = dom m"

definition Freeze :: "'h router \<Rightarrow> 'h router" where
  "Freeze r = r\<lparr>rt_started := True\<rparr>"

subsection \<open>The table of subscriptions\<close>

interpretation topic_norm: normaliser normalizeTopic
  by unfold_locales (simp add: normalizeTopic_def TrimSpace_ToLower)

interpretation group_norm: normaliser normalizeGroup
  by unfold_locales (simp add: normalizeGroup_def TrimSpace_ToLower)

definition sub_ok :: "'h subscription \<Rightarrow> bool" where
  "sub_ok s \<longleftrightarrow>
     topic_norm.normal (s_Topic s) \<and> s_Topic s \<noteq> [] \<and> group_norm.normal (s_Group s) \<and> s_Group s \<noteq> []
     \<and> 1 \<le> s_Concurrency s \<and> s_Handler s \<noteq> None \<and> (TrimSpace (s_Consumer s) = [] \<longrightarrow> s_Consumer s = [])"

definition router_ok :: "'h router \<Rightarrow> bool" where
  "router_ok r \<longleftrightarrow>
     (\<forall>k s. rt_subs r k = Some s \<longrightarrow> sub_ok s \<and> k = subscriptionKey (s_Topic s) (s_Group s))"

lemma subscriptionKey_norm [simp]:
  "subscriptionKey (normalizeTopic t) (normalizeGroup g) = subscriptionKey t g"
  by (simp add: subscriptionKey_def)

lemma added_ok:
  assumes "subscription_Validate sub = None"
  shows "sub_ok (added sub)" "subscriptionKey (s_Topic (added sub)) (s_Group (added sub)) = subscriptionKey (s_Topic sub) (s_Group sub)"
  using assms by (auto simp: sub_ok_def added_def subscription_Validate_def split: if_splits)

lemma Add_ok: "router_ok r \<Longrightarrow> router_ok (snd (Add r sub))"
  using added_ok [of sub] by (auto simp: Add_def router_ok_def Let_def split: option.splits)

lemma router_new_ok: "router_ok NewRouter"
  by (simp add: router_ok_def NewRouter_def)

definition add_all :: "'h subscription list \<Rightarrow> 'h router \<Rightarrow> 'h router" where
  "add_all subs r = fold (\<lambda>s r. snd (Add r s)) subs r"

lemma add_all_ok: "router_ok r \<Longrightarrow> router_ok (add_all subs r)"
  unfolding add_all_def by (induction subs arbitrary: r) (auto intro: Add_ok)

lemma Add_started [simp]: "rt_started (snd (Add r sub)) = rt_started r"
  by (auto simp: Add_def Let_def split: option.splits)

lemma Add_subs:
  "rt_subs (snd (Add r sub)) k =
     (if subscription_Validate sub = None \<and> \<not> rt_started r \<and> rt_subs r k = None
         \<and> k = subscriptionKey (s_Topic sub) (s_Group sub)
      then Some (added sub) else rt_subs r k)"
  by (auto simp: Add_def Let_def split: option.splits)

text \<open>
  After any registrations the router holds, under each key, the first valid subscription
  of that key, normalised and completed (a concurrency of at least one, no blank consumer
  name); later ones of the same key and invalid ones change nothing, and every entry is
  well-formed.
\<close>

theorem router_first_valid:
  "rt_subs (add_all subs NewRouter) k =
     map_option added (find (\<lambda>s. subscription_Validate s = None \<and> subscriptionKey (s_Topic s) (s_Group s) = k) subs)
   \<and> router_ok (add_all subs NewRouter)"
proof
  have "rt_subs (fold (\<lambda>s r. snd (Add r s)) subs r) k =
      (case rt_subs r k of
         Some x \<Rightarrow> Some x
       | None \<Rightarrow> map_option added (find (\<lambda>s. subscription_Validate s = None \<and> subscriptionKey (s_Topic s) (s_Group s) = k) subs))"
    if "\<not> rt_started r" for r
    using that by (induction subs arbitrary: r) (auto simp: Add_subs split: option.splits)
  from this [of NewRouter] show "rt_subs (add_all subs NewRouter) k =
     map_option added (find (\<lambda>s. subscription_Validate s = None \<and> subscriptionKey (s_Topic s) (s_Group s) = k) subs)"
    by (simp add: add_all_def NewRouter_def)
  show "router_ok (add_all subs NewRouter)" by (rule add_all_ok [OF router_new_ok])
qed

text \<open>
  The outcome of \<open>Add\<close>: an invalid subscription, one without a handler, one added after
  the start and one whose key is taken are refused, each with its error, and leave the router
  as it was; after a success the subscription is found under every spelling of its topic and
  group and nothing else has changed.
\<close>

theorem Add_outcome:
  "case Add r sub of
     (None, r') \<Rightarrow>
       subscription_Validate sub = None \<and> \<not> rt_started r \<and> rt_started r' = rt_started r
       \<and> rt_subs r (subscriptionKey (s_Topic sub) (s_Group sub)) = None
       \<and> rt_subs r' = (rt_subs r)(subscriptionKey (s_Topic sub) (s_Group sub) \<mapsto> added sub)
       \<and> rt_subs r' (subscriptionKey (normalizeTopic (s_Topic sub)) (normalizeGroup (s_Group sub))) = Some (added sub)
   | (Some e, r') \<Rightarrow>
       r' = r
       \<and> (if subscription_Validate sub \<noteq> None then Some e = subscription_Validate sub
          else if rt_started r then e = ErrServiceStarted
          else errors_Is e ErrDuplicateSubscription
            \<and> rt_subs r (subscriptionKey (s_Topic sub) (s_Group sub)) \<noteq> None)"
  by (auto simp: Add_def Let_def split: option.splits)

text \<open>
  Keys tell subscriptions apart as long as no topic has a colon in it.  With colons they
  do not: topic \<open>a::b\<close> with group \<open>c\<close> and topic \<open>a\<close> with group \<open>b::c\<close> have one key, so the
  second of them is refused as a duplicate.
\<close>

theorem subscriptionKey_separates:
  assumes "CHR '':'' \<notin> set (normalizeTopic t)" "CHR '':'' \<notin> set (normalizeTopic u)"
  shows "(subscriptionKey t g = subscriptionKey u h \<longleftrightarrow>
      normalizeTopic t = normalizeTopic u \<and> normalizeGroup g = normalizeGroup h)
    \<and> subscriptionKey ''a::b'' ''c'' = subscriptionKey ''a'' ''b::c''"
proof -
  have tw: "takeWhile (\<lambda>c. c \<noteq> CHR '':'') (x @ ''::'' @ y) = x" if "CHR '':'' \<notin> set x" for x y
    using that by (induction x) auto
  have "normalizeTopic t = normalizeTopic u \<and> normalizeGroup g = normalizeGroup h"
    if "subscriptionKey t g = subscriptionKey u h"
    using that tw [OF assms(1), of "normalizeGroup g"] tw [OF assms(2), of "normalizeGroup h"]
    by (simp add: subscriptionKey_def)
  moreover have "subscriptionKey ''a::b'' ''c'' = subscriptionKey ''a'' ''b::c''" by code_simp
  ultimately show ?thesis by (auto simp: subscriptionKey_def)
qed

lemma subscriptionKey_separates_witness:
  "subscriptionKey '' Orders'' ''billing'' \<noteq> subscriptionKey ''orders'' ''shipping''"
proof -
  have "CHR '':'' \<notin> set (normalizeTopic '' Orders'')" "CHR '':'' \<notin> set (normalizeTopic ''orders'')"
      "normalizeGroup ''billing'' \<noteq> normalizeGroup ''shipping''"
    by code_simp+
  then show ?thesis using subscriptionKey_separates by blast
qed

end
