(* ===== verification/PubsubStore.thy ===== *)
theory PubsubStore
  imports PubsubRouter
begin

text \<open>
  store.go of package \<open>pubsub\<close>: publishing, reading, acknowledging, claiming, and the three
  Lua scripts that schedule a retry, move an entry to the dead-letter stream and promote the
  due retries.  A store has a Redis client or none, its options and its codec.  The clock of
  \<open>s.opts.now()\<close> is an argument.
\<close>

subsection \<open>Keys\<close>

record 'r store =
  st_rdb :: "'r redis option"
  st_opts :: pubsub_options
  st_codec :: pubsub_codec

definition streamKey :: "pubsub_options \<Rightarrow> string \<Rightarrow> string" where
  "streamKey opts topic = sp_Prefix (po_stream opts) @ '':'' @ normalizeTopic topic"

definition dlqKey :: "pubsub_options \<Rightarrow> string \<Rightarrow> string" where
  "dlqKey opts topic = streamKey opts topic @ dp_Suffix (po_dlq opts)"

definition retryKey :: "pubsub_options \<Rightarrow> string \<Rightarrow> string \<Rightarrow> string" where
  "retryKey opts topic grp = streamKey opts topic @ '':retry:'' @ normalizeGroup grp"

subsection \<open>The scripts\<close>

text \<open>
  KEYS and ARGV are the arguments.  An argument that is nil raises an error in \<open>redis.call\<close>.
\<close>

definition retryAndAckScript ::
  "'r redis \<Rightarrow> string \<Rightarrow> string \<Rightarrow> int \<Rightarrow> string \<Rightarrow> string \<Rightarrow> string \<Rightarrow> ('r, error, int) op" where
  "retryAndAckScript rd retry stream score payload grp i =
     op_then (rd_zadd rd retry score payload) (\<lambda>_. rd_xack rd stream grp [i])"

definition dlqAndAckScript ::
  "'r redis \<Rightarrow> string \<Rightarrow> string \<Rightarrow> string \<Rightarrow> string \<Rightarrow> fields \<Rightarrow> ('r, error, string) op" where
  "dlqAndAckScript rd dlq stream grp i vals =
     op_then (rd_xadd rd dlq vals None) (\<lambda>new.
     op_then (rd_xack rd stream grp [i]) (\<lambda>_. op_return new))"

definition lua_arg :: "string option \<Rightarrow> error + string" where
  "lua_arg v = (case v of
     None \<Rightarrow> Inl (Errs ''Lua redis lib command arguments must be strings or integers'')
   | Some s \<Rightarrow> Inr s)"

definition or_empty :: "string option \<Rightarrow> string" where
  "or_empty v = (case v of None \<Rightarrow> [] | Some s \<Rightarrow> s)"

text \<open>One turn of the loop of \<open>retryPromoteScript\<close>: the fields of the new entry, and the turn.\<close>

definition promoted_fields :: "pubsub_codec \<Rightarrow> string \<Rightarrow> error + fields" where
  "promoted_fields pc raw =
     (case pc_lua_decode pc raw of
        Inl e \<Rightarrow> Inl e
      | Inr item \<Rightarrow>
          (let hs = pc_lua_encode pc (case li_headers item of None \<Rightarrow> Some Map.empty | Some h \<Rightarrow> h) in
           case lua_arg (li_published_at item) of Inl e \<Rightarrow> Inl e | Inr published_at \<Rightarrow>
          (case lua_arg (li_max_deliver item) of Inl e \<Rightarrow> Inl e | Inr max_deliver \<Rightarrow>
          (case lua_arg (li_attempt item) of Inl e \<Rightarrow> Inl e | Inr attempt \<Rightarrow>
             Inr [fieldKey \<mapsto> or_empty (li_key item), fieldType \<mapsto> or_empty (li_type item),
                  fieldData \<mapsto> or_empty (li_data item), fieldHeaders \<mapsto> hs,
                  fieldPublishedAt \<mapsto> published_at, fieldMaxDeliver \<mapsto> max_deliver,
                  fieldAttempt \<mapsto> attempt]))))"

definition promote_one ::
  "'r redis \<Rightarrow> pubsub_codec \<Rightarrow> string \<Rightarrow> string \<Rightarrow> string \<Rightarrow> ('r, error, int) op" where
  "promote_one rd pc retry stream raw =
     (case promoted_fields pc raw of
        Inl e \<Rightarrow> op_raise e
      | Inr vals \<Rightarrow> op_then (rd_xadd rd stream vals None) (\<lambda>_. rd_zrem rd retry raw))"

fun promote_all ::
  "'r redis \<Rightarrow> pubsub_codec \<Rightarrow> string \<Rightarrow> string \<Rightarrow> string list \<Rightarrow> int \<Rightarrow> ('r, error, int) op" where
  "promote_all rd pc retry stream [] promoted = op_return promoted"
| "promote_all rd pc retry stream (raw # items) promoted =
     op_then (promote_one rd pc retry stream raw) (\<lambda>_.
       promote_all rd pc retry stream items (promoted + 1))"

definition retryPromoteScript ::
  "'r redis \<Rightarrow> pubsub_codec \<Rightarrow> string \<Rightarrow> string \<Rightarrow> int \<Rightarrow> int \<Rightarrow> ('r, error, int) op" where
  "retryPromoteScript rd pc retry stream now limit =
     op_then (rd_zrangebyscore rd retry now limit) (\<lambda>items.
       promote_all rd pc retry stream items 0)"

subsection \<open>Operations\<close>

fun contains :: "string \<Rightarrow> string \<Rightarrow> bool" where
  "contains [] sub = prefix sub []"
| "contains (c # s) sub = (prefix sub (c # s) \<or> contains s sub)"

definition EnsureGroup :: "'r store \<Rightarrow> string \<Rightarrow> string \<Rightarrow> 'r conn \<Rightarrow> error option \<times> 'r conn" where
  "EnsureGroup s topic grp c =
     (case st_rdb s of
        None \<Rightarrow> (Some ErrRedisNotConfigured, c)
      | Some rd \<Rightarrow>
          (case rpc (rd_xgroup_create rd (streamKey (st_opts s) topic) grp ''0'') c of
             (Inr _, c') \<Rightarrow> (None, c')
           | (Inl err, c') \<Rightarrow> if contains (Error err) ''BUSYGROUP'' then (None, c') else (Some err, c')))"

definition publishAttempt ::
  "'r store \<Rightarrow> string \<Rightarrow> message \<Rightarrow> int \<Rightarrow> go_time \<Rightarrow> ('r conn, error, string) op" where
  "publishAttempt s topic msg attempt now c =
     (case st_rdb s of
        None \<Rightarrow> (Inl ErrRedisNotConfigured, c)
      | Some rd \<Rightarrow>
          (case messageFieldsWithAttempt (st_codec s) msg now (rp_MaxDeliver (po_retry (st_opts s))) attempt of
             Inl e \<Rightarrow> (Inl e, c)
           | Inr fs \<Rightarrow>
               (let stream = po_stream (st_opts s);
                    maxlen = (if sp_MaxLen stream > 0 then Some (sp_MaxLen stream, sp_ApproxMaxLen stream) else None)
                in rpc (rd_xadd rd (streamKey (st_opts s) topic) fs maxlen) c)))"

definition store_Publish :: "'r store \<Rightarrow> string \<Rightarrow> message \<Rightarrow> go_time \<Rightarrow> ('r conn, error, string) op" where
  "store_Publish s topic msg now = publishAttempt s topic msg 1 now"

text \<open>
  The entries of a reply, stream by stream.  The values of a message are strings, of which
  \<open>fmt.Sprint\<close> makes the same string.
\<close>

definition toStringMap :: "fields \<Rightarrow> fields" where
  "toStringMap vals = (\<lambda>key. case vals key of None \<Rightarrow> None | Some v \<Rightarrow> Some v)"

fun flattenEntries :: "(string \<times> entry list) list \<Rightarrow> entry list" where
  "flattenEntries [] = []"
| "flattenEntries ((stream, messages) # streams) =
     map (\<lambda>msg. \<lparr>e_ID = e_ID msg, e_Values = toStringMap (e_Values msg)\<rparr>) messages @ flattenEntries streams"

lemma toStringMap_id [simp]: "toStringMap vals = vals"
  by (auto simp: toStringMap_def split: option.splits)

lemma flattenEntries_one [simp]: "flattenEntries [(stream, messages)] = messages"
  by (simp, rule map_idI, simp)

declare flattenEntries.simps [simp del]

definition ReadGroup :: "'r store \<Rightarrow> 'h subscription \<Rightarrow> string \<Rightarrow> ('r conn, error, entry list) op" where
  "ReadGroup s sub consumer c =
     (case st_rdb s of
        None \<Rightarrow> (Inl ErrRedisNotConfigured, c)
      | Some rd \<Rightarrow>
          (case rpc (rd_xreadgroup rd (streamKey (st_opts s) (s_Topic sub)) (s_Group sub) consumer
                  (sp_ReadCount (po_stream (st_opts s))) (sp_Block (po_stream (st_opts s)))) c of
             (Inl e, c') \<Rightarrow> (if errors_Is e RedisNil then Inr [] else Inl e, c')
           | (Inr es, c') \<Rightarrow> (Inr (flattenEntries [(streamKey (st_opts s) (s_Topic sub), es)]), c')))"

definition Ack :: "'r store \<Rightarrow> string \<Rightarrow> string \<Rightarrow> string list \<Rightarrow> 'r conn \<Rightarrow> error option \<times> 'r conn" where
  "Ack s topic grp ids c =
     (case st_rdb s of
        None \<Rightarrow> (Some ErrRedisNotConfigured, c)
      | Some rd \<Rightarrow>
          if ids = [] then (None, c)
          else
            (case rpc (rd_xack rd (streamKey (st_opts s) topic) grp ids) c of
               (Inl e, c') \<Rightarrow> (Some e, c')
             | (Inr _, c') \<Rightarrow> (None, c')))"

text \<open>The retry count of a pending entry; 0 when it is not pending.\<close>

definition pendingRetryCount ::
  "'r redis \<Rightarrow> pubsub_options \<Rightarrow> string \<Rightarrow> string \<Rightarrow> string \<Rightarrow> ('r conn, error, int) op" where
  "pendingRetryCount rd opts topic grp i c =
     (case rpc (rd_xpending rd (streamKey opts topic) grp i) c of
        (Inl e, c') \<Rightarrow> (Inl e, c')
      | (Inr None, c') \<Rightarrow> (Inr 0, c')
      | (Inr (Some n), c') \<Rightarrow> (Inr n, c'))"

fun claim_entries ::
  "'r redis \<Rightarrow> pubsub_options \<Rightarrow> 'h subscription \<Rightarrow> entry list \<Rightarrow> 'r conn \<Rightarrow> entry list \<times> 'r conn" where
  "claim_entries rd opts sub [] c = ([], c)"
| "claim_entries rd opts sub (msg # msgs) c =
     (case pendingRetryCount rd opts (s_Topic sub) (s_Group sub) (e_ID msg) c of
        (res, c1) \<Rightarrow>
          (let vs0 = toStringMap (e_Values msg);
               vs = (case res of
                       Inr retryCount \<Rightarrow> if retryCount > 0 then vs0(fieldAttempt \<mapsto> Itoa retryCount) else vs0
                     | Inl _ \<Rightarrow> vs0)
           in case claim_entries rd opts sub msgs c1 of
                (es, c2) \<Rightarrow> (\<lparr>e_ID = e_ID msg, e_Values = vs\<rparr> # es, c2)))"

definition AutoClaim ::
  "'r store \<Rightarrow> 'h subscription \<Rightarrow> string \<Rightarrow> string \<Rightarrow> int \<Rightarrow> 'r conn
     \<Rightarrow> (entry list \<times> string \<times> error option) \<times> 'r conn" where
  "AutoClaim s sub consumer start0 cnt c =
     (case st_rdb s of
        None \<Rightarrow> (([], start0, Some ErrRedisNotConfigured), c)
      | Some rd \<Rightarrow>
          (let start = (if start0 = [] then ''0-0'' else start0) in
           case rpc (rd_xautoclaim rd (streamKey (st_opts s) (s_Topic sub)) (s_Group sub) consumer
                  (rp_IdleTimeout (effectiveRetry sub (po_retry (st_opts s)))) start cnt) c of
             (Inl e, c1) \<Rightarrow> (([], start, if errors_Is e RedisNil then None else Some e), c1)
           | (Inr (msgs, next), c1) \<Rightarrow>
               (case claim_entries rd (st_opts s) sub msgs c1 of
                  (es, c2) \<Rightarrow> ((es, next, None), c2))))"

definition dlq_values :: "pubsub_codec \<Rightarrow> delivery \<Rightarrow> string \<Rightarrow> fields" where
  "dlq_values pc dl reason =
     [fieldKey \<mapsto> m_Key (dl_Message dl), fieldType \<mapsto> m_Type (dl_Message dl),
      fieldData \<mapsto> m_Data (dl_Message dl), fieldHeaders \<mapsto> field (dl_Raw dl) fieldHeaders,
      fieldPublishedAt \<mapsto> pc_format pc (dl_PublishedAt dl),
      fieldMaxDeliver \<mapsto> Itoa (m_MaxDeliver (dl_Message dl)), fieldAttempt \<mapsto> Itoa (dl_Attempt dl),
      ''reason'' \<mapsto> reason, ''source_id'' \<mapsto> dl_ID dl, ''source_group'' \<mapsto> dl_Group dl]"

definition MoveToDLQ ::
  "'r store \<Rightarrow> string \<Rightarrow> delivery option \<Rightarrow> string \<Rightarrow> ('r conn, error, string) op" where
  "MoveToDLQ s topic dlp reason c =
     (case st_rdb s of
        None \<Rightarrow> (Inl ErrRedisNotConfigured, c)
      | Some rd \<Rightarrow>
          (case dlp of
             None \<Rightarrow> (Inl ErrInvalidMessage, c)
           | Some dl \<Rightarrow>
               rpc (dlqAndAckScript rd (dlqKey (st_opts s) topic) (streamKey (st_opts s) topic)
                      (dl_Group dl) (dl_ID dl) (dlq_values (st_codec s) dl reason)) c))"

definition retry_envelope :: "string \<Rightarrow> delivery \<Rightarrow> int \<Rightarrow> retryEnvelope" where
  "retry_envelope topic dl nextAttempt =
     \<lparr>re_Topic = normalizeTopic topic, re_Group = normalizeGroup (dl_Group dl),
      re_Key = m_Key (dl_Message dl), re_Type = m_Type (dl_Message dl), re_Data = m_Data (dl_Message dl),
      re_Headers = m_Headers (dl_Message dl), re_MaxDeliver = m_MaxDeliver (dl_Message dl),
      re_Attempt = nextAttempt, re_PublishedAt = dl_PublishedAt dl\<rparr>"

definition ScheduleRetry ::
  "'r store \<Rightarrow> string \<Rightarrow> delivery option \<Rightarrow> go_time \<Rightarrow> int \<Rightarrow> 'r conn \<Rightarrow> error option \<times> 'r conn" where
  "ScheduleRetry s topic dlp dueAt nextAttempt c =
     (case st_rdb s of
        None \<Rightarrow> (Some ErrRedisNotConfigured, c)
      | Some rd \<Rightarrow>
          (case dlp of
             None \<Rightarrow> (Some ErrInvalidMessage, c)
           | Some dl \<Rightarrow>
               if nextAttempt \<le> 0 \<or> dueAt = 0 then (Some ErrInvalidMessage, c)
               else
                 (case pc_marshal_envelope (st_codec s) (retry_envelope topic dl nextAttempt) of
                    Inl e \<Rightarrow> (Some e, c)
                  | Inr payload \<Rightarrow>
                      (case rpc (retryAndAckScript rd (retryKey (st_opts s) topic (dl_Group dl))
                              (streamKey (st_opts s) topic) (UnixMilli dueAt) payload (dl_Group dl) (dl_ID dl)) c of
                         (Inl e, c') \<Rightarrow> (Some e, c')
                       | (Inr _, c') \<Rightarrow> (None, c')))))"

definition PromoteDueRetries ::
  "'r store \<Rightarrow> string \<Rightarrow> string \<Rightarrow> int \<Rightarrow> go_time \<Rightarrow> ('r conn, error, int) op" where
  "PromoteDueRetries s topic grp limit0 now c =
     (case st_rdb s of
        None \<Rightarrow> (Inl ErrRedisNotConfigured, c)
      | Some rd \<Rightarrow>
          (let limit = (if limit0 \<le> 0 then 1 else limit0) in
           case rpc (retryPromoteScript rd (st_codec s) (retryKey (st_opts s) topic grp)
                  (streamKey (st_opts s) topic) (UnixMilli now) limit) c of
             (Inl e, c') \<Rightarrow> (if errors_Is e RedisNil then Inr 0 else Inl e, c')
           | (Inr n, c') \<Rightarrow> (Inr n, c')))"

definition PublishRetry :: "'r store \<Rightarrow> retryEnvelope \<Rightarrow> go_time \<Rightarrow> ('r conn, error, string) op" where
  "PublishRetry s envelope now =
     publishAttempt s (re_Topic envelope)
       \<lparr>m_Key = re_Key envelope, m_Type = re_Type envelope, m_Data = re_Data envelope,
        m_Headers = re_Headers envelope, m_MaxDeliver = re_MaxDeliver envelope, m_ScheduledAt = 0\<rparr>
       (re_Attempt envelope) now"

end
