(* ===== verification/PubsubService.thy ===== *)
theory PubsubService
  imports PubsubStore
begin

text \<open>
  service.go of package \<open>pubsub\<close>: publishing, the start of the workers, the turns of their
  loops and the handling of an entry.  A handler is a function on the delivery and on a world
  \<open>'w\<close> of its own; it gets a pointer to the delivery and can change it, so it returns the
  delivery as it leaves it.  Tracing (the propagator that writes and reads headers) is a parameter;
  metrics and log lines are not modelled, log lines that carry an error are returned.
\<close>

subsection \<open>Construction and publishing\<close>

type_synonym 'w handle = "delivery \<Rightarrow> 'w \<Rightarrow> (error option \<times> delivery) \<times> 'w"

record ('r, 'w) pubsub_service =
  ps_store :: "'r store"
  ps_router :: "'w handle router"
  ps_started :: bool

definition pubsub_NewService ::
  "(string \<Rightarrow> nat) \<Rightarrow> pubsub_codec \<Rightarrow> 'r redis option \<Rightarrow> pubsub_option list \<Rightarrow> ('r, 'w) pubsub_service" where
  "pubsub_NewService getLogger pc rdb opts =
     (let o1 = fold apply_pubsub_option opts pubsub_defaultOptions;
          o2 = (if po_logger o1 = None then o1\<lparr>po_logger := Some (getLogger (po_name o1))\<rparr> else o1)
      in \<lparr>ps_store = \<lparr>st_rdb = rdb, st_opts = o2, st_codec = pc\<rparr>, ps_router = NewRouter, ps_started = False\<rparr>)"

definition cloneHeaders :: "headers \<Rightarrow> headers" where
  "cloneHeaders h = Some (case h of None \<Rightarrow> Map.empty | Some m \<Rightarrow> m)"

definition pubsub_Publish ::
  "((string \<rightharpoonup> string) \<Rightarrow> (string \<rightharpoonup> string)) \<Rightarrow> ('r, 'w) pubsub_service \<Rightarrow> string \<Rightarrow> message \<Rightarrow> go_time
     \<Rightarrow> ('r conn, error, string) op" where
  "pubsub_Publish inject s topic msg now c =
     (if normalizeTopic topic = [] then (Inl ErrInvalidTopic, c)
      else
        (let msg1 = msg\<lparr>m_Headers := map_option inject (cloneHeaders (m_Headers msg))\<rparr>
         in store_Publish (ps_store s) topic msg1 now c))"

definition Subscribe ::
  "('r, 'w) pubsub_service \<Rightarrow> 'w handle subscription \<Rightarrow> error option \<times> ('r, 'w) pubsub_service" where
  "Subscribe s sub =
     (if ps_started s then (Some ErrServiceStarted, s)
      else (case Add (ps_router s) sub of (e, r) \<Rightarrow> (e, s\<lparr>ps_router := r\<rparr>)))"

subsection \<open>Handling an entry\<close>

text \<open>What became of an entry, with the error of the store where it had one.\<close>

datatype handled =
    Undecodable "error option"
  | Acked "error option"
  | Dropped "error option"
  | Retried "error option"
  | DeadLettered "error option"
  | NilHandlerPanic

definition left_error :: "error + 'a \<Rightarrow> error option" where
  "left_error r = (case r of Inl e \<Rightarrow> Some e | Inr _ \<Rightarrow> None)"

text \<open>
  \<open>handle_failed\<close> is the branch after a handler's error.  The instant \<open>now\<close> is that of
  \<open>s.opts.now()\<close>.
\<close>

definition handle_failed ::
  "'r store \<Rightarrow> 'h subscription \<Rightarrow> delivery \<Rightarrow> go_time \<Rightarrow> 'r conn \<Rightarrow> handled \<times> 'r conn" where
  "handle_failed st sub dl now c =
     (let nextAttempt = wrap64 (dl_Attempt dl + 1);
          retry = effectiveRetry sub (po_retry (st_opts st)) in
      if nextAttempt > m_MaxDeliver (dl_Message dl)
      then
        (if dp_Enabled (po_dlq (st_opts st))
         then (case MoveToDLQ st (s_Topic sub) (Some dl) ''max delivery exceeded'' c of
                 (res, c') \<Rightarrow> (DeadLettered (left_error res), c'))
         else (case Ack st (s_Topic sub) (s_Group sub) [dl_ID dl] c of (e, c') \<Rightarrow> (Dropped e, c')))
      else
        (case ScheduleRetry st (s_Topic sub) (Some dl) (now + pubsub_retryDelay retry nextAttempt) nextAttempt c of
           (e, c') \<Rightarrow> (Retried e, c')))"

definition with_max_deliver :: "retry_policy \<Rightarrow> delivery \<Rightarrow> delivery" where
  "with_max_deliver retry dl =
     (if m_MaxDeliver (dl_Message dl) \<le> 0
      then dl\<lparr>dl_Message := (dl_Message dl)\<lparr>m_MaxDeliver := rp_MaxDeliver retry\<rparr>\<rparr> else dl)"

definition handleEntry ::
  "'r store \<Rightarrow> 'w handle subscription \<Rightarrow> string \<Rightarrow> entry \<Rightarrow> go_time \<Rightarrow> 'w \<times> 'r conn
     \<Rightarrow> handled \<times> ('w \<times> 'r conn)" where
  "handleEntry st sub consumer ent now s =
     (case decodeEntry (st_codec st) (s_Topic sub) (s_Group sub) consumer ent of
        Inl _ \<Rightarrow>
          (case Ack st (s_Topic sub) (s_Group sub) [e_ID ent] (snd s) of
             (e, c') \<Rightarrow> (Undecodable e, (fst s, c')))
      | Inr dl0 \<Rightarrow>
          (let dl = with_max_deliver (effectiveRetry sub (po_retry (st_opts st))) dl0 in
           if dl_Attempt dl > m_MaxDeliver (dl_Message dl) \<and> dp_Enabled (po_dlq (st_opts st))
           then
             (case MoveToDLQ st (s_Topic sub) (Some dl) ''max delivery exceeded'' (snd s) of
                (res, c') \<Rightarrow> (DeadLettered (left_error res), (fst s, c')))
           else
             (case s_Handler sub of
                None \<Rightarrow> (NilHandlerPanic, s)
              | Some h \<Rightarrow>
                  (case h dl (fst s) of
                     ((Some _, dl1), w') \<Rightarrow>
                       (case handle_failed st sub dl1 now (snd s) of (res, c') \<Rightarrow> (res, (w', c')))
                   | ((None, dl1), w') \<Rightarrow>
                       (case Ack st (s_Topic sub) (s_Group sub) [dl_ID dl1] (snd s) of
                          (e, c') \<Rightarrow> (Acked e, (w', c')))))))"

text \<open>The \<open>for\<close> over the entries a worker got; \<open>clock k\<close> is the clock at the \<open>k\<close>-th.\<close>

fun handle_all ::
  "'r store \<Rightarrow> 'w handle subscription \<Rightarrow> string \<Rightarrow> (nat \<Rightarrow> go_time) \<Rightarrow> entry list \<Rightarrow> 'w \<times> 'r conn \<Rightarrow> 'w \<times> 'r conn" where
  "handle_all st sub consumer clock [] s = s"
| "handle_all st sub consumer clock (ent # es) s =
     handle_all st sub consumer (\<lambda>k. clock (Suc k)) es (snd (handleEntry st sub consumer ent (clock 0) s))"

subsection \<open>The loops\<close>

text \<open>
  A turn of a loop says whether the loop goes on (it ends when its context is canceled) and
  which error it logged.
\<close>

definition goes_on :: "error \<Rightarrow> bool \<times> error option" where
  "goes_on e = (if errors_Is e Canceled then (False, None) else (True, Some e))"

definition consume_turn ::
  "'r store \<Rightarrow> 'w handle subscription \<Rightarrow> string \<Rightarrow> (nat \<Rightarrow> go_time) \<Rightarrow> 'w \<times> 'r conn
     \<Rightarrow> (bool \<times> error option) \<times> ('w \<times> 'r conn)" where
  "consume_turn st sub consumer clock s =
     (case ReadGroup st sub consumer (snd s) of
        (Inl e, c') \<Rightarrow> (goes_on e, (fst s, c'))
      | (Inr es, c') \<Rightarrow> ((True, None), handle_all st sub consumer clock es (fst s, c')))"

text \<open>\<open>claimLoop\<close> keeps the cursor of the next scan.\<close>

definition claim_turn ::
  "'r store \<Rightarrow> 'w handle subscription \<Rightarrow> string \<Rightarrow> (nat \<Rightarrow> go_time) \<Rightarrow> string \<Rightarrow> 'w \<times> 'r conn
     \<Rightarrow> (bool \<times> error option) \<times> string \<times> ('w \<times> 'r conn)" where
  "claim_turn st sub consumer clock start s =
     (case AutoClaim st sub consumer start (sp_ReadCount (po_stream (st_opts st))) (snd s) of
        ((es, next, Some e), c') \<Rightarrow> (goes_on e, start, (fst s, c'))
      | ((es, next, None), c') \<Rightarrow>
          if es = [] then ((True, None), ''0-0'', (fst s, c'))
          else ((True, None), next, handle_all st sub consumer clock es (fst s, c')))"

definition retry_turn ::
  "'r store \<Rightarrow> 'h subscription \<Rightarrow> go_time \<Rightarrow> 'r conn \<Rightarrow> (bool \<times> error option) \<times> 'r conn" where
  "retry_turn st sub now c =
     (case PromoteDueRetries st (s_Topic sub) (s_Group sub) (sp_ReadCount (po_stream (st_opts st))) now c of
        (Inl e, c') \<Rightarrow> (goes_on e, c')
      | (Inr _, c') \<Rightarrow> ((True, None), c'))"

subsection \<open>Start\<close>

text \<open>
  The goroutines \<open>Start\<close> launches.  \<open>ks\<close> is the order in which the runtime ranges over the
  subscriptions, \<open>namer k\<close> what the \<open>k\<close>-th call of the consumer namer returns.
\<close>

datatype 'h goroutine =
    ConsumeLoop "'h subscription" string
  | ClaimLoop "'h subscription" string
  | RetryLoop "'h subscription"

definition workerName :: "string \<Rightarrow> int \<Rightarrow> nat \<Rightarrow> string" where
  "workerName consumer concurrency index =
     (if concurrency > 1 then consumer @ ''-'' @ Itoa (int index + 1) else consumer)"

definition start_workers :: "'h subscription \<Rightarrow> string \<Rightarrow> 'h goroutine list" where
  "start_workers sub consumer =
     concat (map (\<lambda>index.
       [ConsumeLoop sub (workerName consumer (s_Concurrency sub) index),
        ClaimLoop sub (workerName consumer (s_Concurrency sub) index)]) [0..<nat (s_Concurrency sub)])
     @ [RetryLoop sub]"

fun start_subs ::
  "'r store \<Rightarrow> (nat \<Rightarrow> string) \<Rightarrow> 'h subscription list \<Rightarrow> 'r conn
     \<Rightarrow> (error option \<times> 'h goroutine list) \<times> 'r conn" where
  "start_subs st namer [] c = ((None, []), c)"
| "start_subs st namer (sub # subs) c =
     (case EnsureGroup st (s_Topic sub) (s_Group sub) c of
        (Some e, c1) \<Rightarrow> ((Some e, []), c1)
      | (None, c1) \<Rightarrow>
          (let own = TrimSpace (s_Consumer sub);
               consumer = (if own = [] then namer 0 else own);
               sub1 = (if own = [] then sub\<lparr>s_Consumer := consumer\<rparr> else sub)
           in case start_subs st (if own = [] then (\<lambda>k. namer (Suc k)) else namer) subs c1 of
                ((e, ws), c2) \<Rightarrow> ((e, start_workers sub1 consumer @ ws), c2)))"

definition pubsub_Start ::
  "('r, 'w) pubsub_service \<Rightarrow> string list \<Rightarrow> (nat \<Rightarrow> string) \<Rightarrow> 'r conn
     \<Rightarrow> (error option \<times> 'w handle goroutine list) \<times> ('r, 'w) pubsub_service \<times> 'r conn" where
  "pubsub_Start s ks namer c =
     (if st_rdb (ps_store s) = None then ((Some ErrRedisNotConfigured, []), s, c)
      else if ps_started s then ((Some ErrServiceStarted, []), s, c)
      else
        (let r = Freeze (ps_router s);
             s1 = s\<lparr>ps_started := True, ps_router := r\<rparr>
         in case start_subs (ps_store s) namer (router_List r ks) c of
              (res, c') \<Rightarrow> (res, s1, c')))"

end
