(* ===== verification/PubsubEffects.thy ===== *)
theory PubsubEffects
  imports PubsubService
begin

text \<open>
  What the operations of the store do to the server, whatever fails on the way: one lemma
  for each script and for each operation that sends one.
\<close>

subsection \<open>Acknowledging, retrying, dead-lettering\<close>

definition acked :: "'r redis \<Rightarrow> string \<Rightarrow> string \<Rightarrow> string \<Rightarrow> 'r \<Rightarrow> 'r \<Rightarrow> bool" where
  "acked rd s g i d d' \<longleftrightarrow>
     rd_pending rd d' = (rd_pending rd d)(s := (rd_pending rd d s)(g := rd_pending rd d s g - {i}))"

text \<open>The effect of each outcome; the acknowledgement may be missing if the script stopped.\<close>

definition ack_effect :: "'r redis \<Rightarrow> string \<Rightarrow> string \<Rightarrow> string \<Rightarrow> 'r \<Rightarrow> 'r \<Rightarrow> bool" where
  "ack_effect rd s g i d d' \<longleftrightarrow>
     rd_entries rd d' = rd_entries rd d \<and> rd_zset rd d' = rd_zset rd d \<and> acked rd s g i d d'"

definition retry_effect ::
  "'r redis \<Rightarrow> bool \<Rightarrow> string \<Rightarrow> string \<Rightarrow> string \<Rightarrow> string \<Rightarrow> int \<Rightarrow> string \<Rightarrow> 'r \<Rightarrow> 'r \<Rightarrow> bool" where
  "retry_effect rd ack s g i rk due payload d d' \<longleftrightarrow>
     rd_entries rd d' = rd_entries rd d
     \<and> rd_zset rd d' = (rd_zset rd d)(rk := (rd_zset rd d rk)(payload \<mapsto> due))
     \<and> (if ack then acked rd s g i d d' else rd_pending rd d' = rd_pending rd d)"

definition dlq_effect ::
  "'r redis \<Rightarrow> bool \<Rightarrow> string \<Rightarrow> string \<Rightarrow> string \<Rightarrow> string \<Rightarrow> fields \<Rightarrow> 'r \<Rightarrow> 'r \<Rightarrow> bool" where
  "dlq_effect rd ack s g i dk vs d d' \<longleftrightarrow>
     (\<exists>new. rd_entries rd d' = (rd_entries rd d)(dk := rd_entries rd d dk @ [\<lparr>e_ID = new, e_Values = vs\<rparr>]))
     \<and> rd_zset rd d' = rd_zset rd d
     \<and> (if ack then acked rd s g i d d' else rd_pending rd d' = rd_pending rd d)"

lemma xack_one:
  assumes "redis_laws rd" "rd_xack rd s g [i] d = (res, d')"
  shows "case res of Inl e \<Rightarrow> same_data rd d d' | Inr n \<Rightarrow> ack_effect rd s g i d d'"
  using assms(2) rd_errors(2) [OF assms(1), of s g "[i]" d] rd_xack_ok [OF assms(1), of s g "[i]" d]
  by (cases res) (auto simp: ack_effect_def acked_def)

lemma retryAndAck_effect:
  assumes laws: "redis_laws rd" and r: "retryAndAckScript rd rk s due payload g i d = (res, d')"
  shows "case res of
      Inr n \<Rightarrow> retry_effect rd True s g i rk due payload d d'
    | Inl e \<Rightarrow> same_data rd d d' \<or> retry_effect rd False s g i rk due payload d d'"
proof -
  obtain zres d1 where z: "rd_zadd rd rk due payload d = (zres, d1)" by (rule prod.exhaust)
  show ?thesis
  proof (cases zres)
    case (Inl e)
    with z r rd_errors(3) [OF laws] show ?thesis
      by (auto simp: retryAndAckScript_def op_then_def split: sum.splits)
  next
    case (Inr n)
    obtain ares d2 where a: "rd_xack rd s g [i] d1 = (ares, d2)" by (rule prod.exhaust)
    with z Inr r have "res = ares" "d' = d2" by (auto simp: retryAndAckScript_def op_then_def)
    with xack_one [OF laws a] rd_zadd_ok [OF laws z [unfolded Inr]] show ?thesis
      by (auto simp: retry_effect_def ack_effect_def same_data_def acked_def split: sum.splits)
  qed
qed

lemma dlqAndAck_effect:
  assumes laws: "redis_laws rd" and r: "dlqAndAckScript rd dk s g i vs d = (res, d')"
  shows "case res of
      Inr n \<Rightarrow> dlq_effect rd True s g i dk vs d d'
    | Inl e \<Rightarrow> same_data rd d d' \<or> dlq_effect rd False s g i dk vs d d'"
proof -
  obtain xres d1 where x: "rd_xadd rd dk vs None d = (xres, d1)" by (rule prod.exhaust)
  show ?thesis
  proof (cases xres)
    case (Inl e)
    with x r rd_errors(1) [OF laws] show ?thesis
      by (auto simp: dlqAndAckScript_def op_then_def split: sum.splits)
  next
    case (Inr new)
    obtain ares d2 where a: "rd_xack rd s g [i] d1 = (ares, d2)" by (rule prod.exhaust)
    obtain k where "(None :: (int \<times> bool) option) = None \<longrightarrow> k = 0"
      "rd_entries rd d1 = (rd_entries rd d)(dk := drop k (rd_entries rd d dk) @ [\<lparr>e_ID = new, e_Values = vs\<rparr>])"
      "rd_pending rd d1 = rd_pending rd d" "rd_zset rd d1 = rd_zset rd d"
      using rd_xadd_ok [OF laws x [unfolded Inr]] by metis
    then have "dlq_effect rd False s g i dk vs d d1" by (auto simp: dlq_effect_def)
    with x Inr r a xack_one [OF laws a] show ?thesis
      by (auto simp: dlqAndAckScript_def op_defs dlq_effect_def ack_effect_def same_data_def acked_def split: sum.splits)
  qed
qed

text \<open>
  The same through the link: whatever a request does to the server when it runs, wholly
  (\<open>P True\<close>), in part (\<open>P False\<close>) or not at all (\<open>Q\<close>), a caller that got no error knows that
  all of it was done.
\<close>

lemma rpc_effect:
  assumes r: "rpc cmd c = (res, c')" and Q: "Q (cn_srv c)"
    and P: "\<And>res d'. cmd (cn_srv c) = (res, d') \<Longrightarrow>
      (case res of Inr n \<Rightarrow> P True d' | Inl e \<Rightarrow> Q d' \<or> P False d')"
  shows "(Q (cn_srv c') \<and> left_error res \<noteq> None) \<or> (\<exists>ack. (left_error res = None \<longrightarrow> ack) \<and> P ack (cn_srv c'))"
proof -
  obtain sres d1 where s: "cmd (cn_srv c) = (sres, d1)" by (rule prod.exhaust)
  note eff = P [OF s]
  from r show ?thesis
  proof (cases rule: rpc_cases)
    case ran
    with s have "sres = res" "d1 = cn_srv c'" by simp_all
    with eff show ?thesis by (cases res) (auto simp: left_error_def)
  next
    case (lost x)
    with Q show ?thesis by (simp add: left_error_def)
  next
    case (unheard x)
    with s have "cn_srv c' = d1" by simp
    with eff unheard(1) show ?thesis by (cases sres) (auto simp: left_error_def)
  qed
qed

lemma Ack_effect:
  assumes laws: "redis_laws rd" and st: "st_rdb st = Some rd" and a: "Ack st topic g [i] c = (e, c')"
  shows "same_data rd (cn_srv c) (cn_srv c') \<and> e \<noteq> None
    \<or> ack_effect rd (streamKey (st_opts st) topic) g i (cn_srv c) (cn_srv c')"
proof -
  obtain res where r: "rpc (rd_xack rd (streamKey (st_opts st) topic) g [i]) c = (res, c')"
      and e: "e = left_error res"
    using a st by (auto simp: Ack_def left_error_def split: prod.splits sum.splits)
  have "case res' of Inr n \<Rightarrow> ack_effect rd (streamKey (st_opts st) topic) g i (cn_srv c) d'
      | Inl x \<Rightarrow> same_data rd (cn_srv c) d' \<or> ack_effect rd (streamKey (st_opts st) topic) g i (cn_srv c) d'"
    if "rd_xack rd (streamKey (st_opts st) topic) g [i] (cn_srv c) = (res', d')" for res' d'
    using xack_one [OF laws that] by (auto split: sum.splits)
  with rpc_effect [OF r, of "same_data rd (cn_srv c)"
        "\<lambda>_. ack_effect rd (streamKey (st_opts st) topic) g i (cn_srv c)"] e
  show ?thesis by auto
qed

lemma ScheduleRetry_effect:
  assumes laws: "redis_laws rd" and st: "st_rdb st = Some rd"
    and r: "ScheduleRetry st topic (Some dl) due next c = (e, c')"
  shows "same_data rd (cn_srv c) (cn_srv c') \<and> e \<noteq> None
    \<or> (\<exists>payload ack. 0 < next \<and> pc_marshal_envelope (st_codec st) (retry_envelope topic dl next) = Inr payload
        \<and> (e = None \<longrightarrow> ack)
        \<and> retry_effect rd ack (streamKey (st_opts st) topic) (dl_Group dl) (dl_ID dl)
            (retryKey (st_opts st) topic (dl_Group dl)) (UnixMilli due) payload (cn_srv c) (cn_srv c'))"
proof (cases "next \<le> 0 \<or> due = 0 \<or> (\<exists>x. pc_marshal_envelope (st_codec st) (retry_envelope topic dl next) = Inl x)")
  case True
  with r st show ?thesis by (auto simp: ScheduleRetry_def split: if_splits)
next
  case False
  then obtain payload where p: "pc_marshal_envelope (st_codec st) (retry_envelope topic dl next) = Inr payload"
    by (metis sum.exhaust)
  obtain res where rr: "rpc (retryAndAckScript rd (retryKey (st_opts st) topic (dl_Group dl))
      (streamKey (st_opts st) topic) (UnixMilli due) payload (dl_Group dl) (dl_ID dl)) c = (res, c')"
      and e: "e = left_error res"
    using r st False p by (auto simp: ScheduleRetry_def left_error_def split: prod.splits sum.splits)
  let ?P = "\<lambda>ack. retry_effect rd ack (streamKey (st_opts st) topic) (dl_Group dl) (dl_ID dl)
            (retryKey (st_opts st) topic (dl_Group dl)) (UnixMilli due) payload (cn_srv c)"
  have "(same_data rd (cn_srv c) (cn_srv c') \<and> left_error res \<noteq> None)
      \<or> (\<exists>ack. (left_error res = None \<longrightarrow> ack) \<and> ?P ack (cn_srv c'))"
    by (rule rpc_effect [OF rr, where P = ?P]) (simp, rule retryAndAck_effect [OF laws])
  then show ?thesis
  proof (elim disjE exE conjE)
    fix ack assume "left_error res = None \<longrightarrow> ack" "?P ack (cn_srv c')"
    moreover have "0 < next" using False by simp
    ultimately show ?thesis using p unfolding e
      by (intro disjI2 exI [of _ payload] exI [of _ ack] conjI) assumption+
  qed (simp add: e)
qed

lemma MoveToDLQ_effect:
  assumes laws: "redis_laws rd" and st: "st_rdb st = Some rd"
    and r: "MoveToDLQ st topic (Some dl) reason c = (res, c')"
  shows "same_data rd (cn_srv c) (cn_srv c') \<and> left_error res \<noteq> None
    \<or> (\<exists>ack. (left_error res = None \<longrightarrow> ack)
        \<and> dlq_effect rd ack (streamKey (st_opts st) topic) (dl_Group dl) (dl_ID dl)
            (dlqKey (st_opts st) topic) (dlq_values (st_codec st) dl reason) (cn_srv c) (cn_srv c'))"
proof -
  have rr: "rpc (dlqAndAckScript rd (dlqKey (st_opts st) topic) (streamKey (st_opts st) topic)
      (dl_Group dl) (dl_ID dl) (dlq_values (st_codec st) dl reason)) c = (res, c')"
    using r st by (simp add: MoveToDLQ_def)
  show ?thesis
    by (rule rpc_effect [OF rr, where P = "\<lambda>ack. dlq_effect rd ack (streamKey (st_opts st) topic)
        (dl_Group dl) (dl_ID dl) (dlqKey (st_opts st) topic) (dlq_values (st_codec st) dl reason) (cn_srv c)"])
      (simp, rule dlqAndAck_effect [OF laws])
qed

end
