(* ===== verification/PubsubProps.thy ===== *)
theory PubsubProps
  imports PubsubEffects
begin

text \<open>The properties of the pub/sub package.\<close>

subsection \<open>Handling an entry\<close>

text \<open>A handler that does not change the delivery it is given.\<close>

definition leaves_delivery :: "'w handle \<Rightarrow> bool" where
  "leaves_delivery h \<longleftrightarrow> (\<forall>dl w. snd (fst (h dl w)) = dl)"

lemma decodeEntry_ids:
  "decodeEntry pc topic grp consumer ent = Inr dl \<Longrightarrow>
     dl_ID dl = e_ID ent \<and> dl_Topic dl = topic \<and> dl_Group dl = grp \<and> 1 \<le> dl_Attempt dl
     \<and> 0 \<le> m_MaxDeliver (dl_Message dl) \<and> m_ScheduledAt (dl_Message dl) = 0 \<and> dl_Raw dl = e_Values ent"
  by (auto simp: decodeEntry_def decode_attempt_def Let_def split: if_splits option.splits sum.splits)

lemma with_max_deliver_simps [simp]:
  "dl_ID (with_max_deliver p dl) = dl_ID dl" "dl_Group (with_max_deliver p dl) = dl_Group dl"
  "dl_Attempt (with_max_deliver p dl) = dl_Attempt dl"
  by (simp_all add: with_max_deliver_def)

text \<open>What a worker is meant to do with an entry, as a change of the server.\<close>

definition meant_failed ::
  "'r redis \<Rightarrow> 'r store \<Rightarrow> 'h subscription \<Rightarrow> delivery \<Rightarrow> go_time \<Rightarrow> 'r \<Rightarrow> 'r \<Rightarrow> bool" where
  "meant_failed rd st sub dl now d d' \<longleftrightarrow>
     (let s = streamKey (st_opts st) (s_Topic sub); g = s_Group sub; next = wrap64 (dl_Attempt dl + 1);
          due = now + pubsub_retryDelay (effectiveRetry sub (po_retry (st_opts st))) next in
      if next > m_MaxDeliver (dl_Message dl)
      then (if dp_Enabled (po_dlq (st_opts st))
            then \<exists>ack. dlq_effect rd ack s g (dl_ID dl) (dlqKey (st_opts st) (s_Topic sub))
                   (dlq_values (st_codec st) dl ''max delivery exceeded'') d d'
            else ack_effect rd s g (dl_ID dl) d d')
      else 0 < next \<and> (\<exists>payload ack.
             pc_marshal_envelope (st_codec st) (retry_envelope (s_Topic sub) dl next) = Inr payload
             \<and> retry_effect rd ack s g (dl_ID dl) (retryKey (st_opts st) (s_Topic sub) g) (UnixMilli due) payload d d'))"

definition meant ::
  "'r redis \<Rightarrow> 'r store \<Rightarrow> 'w handle subscription \<Rightarrow> 'w handle \<Rightarrow> string \<Rightarrow> entry \<Rightarrow> go_time \<Rightarrow> 'w \<Rightarrow> 'r \<Rightarrow> 'r \<Rightarrow> bool" where
  "meant rd st sub h consumer ent now w d d' \<longleftrightarrow>
     (let s = streamKey (st_opts st) (s_Topic sub); g = s_Group sub in
      case decodeEntry (st_codec st) (s_Topic sub) g consumer ent of
        Inl _ \<Rightarrow> ack_effect rd s g (e_ID ent) d d'
      | Inr dl0 \<Rightarrow>
          (let dl = with_max_deliver (effectiveRetry sub (po_retry (st_opts st))) dl0 in
           if dl_Attempt dl > m_MaxDeliver (dl_Message dl) \<and> dp_Enabled (po_dlq (st_opts st))
           then \<exists>ack. dlq_effect rd ack s g (e_ID ent) (dlqKey (st_opts st) (s_Topic sub))
                  (dlq_values (st_codec st) dl ''max delivery exceeded'') d d'
           else (case fst (fst (h dl w)) of
                   None \<Rightarrow> ack_effect rd s g (e_ID ent) d d'
                 | Some _ \<Rightarrow> meant_failed rd st sub dl now d d')))"

lemma handle_failed_meant:
  assumes laws: "redis_laws rd" and st: "st_rdb st = Some rd" and g: "dl_Group dl = s_Group sub"
    and h: "handle_failed st sub dl now c = (res, c')"
  shows "same_data rd (cn_srv c) (cn_srv c') \<or> meant_failed rd st sub dl now (cn_srv c) (cn_srv c')"
proof -
  let ?next = "wrap64 (dl_Attempt dl + 1)"
  consider (retry) "\<not> ?next > m_MaxDeliver (dl_Message dl)"
    | (dead) "?next > m_MaxDeliver (dl_Message dl)" "dp_Enabled (po_dlq (st_opts st))"
    | (dropped) "?next > m_MaxDeliver (dl_Message dl)" "\<not> dp_Enabled (po_dlq (st_opts st))"
    by blast
  then show ?thesis
  proof cases
    case retry
    with h obtain e where "ScheduleRetry st (s_Topic sub) (Some dl)
        (now + pubsub_retryDelay (effectiveRetry sub (po_retry (st_opts st))) ?next) ?next c = (e, c')"
      by (auto simp: handle_failed_def Let_def split: prod.splits)
    from ScheduleRetry_effect [OF laws st this] retry show ?thesis
      unfolding meant_failed_def Let_def g by auto
  next
    case dead
    with h obtain r where "MoveToDLQ st (s_Topic sub) (Some dl) ''max delivery exceeded'' c = (r, c')"
      by (auto simp: handle_failed_def Let_def split: prod.splits)
    from MoveToDLQ_effect [OF laws st this] dead show ?thesis
      unfolding meant_failed_def Let_def g by auto
  next
    case dropped
    with h obtain e where "Ack st (s_Topic sub) (s_Group sub) [dl_ID dl] c = (e, c')"
      by (auto simp: handle_failed_def Let_def split: prod.splits)
    from Ack_effect [OF laws st this] dropped show ?thesis
      unfolding meant_failed_def Let_def by auto
  qed
qed

lemma handleEntry_meant:
  assumes laws: "redis_laws rd" and st: "st_rdb st = Some rd" and h: "s_Handler sub = Some h" "leaves_delivery h"
    and he: "handleEntry st sub consumer ent now (w, c) = (res, (w', c'))"
  shows "same_data rd (cn_srv c) (cn_srv c') \<or> meant rd st sub h consumer ent now w (cn_srv c) (cn_srv c')"
proof (cases "decodeEntry (st_codec st) (s_Topic sub) (s_Group sub) consumer ent")
  case (Inl x)
  with he obtain e where "Ack st (s_Topic sub) (s_Group sub) [e_ID ent] c = (e, c')"
    by (auto simp: handleEntry_def split: prod.splits)
  from Ack_effect [OF laws st this] Inl show ?thesis by (auto simp: meant_def)
next
  case (Inr dl0)
  note ids = decodeEntry_ids [OF Inr]
  define dl where "dl = with_max_deliver (effectiveRetry sub (po_retry (st_opts st))) dl0"
  have dl: "dl_ID dl = e_ID ent" "dl_Group dl = s_Group sub" using ids by (simp_all add: dl_def)
  show ?thesis
  proof (cases "dl_Attempt dl > m_MaxDeliver (dl_Message dl) \<and> dp_Enabled (po_dlq (st_opts st))")
    case True
    with he Inr obtain r where "MoveToDLQ st (s_Topic sub) (Some dl) ''max delivery exceeded'' c = (r, c')"
      by (auto simp: handleEntry_def dl_def Let_def split: prod.splits)
    from MoveToDLQ_effect [OF laws st this] True Inr dl show ?thesis
      unfolding meant_def Let_def dl_def [symmetric] by (auto simp: dl_def [symmetric])
  next
    case False
    obtain out dl1 w1 where o: "h dl w = ((out, dl1), w1)" by (metis prod.exhaust)
    with h(2) have dl1: "dl1 = dl" by (metis fst_conv leaves_delivery_def snd_conv)
    show ?thesis
    proof (cases out)
      case None
      with he Inr False o dl1 h(1) obtain e where "Ack st (s_Topic sub) (s_Group sub) [dl_ID dl] c = (e, c')"
        by (auto simp: handleEntry_def dl_def [symmetric] Let_def split: prod.splits)
      from Ack_effect [OF laws st this] False Inr dl o None show ?thesis
        by (auto simp: meant_def Let_def dl_def [symmetric])
    next
      case (Some e)
      with he Inr False o dl1 h(1) obtain r where "handle_failed st sub dl now c = (r, c')"
        by (auto simp: handleEntry_def dl_def [symmetric] Let_def split: prod.splits)
      from handle_failed_meant [OF laws st dl(2) this] False Inr o Some show ?thesis
        by (auto simp: meant_def Let_def dl_def [symmetric])
    qed
  qed
qed

text \<open>
  C14: no delivery is lost.  Whatever the handler returns and whichever request or answer
  fails on the way, an entry that was pending for the group is afterwards still pending (and
  will be claimed again), or its handler succeeded, or it waits in the group's retry set with
  its attempt counted up to at most its limit, or it is in the dead-letter stream, or the
  code gave it up on purpose: it could not be decoded, or its attempts are used up and the
  dead-letter stream is switched off.
\<close>

theorem entry_not_lost:
  assumes laws: "redis_laws rd" and st: "st_rdb st = Some rd" and h: "s_Handler sub = Some h" "leaves_delivery h"
    and he: "handleEntry st sub consumer ent now (w, c) = (res, (w', c'))"
    and pend: "e_ID ent \<in> rd_pending rd (cn_srv c) (streamKey (st_opts st) (s_Topic sub)) (s_Group sub)"
  shows "e_ID ent \<in> rd_pending rd (cn_srv c') (streamKey (st_opts st) (s_Topic sub)) (s_Group sub)
    \<or> (case decodeEntry (st_codec st) (s_Topic sub) (s_Group sub) consumer ent of
         Inl _ \<Rightarrow> True
       | Inr dl0 \<Rightarrow>
           (let dl = with_max_deliver (effectiveRetry sub (po_retry (st_opts st))) dl0;
                next = wrap64 (dl_Attempt dl + 1) in
            fst (fst (h dl w)) = None
            \<or> (\<exists>payload due. next \<le> m_MaxDeliver (dl_Message dl)
                 \<and> pc_marshal_envelope (st_codec st) (retry_envelope (s_Topic sub) dl next) = Inr payload
                 \<and> rd_zset rd (cn_srv c') (retryKey (st_opts st) (s_Topic sub) (s_Group sub)) payload = Some due)
            \<or> (\<exists>e\<in>set (rd_entries rd (cn_srv c') (dlqKey (st_opts st) (s_Topic sub))).
                 e_Values e = dlq_values (st_codec st) dl ''max delivery exceeded'')
            \<or> \<not> dp_Enabled (po_dlq (st_opts st)) \<and> next > m_MaxDeliver (dl_Message dl)))"
  using handleEntry_meant [OF laws st h he]
proof
  assume "same_data rd (cn_srv c) (cn_srv c')"
  with pend show ?thesis by (simp add: same_data_def)
next
  assume m: "meant rd st sub h consumer ent now w (cn_srv c) (cn_srv c')"
  show ?thesis
  proof (cases "decodeEntry (st_codec st) (s_Topic sub) (s_Group sub) consumer ent")
    case (Inr dl0)
    with m show ?thesis
      by (auto simp: meant_def meant_failed_def Let_def dlq_effect_def retry_effect_def
          split: if_splits option.splits)
  qed simp
qed

text \<open>A pending entry on the server in memory, for the witnesses.\<close>

definition demo_store :: "memredis store" where
  "demo_store = \<lparr>st_rdb = Some mem_redis, st_opts = pubsub_defaultOptions, st_codec = mem_pc\<rparr>"

definition failing :: "nat handle" where
  "failing dl w = ((Some (Errs ''boom''), dl), Suc w)"

definition demo_sub :: "nat handle subscription" where
  "demo_sub = \<lparr>s_Topic = ''t'', s_Group = ''g'', s_Consumer = [], s_Concurrency = 2, s_Handler = Some failing,
     s_Retry = \<lparr>rp_MaxDeliver = 0, rp_Backoff = [], rp_IdleTimeout = 0, rp_ClaimInterval = 0\<rparr>\<rparr>"

definition demo_entry :: entry where
  "demo_entry = \<lparr>e_ID = ''1'', e_Values = [fieldKey \<mapsto> ''k'', fieldType \<mapsto> ''order'', fieldData \<mapsto> ''body'',
     fieldHeaders \<mapsto> [], fieldPublishedAt \<mapsto> ''5'', fieldMaxDeliver \<mapsto> ''3'', fieldAttempt \<mapsto> ''1'']\<rparr>"

definition demo_server :: memredis where
  "demo_server = \<lparr>mr_streams = (\<lambda>_. [])(''wego:pubsub:t'' := [demo_entry]),
     mr_pending = [(''wego:pubsub:t'', ''g'', ''1'')], mr_seen = [(''wego:pubsub:t'', ''g'', ''1'')],
     mr_counts = (\<lambda>_. 1), mr_zsets = (\<lambda>_. [])\<rparr>"

definition demo_conn :: "memredis conn" where
  "demo_conn = \<lparr>cn_srv = demo_server, cn_links = []\<rparr>"

lemma demo_keys: "streamKey (st_opts demo_store) (s_Topic demo_sub) = ''wego:pubsub:t''"
proof -
  have "streamKey pubsub_defaultOptions ''t'' = ''wego:pubsub:t''" by code_simp
  then show ?thesis by (simp add: demo_store_def demo_sub_def)
qed

lemma demo_projections: "s_Topic demo_sub = ''t''" "s_Group demo_sub = ''g''" "st_codec demo_store = mem_pc"
  by (simp_all add: demo_sub_def demo_store_def)

lemma demo_store_rdb: "st_rdb demo_store = Some mem_redis"
  by (simp add: demo_store_def)

lemma demo_sub_handler: "s_Handler demo_sub = Some failing" "leaves_delivery failing"
  by (simp_all add: demo_sub_def leaves_delivery_def failing_def)

lemma demo_pending: "e_ID demo_entry \<in> rd_pending mem_redis (cn_srv demo_conn)
    (streamKey (st_opts demo_store) (s_Topic demo_sub)) (s_Group demo_sub)"
  unfolding demo_keys by (simp add: demo_entry_def demo_conn_def demo_server_def mem_redis_def demo_sub_def)

definition demo_delivery :: delivery where
  "demo_delivery = \<lparr>dl_ID = ''1'', dl_Topic = ''t'', dl_Group = ''g'', dl_Consumer = ''c'', dl_Attempt = 1,
     dl_PublishedAt = 5, dl_Message = \<lparr>m_Key = ''k'', m_Type = ''order'', m_Data = ''body'',
       m_Headers = Some Map.empty, m_MaxDeliver = 3, m_ScheduledAt = 0\<rparr>, dl_Raw = e_Values demo_entry\<rparr>"

lemma demo_decode: "decodeEntry (st_codec demo_store) (s_Topic demo_sub) (s_Group demo_sub) ''c'' demo_entry = Inr demo_delivery"
proof -
  have "Atoi (TrimSpace ''3'') = Some 3" "Atoi (TrimSpace ''1'') = Some 1" "TrimSpace ''1'' \<noteq> []"
      "TrimSpace ([] :: string) = []" "parse_digits 0 (TrimSpace ''5'') = Some 5" by code_simp+
  then show ?thesis
    by (simp add: decodeEntry_def decode_attempt_def demo_store_def demo_entry_def demo_delivery_def demo_sub_def
        mem_pc_def field_def field_defs Let_def)
qed

lemma entry_not_lost_witness:
  "case handleEntry demo_store demo_sub ''c'' demo_entry 7 (0, demo_conn) of
     (res, (w, c')) \<Rightarrow> w = 1 \<and>
       (e_ID demo_entry \<in> rd_pending mem_redis (cn_srv c') ''wego:pubsub:t'' ''g''
        \<or> (\<exists>payload due. pc_marshal_envelope mem_pc (retry_envelope ''t'' demo_delivery 2) = Inr payload
             \<and> rd_zset mem_redis (cn_srv c') (retryKey (st_opts demo_store) ''t'' ''g'') payload = Some due)
        \<or> rd_entries mem_redis (cn_srv c') (dlqKey (st_opts demo_store) ''t'') \<noteq> [])"
proof -
  obtain res w c' where he: "handleEntry demo_store demo_sub ''c'' demo_entry 7 (0, demo_conn) = (res, (w, c'))"
    by (metis prod.exhaust)
  have wm: "with_max_deliver (effectiveRetry demo_sub (po_retry (st_opts demo_store))) demo_delivery = demo_delivery"
    by (simp add: with_max_deliver_def demo_delivery_def)
  have few: "\<not> dl_Attempt demo_delivery > m_MaxDeliver (dl_Message demo_delivery)"
    by (simp add: demo_delivery_def)
  have "w = 1"
    using he few unfolding handleEntry_def demo_decode
    by (auto simp: wm Let_def demo_sub_handler failing_def split: prod.splits)
  moreover have "wrap64 (dl_Attempt demo_delivery + 1) = 2" by code_simp
  moreover have "fst (fst (failing demo_delivery 0)) \<noteq> None" "dp_Enabled (po_dlq (st_opts demo_store))"
    by (simp_all add: failing_def demo_store_def pubsub_defaultOptions_def)
  ultimately show ?thesis
    using entry_not_lost [OF mem_redis_laws demo_store_rdb demo_sub_handler he demo_pending] he
    unfolding demo_decode demo_keys
    by (auto simp: wm Let_def demo_projections)
qed

end
