(* ===== verification/PubsubPromote.thy ===== *)
theory PubsubPromote
  imports PubsubProps
begin

text \<open>
  The promotion of due retries: what the script moves, that nothing is lost when it stops in
  the middle, and that a retry is delivered as the message it was.
\<close>

subsection \<open>The script\<close>

text \<open>
  The members \<open>gone\<close> have left the set \<open>k\<close>, and \<open>gone\<close> and \<open>extra\<close> have been appended to
  the stream \<open>s\<close>.
\<close>

definition moved ::
  "'r redis \<Rightarrow> pubsub_codec \<Rightarrow> string \<Rightarrow> string \<Rightarrow> string list \<Rightarrow> string list \<Rightarrow> 'r \<Rightarrow> 'r \<Rightarrow> bool" where
  "moved rd pc k s gone extra d d' \<longleftrightarrow>
     (\<exists>new. rd_entries rd d' = (rd_entries rd d)(s := rd_entries rd d s @ new)
        \<and> map (\<lambda>e. Inr (e_Values e)) new = map (promoted_fields pc) (gone @ extra)
        \<and> (\<forall>e\<in>set new. e_ID e \<noteq> []))
     \<and> rd_pending rd d' = rd_pending rd d
     \<and> rd_zset rd d' = (rd_zset rd d)(k := (rd_zset rd d k) |` (- set gone))"

lemma restrict_all [simp]: "m |` UNIV = m"
  by (simp add: restrict_map_def)

lemma moved_same: "same_data rd d d' \<Longrightarrow> moved rd pc k s [] [] d d'"
  by (auto simp: moved_def same_data_def)

lemma moved_trans:
  assumes "moved rd pc k s [x] [] d d1" "moved rd pc k s gone extra d1 d2"
  shows "moved rd pc k s (x # gone) extra d d2"
proof -
  obtain n1 n2 where
    1: "rd_entries rd d1 = (rd_entries rd d)(s := rd_entries rd d s @ n1)"
       "map (\<lambda>e. Inr (e_Values e)) n1 = map (promoted_fields pc) [x]" "\<forall>e\<in>set n1. e_ID e \<noteq> []" and
    2: "rd_entries rd d2 = (rd_entries rd d1)(s := rd_entries rd d1 s @ n2)"
       "map (\<lambda>e. Inr (e_Values e)) n2 = map (promoted_fields pc) (gone @ extra)" "\<forall>e\<in>set n2. e_ID e \<noteq> []"
    using assms unfolding moved_def by auto
  then have "rd_entries rd d2 = (rd_entries rd d)(s := rd_entries rd d s @ (n1 @ n2))
      \<and> map (\<lambda>e. Inr (e_Values e)) (n1 @ n2) = map (promoted_fields pc) ((x # gone) @ extra)"
    by (simp only: map_append 1(2) 2(2)) (simp add: 1(1) 2(1))
  moreover have "\<forall>e\<in>set (n1 @ n2). e_ID e \<noteq> []" using 1(3) 2(3) by auto
  moreover have "- set (x # gone) = - {x} \<inter> - set gone" by auto
  ultimately show ?thesis using assms unfolding moved_def by (auto simp: restrict_restrict)
qed

lemma promote_one_moved:
  assumes laws: "redis_laws rd" and p: "promote_one rd pc k s raw d = (res, d')"
  shows "case res of
      Inr _ \<Rightarrow> moved rd pc k s [raw] [] d d'
    | Inl _ \<Rightarrow> moved rd pc k s [] [] d d' \<or> moved rd pc k s [] [raw] d d'"
proof (cases "promoted_fields pc raw")
  case (Inl e)
  with p show ?thesis by (auto simp: promote_one_def op_raise_def moved_same)
next
  case (Inr f)
  note Some = this
  then have one: "promote_one rd pc k s raw = op_then (rd_xadd rd s f None) (\<lambda>_. rd_zrem rd k raw)"
    by (simp add: promote_one_def)
  obtain xres d1 where x: "rd_xadd rd s f None d = (xres, d1)" by (rule prod.exhaust)
  show ?thesis
  proof (cases xres)
    case (Inl e)
    with x p one rd_errors(1) [OF laws x [unfolded Inl]] show ?thesis by (auto simp: op_then_def intro: moved_same)
  next
    case (Inr i)
    obtain kk where "(None :: (int \<times> bool) option) = None \<longrightarrow> kk = 0" and new: "i \<noteq> []" and
      "rd_entries rd d1 = (rd_entries rd d)(s := drop kk (rd_entries rd d s) @ [\<lparr>e_ID = i, e_Values = f\<rparr>])"
      "rd_pending rd d1 = rd_pending rd d" "rd_zset rd d1 = rd_zset rd d"
      using rd_xadd_ok [OF laws x [unfolded Inr]] by metis
    then have add: "rd_entries rd d1 = (rd_entries rd d)(s := rd_entries rd d s @ [\<lparr>e_ID = i, e_Values = f\<rparr>])"
      "rd_pending rd d1 = rd_pending rd d" "rd_zset rd d1 = rd_zset rd d" by simp_all
    obtain zres d2 where z: "rd_zrem rd k raw d1 = (zres, d2)" by (rule prod.exhaust)
    have res: "res = zres" "d' = d2" using p one x Inr z by (auto simp: op_then_def)
    show ?thesis
    proof (cases zres)
      case (Inl e)
      have "moved rd pc k s [] [raw] d d'"
        using rd_errors(4) [OF laws z [unfolded Inl]] add res(2) Some new
        unfolding moved_def same_data_def
        by (intro conjI exI [of _ "[\<lparr>e_ID = i, e_Values = f\<rparr>]"]) simp_all
      with Inl res show ?thesis by simp
    next
      case (Inr n)
      have "moved rd pc k s [raw] [] d d'"
        using rd_zrem_ok [OF laws z [unfolded Inr]] add res(2) Some new
        unfolding moved_def
        by (intro conjI exI [of _ "[\<lparr>e_ID = i, e_Values = f\<rparr>]"]) (simp_all add: restrict_complement_singleton_eq)
      with Inr res show ?thesis by simp
    qed
  qed
qed

lemma promote_all_moved:
  assumes laws: "redis_laws rd"
  shows "promote_all rd pc k s items n d = (res, d') \<Longrightarrow>
    \<exists>gone rest extra. items = gone @ rest \<and> moved rd pc k s gone extra d d'
      \<and> (case res of
           Inr m \<Rightarrow> rest = [] \<and> extra = [] \<and> m = n + int (length gone)
         | Inl _ \<Rightarrow> extra = [] \<or> (\<exists>x xs. rest = x # xs \<and> extra = [x]))"
proof (induction items arbitrary: n d)
  case Nil
  then show ?case by (intro exI [of _ "[]"]) (auto simp: op_return_def moved_same)
next
  case (Cons raw items)
  obtain r1 d1 where p: "promote_one rd pc k s raw d = (r1, d1)" by (rule prod.exhaust)
  note one = promote_one_moved [OF laws p]
  show ?case
  proof (cases r1)
    case (Inl e)
    with Cons.prems p have r: "res = Inl e" "d' = d1" by (auto simp: op_then_def)
    from one Inl have "moved rd pc k s [] [] d d' \<or> moved rd pc k s [] [raw] d d'" by (simp add: r(2))
    then show ?thesis
    proof
      assume "moved rd pc k s [] [] d d'"
      with r(1) show ?thesis by (intro exI [of _ "[]"] exI [of _ "raw # items"]) simp
    next
      assume "moved rd pc k s [] [raw] d d'"
      with r(1) show ?thesis
        by (intro exI [of _ "[]"] exI [of _ "raw # items"] exI [of _ "[raw]"]) simp
    qed
  next
    case (Inr m)
    with Cons.prems p have "promote_all rd pc k s items (n + 1) d1 = (res, d')" by (simp add: op_then_def)
    from Cons.IH [OF this] obtain gone rest extra where
        g: "items = gone @ rest" "moved rd pc k s gone extra d1 d'"
           "case res of Inr m \<Rightarrow> rest = [] \<and> extra = [] \<and> m = n + 1 + int (length gone)
            | Inl _ \<Rightarrow> extra = [] \<or> (\<exists>x xs. rest = x # xs \<and> extra = [x])"
      by blast
    have "moved rd pc k s (raw # gone) extra d d'"
      using moved_trans [OF _ g(2)] one Inr by simp
    with g(1,3) show ?thesis
      by (intro exI [of _ "raw # gone"] exI [of _ rest] exI [of _ extra]) (auto split: sum.splits)
  qed
qed

lemma retryPromote_moved:
  assumes laws: "redis_laws rd" and p: "retryPromoteScript rd pc k s now limit d = (res, d')"
  shows "\<exists>gone extra. moved rd pc k s gone extra d d' \<and> distinct (gone @ extra) \<and> length (gone @ extra) \<le> nat limit
    \<and> length extra \<le> 1 \<and> (\<forall>m\<in>set (gone @ extra). \<exists>sc\<le>now. rd_zset rd d k m = Some sc)
    \<and> (\<forall>n. res = Inr n \<longrightarrow> extra = [] \<and> n = int (length gone)
         \<and> (\<forall>m sc. rd_zset rd d k m = Some sc \<longrightarrow> sc \<le> now \<longrightarrow> m \<notin> set gone \<longrightarrow> length gone = nat limit))"
proof -
  obtain zres d1 where z: "rd_zrangebyscore rd k now limit d = (zres, d1)" by (rule prod.exhaust)
  have same: "same_data rd d d1" by (rule rd_errors(5) [OF laws z])
  show ?thesis
  proof (cases zres)
    case (Inl e)
    with p z same show ?thesis
      by (intro exI [of _ "[]"]) (auto simp: retryPromoteScript_def op_then_def intro: moved_same)
  next
    case (Inr items)
    have zl: "distinct items" "length items \<le> nat limit" "\<forall>m\<in>set items. \<exists>sc\<le>now. rd_zset rd d k m = Some sc"
        "\<forall>m sc. rd_zset rd d k m = Some sc \<longrightarrow> sc \<le> now \<longrightarrow> m \<notin> set items \<longrightarrow> length items = nat limit"
      using laws z Inr unfolding redis_laws_def zrange_law_def by blast+
    from p z Inr have "promote_all rd pc k s items 0 d1 = (res, d')"
      by (simp add: retryPromoteScript_def op_then_def)
    from promote_all_moved [OF laws this] obtain gone rest extra where
        g: "items = gone @ rest" "moved rd pc k s gone extra d1 d'"
           "case res of Inr m \<Rightarrow> rest = [] \<and> extra = [] \<and> m = 0 + int (length gone)
            | Inl _ \<Rightarrow> extra = [] \<or> (\<exists>x xs. rest = x # xs \<and> extra = [x])"
      by blast
    have mv: "moved rd pc k s gone extra d d'" using g(2) same by (simp add: moved_def same_data_def)
    have ex: "extra = [] \<or> (\<exists>x xs. rest = x # xs \<and> extra = [x])" using g(3) by (cases res) auto
    then have sub: "\<exists>rest'. items = (gone @ extra) @ rest'" using g(1) by auto
    then have "distinct (gone @ extra)" "length (gone @ extra) \<le> nat limit"
        "\<forall>m\<in>set (gone @ extra). \<exists>sc\<le>now. rd_zset rd d k m = Some sc"
      using zl(1-3) by auto
    moreover have "extra = [] \<and> n = int (length gone)
         \<and> (\<forall>m sc. rd_zset rd d k m = Some sc \<longrightarrow> sc \<le> now \<longrightarrow> m \<notin> set gone \<longrightarrow> length gone = nat limit)"
      if "res = Inr n" for n
      using that g(1,3) zl(4) by auto
    moreover have "length extra \<le> 1" using ex by auto
    ultimately show ?thesis using mv by blast
  qed
qed

text \<open>The same for the operation, through the link.\<close>

lemma PromoteDueRetries_moved:
  assumes laws: "redis_laws rd" and st: "st_rdb st = Some rd"
    and p: "PromoteDueRetries st topic grp limit now c = (res, c')"
  shows "\<exists>gone extra.
      moved rd (st_codec st) (retryKey (st_opts st) topic grp) (streamKey (st_opts st) topic) gone extra (cn_srv c) (cn_srv c')
    \<and> distinct (gone @ extra) \<and> length extra \<le> 1
    \<and> (\<forall>m\<in>set (gone @ extra). \<exists>sc\<le>UnixMilli now. rd_zset rd (cn_srv c) (retryKey (st_opts st) topic grp) m = Some sc)
    \<and> (\<forall>n>0. res = Inr n \<longrightarrow> extra = [] \<and> n = int (length gone)
         \<and> (\<forall>m sc. rd_zset rd (cn_srv c) (retryKey (st_opts st) topic grp) m = Some sc \<longrightarrow> sc \<le> UnixMilli now \<longrightarrow>
               m \<notin> set gone \<longrightarrow> int (length gone) = max 1 limit))"
proof -
  let ?k = "retryKey (st_opts st) topic grp" and ?s = "streamKey (st_opts st) topic"
    and ?l = "if limit \<le> 0 then 1 else limit"
  let ?cmd = "retryPromoteScript rd (st_codec st) ?k ?s (UnixMilli now) ?l"
  obtain r where r: "rpc ?cmd c = (r, c')" and rr: "res = r \<or> (\<exists>e. r = Inl e \<and> res = Inr 0)"
    using p st by (auto simp: PromoteDueRetries_def Let_def split: prod.splits sum.splits if_splits)
  obtain sres d1 where s: "?cmd (cn_srv c) = (sres, d1)" by (rule prod.exhaust)
  from retryPromote_moved [OF laws s] obtain gone extra where
      g: "moved rd (st_codec st) ?k ?s gone extra (cn_srv c) d1" "distinct (gone @ extra)" "length extra \<le> 1"
         "\<forall>m\<in>set (gone @ extra). \<exists>sc\<le>UnixMilli now. rd_zset rd (cn_srv c) ?k m = Some sc"
    and fin: "\<forall>n. sres = Inr n \<longrightarrow> extra = [] \<and> n = int (length gone)
         \<and> (\<forall>m sc. rd_zset rd (cn_srv c) ?k m = Some sc \<longrightarrow> sc \<le> UnixMilli now \<longrightarrow> m \<notin> set gone \<longrightarrow> length gone = nat ?l)"
    by blast
  have l: "length gone = nat ?l \<Longrightarrow> int (length gone) = max 1 limit" by auto
  have did: ?thesis if "cn_srv c' = d1" "\<forall>n>0. res = Inr n \<longrightarrow> sres = Inr n"
  proof -
    have "\<forall>n>0. res = Inr n \<longrightarrow> extra = [] \<and> n = int (length gone)
         \<and> (\<forall>m sc. rd_zset rd (cn_srv c) ?k m = Some sc \<longrightarrow> sc \<le> UnixMilli now \<longrightarrow> m \<notin> set gone \<longrightarrow>
               int (length gone) = max 1 limit)"
      using that(2) fin l by metis
    then show ?thesis using g unfolding that(1) [symmetric] by blast
  qed
  from r show ?thesis
  proof (cases rule: rpc_cases)
    case ran
    with s rr show ?thesis by (intro did) auto
  next
    case (lost e)
    with rr show ?thesis by (intro exI [of _ "[]"]) (auto simp: moved_def)
  next
    case (unheard e)
    with s rr show ?thesis by (intro did) auto
  qed
qed

text \<open>
  C16: promoting the due retries of a group loses none.  Whatever fails, only members that
  were due leave the set, each of them is appended to the topic's stream, and at most one
  more was appended and is still in the set (it will be delivered twice); nothing else on the
  server changes.  When the promotion reports how many it moved, it moved that many, and
  members that are due stay behind only if the limit was reached.
\<close>

theorem promote_conserves:
  assumes laws: "redis_laws rd" and st: "st_rdb st = Some rd"
    and p: "PromoteDueRetries st topic grp limit now c = (res, c')"
  shows "\<exists>gone extra.
      moved rd (st_codec st) (retryKey (st_opts st) topic grp) (streamKey (st_opts st) topic) gone extra (cn_srv c) (cn_srv c')
    \<and> distinct (gone @ extra) \<and> length extra \<le> 1
    \<and> (\<forall>m\<in>set (gone @ extra). \<exists>sc\<le>UnixMilli now. rd_zset rd (cn_srv c) (retryKey (st_opts st) topic grp) m = Some sc)
    \<and> (\<forall>n>0. res = Inr n \<longrightarrow> extra = [] \<and> n = int (length gone)
         \<and> (\<forall>m sc. rd_zset rd (cn_srv c) (retryKey (st_opts st) topic grp) m = Some sc \<longrightarrow> sc \<le> UnixMilli now \<longrightarrow>
               m \<notin> set gone \<longrightarrow> int (length gone) = max 1 limit))"
  by (rule PromoteDueRetries_moved [OF laws st p])

definition demo_payload :: string where
  "demo_payload = projr (pc_marshal_envelope mem_pc (retry_envelope ''t'' demo_delivery 2))"

definition demo_retries :: "memredis conn" where
  "demo_retries = demo_conn\<lparr>cn_srv := demo_server\<lparr>mr_zsets := (\<lambda>_. [])(''wego:pubsub:t:retry:g'' := [(demo_payload, - 9)])\<rparr>,
     cn_links := [LostAfter (Errs ''i/o timeout'')]\<rparr>"

lemma promote_conserves_witness:
  "\<exists>gone extra. moved mem_redis mem_pc (retryKey pubsub_defaultOptions ''t'' ''g'') (streamKey pubsub_defaultOptions ''t'') gone extra
      (cn_srv demo_retries) (cn_srv (snd (PromoteDueRetries demo_store ''t'' ''g'' 5 (63000000000 * second) demo_retries)))
    \<and> length extra \<le> 1"
proof -
  have c: "st_codec demo_store = mem_pc" "st_opts demo_store = pubsub_defaultOptions" by (simp_all add: demo_store_def)
  from promote_conserves [OF mem_redis_laws demo_store_rdb prod.collapse [symmetric], where topic = "''t''"
      and grp = "''g''" and limit = 5 and now = "63000000000 * second" and c = demo_retries]
  show ?thesis unfolding c by blast
qed

subsection \<open>A retry is the message it was\<close>

text \<open>What a promoted retry is decoded to.\<close>

lemma retry_decode:
  assumes cc: "codec_ok pc" and ok: "envelope_ok (retry_envelope topic dl next)" and pos: "0 < next"
  shows "\<exists>payload f. pc_marshal_envelope pc (retry_envelope topic dl next) = Inr payload
    \<and> promoted_fields pc payload = Inr f
    \<and> (\<forall>i topic' grp consumer. i \<noteq> [] \<longrightarrow> decodeEntry pc topic' grp consumer \<lparr>e_ID = i, e_Values = f\<rparr> =
        Inr \<lparr>dl_ID = i, dl_Topic = topic', dl_Group = grp, dl_Consumer = consumer, dl_Attempt = next,
             dl_PublishedAt = dl_PublishedAt dl, dl_Message = (clean_message (dl_Message dl))\<lparr>m_ScheduledAt := 0\<rparr>,
             dl_Raw = f\<rparr>)"
proof -
  let ?re = "retry_envelope topic dl next"
  have law: "envelope_law pc" using cc by (simp add: codec_ok_def)
  then obtain payload it p where m: "pc_marshal_envelope pc ?re = Inr payload" "pc_lua_decode pc payload = Inr it"
      "li_key it = Some (utf8_clean (re_Key ?re))" "li_type it = Some (utf8_clean (re_Type ?re))"
      "li_data it = Some (utf8_clean (re_Data ?re))"
      "li_headers it = Some (clean_headers (re_Headers ?re))" "li_published_at it = Some p"
      "pc_parse pc (TrimSpace p) = Some (re_PublishedAt ?re)"
      "li_max_deliver it = Some (Itoa (re_MaxDeliver ?re))" "li_attempt it = Some (Itoa (re_Attempt ?re))"
    using ok unfolding envelope_law_def by blast
  let ?h = "pc_lua_encode pc (clean_headers (re_Headers ?re))"
  have h: "TrimSpace ?h \<noteq> []" "pc_unmarshal_headers pc (TrimSpace ?h) = Inr (clean_headers (re_Headers ?re))"
    using law clean_headers_utf8 unfolding envelope_law_def by blast+
  define f where "f = [fieldKey \<mapsto> utf8_clean (re_Key ?re), fieldType \<mapsto> utf8_clean (re_Type ?re),
      fieldData \<mapsto> utf8_clean (re_Data ?re), fieldHeaders \<mapsto> ?h, fieldPublishedAt \<mapsto> p,
      fieldMaxDeliver \<mapsto> Itoa (re_MaxDeliver ?re), fieldAttempt \<mapsto> Itoa (re_Attempt ?re)]"
  have pf: "promoted_fields pc payload = Inr f"
    by (simp add: promoted_fields_def m f_def or_empty_def lua_arg_def)
  have fs: "field f fieldKey = utf8_clean (re_Key ?re)" "field f fieldType = utf8_clean (re_Type ?re)"
      "field f fieldData = utf8_clean (re_Data ?re)"
      "field f fieldHeaders = ?h" "field f fieldPublishedAt = p"
      "field f fieldMaxDeliver = Itoa (re_MaxDeliver ?re)" "field f fieldAttempt = Itoa (re_Attempt ?re)"
    using field_names_distinct by (simp_all add: f_def)
  have b: "0 \<le> re_MaxDeliver ?re" "in_int64 (re_MaxDeliver ?re)" "in_int64 (re_Attempt ?re)"
    using ok by (auto simp: envelope_ok_def in_int64_def min_int64_def max_int64_def)
  have a: "re_Attempt ?re = next" by (simp add: retry_envelope_def)
  have "decodeEntry pc topic' grp consumer \<lparr>e_ID = i, e_Values = f\<rparr> =
        Inr \<lparr>dl_ID = i, dl_Topic = topic', dl_Group = grp, dl_Consumer = consumer, dl_Attempt = next,
             dl_PublishedAt = dl_PublishedAt dl, dl_Message = (clean_message (dl_Message dl))\<lparr>m_ScheduledAt := 0\<rparr>,
             dl_Raw = f\<rparr>" if "i \<noteq> []" for i topic' grp consumer
    using b pos h m(8) fs that a
      decodeEntry_fields [of "\<lparr>e_ID = i, e_Values = f\<rparr>" f "re_MaxDeliver ?re" "re_Attempt ?re" pc
        "re_PublishedAt ?re" "clean_headers (re_Headers ?re)" topic' grp consumer]
    by (simp add: retry_envelope_def clean_message_def)
  with m(1) pf show ?thesis by blast
qed

text \<open>
  C17: a message whose handler failed is delivered again as it was.  What the retry script stores,
  once a turn of the promotion script has succeeded with it, is at the end of the stream and
  gone from the retry set, and every consumer decodes it to the same key, type, data, headers,
  limit and publication instant, with the attempt counted up.  The JSON it went through replaces
  bytes that are not UTF-8 (\<open>clean_message\<close>), and keeps a message of valid UTF-8
  (\<open>clean_message_id\<close>).  The limit is below \<open>10\<^sup>1\<^sup>4\<close> and the instant one that JSON can hold (\<open>envelope_ok\<close>).
\<close>

theorem retry_roundtrip:
  assumes laws: "redis_laws rd" and cc: "codec_ok pc"
    and ok: "envelope_ok (retry_envelope topic dl next)" and pos: "0 < next"
  shows "\<exists>payload. pc_marshal_envelope pc (retry_envelope topic dl next) = Inr payload
    \<and> (\<forall>rk stream d n d'. promote_one rd pc rk stream payload d = (Inr n, d') \<longrightarrow>
        (\<exists>i f. rd_entries rd d' = (rd_entries rd d)(stream := rd_entries rd d stream @ [\<lparr>e_ID = i, e_Values = f\<rparr>])
          \<and> rd_zset rd d' = (rd_zset rd d)(rk := (rd_zset rd d rk)(payload := None))
          \<and> rd_pending rd d' = rd_pending rd d
          \<and> (\<forall>topic' grp consumer. decodeEntry pc topic' grp consumer \<lparr>e_ID = i, e_Values = f\<rparr> =
              Inr \<lparr>dl_ID = i, dl_Topic = topic', dl_Group = grp, dl_Consumer = consumer, dl_Attempt = next,
                   dl_PublishedAt = dl_PublishedAt dl,
                   dl_Message = (clean_message (dl_Message dl))\<lparr>m_ScheduledAt := 0\<rparr>, dl_Raw = f\<rparr>)))"
proof -
  obtain payload f where p: "pc_marshal_envelope pc (retry_envelope topic dl next) = Inr payload"
      "promoted_fields pc payload = Inr f"
    and dec: "\<And>i topic' grp consumer. i \<noteq> [] \<Longrightarrow> decodeEntry pc topic' grp consumer \<lparr>e_ID = i, e_Values = f\<rparr> =
        Inr \<lparr>dl_ID = i, dl_Topic = topic', dl_Group = grp, dl_Consumer = consumer, dl_Attempt = next,
             dl_PublishedAt = dl_PublishedAt dl, dl_Message = (clean_message (dl_Message dl))\<lparr>m_ScheduledAt := 0\<rparr>,
             dl_Raw = f\<rparr>"
    using retry_decode [OF cc ok pos] by blast
  have "\<exists>i. i \<noteq> [] \<and> rd_entries rd d' = (rd_entries rd d)(s := rd_entries rd d s @ [\<lparr>e_ID = i, e_Values = f\<rparr>])
      \<and> rd_zset rd d' = (rd_zset rd d)(k := (rd_zset rd d k)(payload := None)) \<and> rd_pending rd d' = rd_pending rd d"
    if r: "promote_one rd pc k s payload d = (Inr n, d')" for k s d n d'
  proof -
    from promote_one_moved [OF laws r] have mv: "moved rd pc k s [payload] [] d d'" by simp
    then obtain new where new: "rd_entries rd d' = (rd_entries rd d)(s := rd_entries rd d s @ new)"
        "map (\<lambda>e. Inr (e_Values e)) new = map (promoted_fields pc) [payload]" "\<forall>e\<in>set new. e_ID e \<noteq> []"
      and z: "rd_pending rd d' = rd_pending rd d" "rd_zset rd d' = (rd_zset rd d)(k := (rd_zset rd d k) |` (- {payload}))"
      unfolding moved_def by auto
    obtain e where e: "new = [e]" "e_Values e = f" using new(2) p(2) by (cases new) auto
    then have "new = [\<lparr>e_ID = e_ID e, e_Values = f\<rparr>]" by (cases e) simp
    moreover have "(rd_zset rd d k) |` (- {payload}) = (rd_zset rd d k)(payload := None)"
      by (auto simp: restrict_map_def fun_eq_iff)
    ultimately show ?thesis using new(1,3) z e(1) by (intro exI [of _ "e_ID e"]) simp
  qed
  with p(1) dec show ?thesis by metis
qed

lemma demo_promotable: "envelope_ok (retry_envelope ''t'' demo_delivery 2)"
  by (simp add: envelope_ok_def retry_envelope_def demo_delivery_def finite_headers_def json_time_def second_def)

lemma retry_roundtrip_witness:
  "\<exists>i f. rd_entries mem_redis (snd (promote_one mem_redis mem_pc ''r'' ''s'' demo_payload demo_server)) ''s'' = [\<lparr>e_ID = i, e_Values = f\<rparr>]
    \<and> decodeEntry mem_pc ''t'' ''g'' ''c'' \<lparr>e_ID = i, e_Values = f\<rparr> =
        Inr (demo_delivery\<lparr>dl_ID := i, dl_Attempt := 2, dl_Raw := f\<rparr>)"
proof -
  from retry_roundtrip [OF mem_redis_laws mem_pc_ok demo_promotable]
  obtain payload where p: "pc_marshal_envelope mem_pc (retry_envelope ''t'' demo_delivery 2) = Inr payload"
    and r: "\<And>rk stream d n d'. promote_one mem_redis mem_pc rk stream payload d = (Inr n, d') \<Longrightarrow>
        \<exists>i f. rd_entries mem_redis d' = (rd_entries mem_redis d)(stream := rd_entries mem_redis d stream @ [\<lparr>e_ID = i, e_Values = f\<rparr>])
          \<and> (\<forall>topic' grp consumer. decodeEntry mem_pc topic' grp consumer \<lparr>e_ID = i, e_Values = f\<rparr> =
              Inr \<lparr>dl_ID = i, dl_Topic = topic', dl_Group = grp, dl_Consumer = consumer, dl_Attempt = 2,
                   dl_PublishedAt = dl_PublishedAt demo_delivery,
                   dl_Message = (clean_message (dl_Message demo_delivery))\<lparr>m_ScheduledAt := 0\<rparr>, dl_Raw = f\<rparr>)"
    by (auto simp del: clean_message_simps) blast
  have dp: "demo_payload = payload" by (simp add: demo_payload_def p)
  obtain f where f: "promoted_fields mem_pc payload = Inr f"
    using retry_decode [OF mem_pc_ok demo_promotable] p by auto
  then obtain n d' where one: "promote_one mem_redis mem_pc ''r'' ''s'' payload demo_server = (Inr n, d')"
    by (simp add: promote_one_def op_then_def mem_redis_def Let_def)
  have "utf8_message (dl_Message demo_delivery)"
  proof -
    have "utf8_valid ''k''" "utf8_valid ''order''" "utf8_valid ''body''" by code_simp+
    then show ?thesis by (simp add: utf8_message_def demo_delivery_def utf8_headers_def)
  qed
  note clean = clean_message_id [OF this]
  have "rd_entries mem_redis demo_server ''s'' = []" by (simp add: mem_redis_def demo_server_def)
  with r [OF one] show ?thesis unfolding dp one clean by (auto simp: demo_delivery_def)
qed

end
