(* ===== verification/PubsubStart.thy ===== *)
theory PubsubStart
  imports PubsubPromote
begin

text \<open>Publishing, claiming and starting the pub/sub service.\<close>

subsection \<open>Options\<close>

text \<open>
  With whatever options a service is built and whatever policy a subscription has, the
  intervals and limits the loops use are positive (a ticker would panic otherwise), and the
  delay before an attempt is one of the configured ones.
\<close>

theorem pubsub_service_options_positive:
  "let opts = st_opts (ps_store (pubsub_NewService getLogger pc rdb options :: ('r, 'w) pubsub_service));
       retry = effectiveRetry sub (po_retry opts) in
     pubsub_options_ok opts \<and> retry_policy_ok retry
     \<and> pubsub_retryDelay retry (int k + 2) \<in> set (rp_Backoff retry)"
proof -
  let ?o = "st_opts (ps_store (pubsub_NewService getLogger pc rdb options :: ('r, 'w) pubsub_service))"
  have "pubsub_options_ok (fold apply_pubsub_option options pubsub_defaultOptions)"
    by (rule pubsub_opts.apply_all_good) (rule pubsub_default_ok)
  then have ok: "pubsub_options_ok ?o" by (simp add: pubsub_NewService_def Let_def pubsub_options_ok_def)
  then have r: "retry_policy_ok (effectiveRetry sub (po_retry ?o))"
    by (simp add: pubsub_options_ok_def effectiveRetry_def merge_retry_ok)
  then have "pubsub_retryDelay (effectiveRetry sub (po_retry ?o)) (int k + 2) \<in> set (rp_Backoff (effectiveRetry sub (po_retry ?o)))"
    by (intro pubsub_backoff.delay_mem) (simp_all add: retry_policy_ok_def)
  with ok r show ?thesis by (simp add: Let_def)
qed

subsection \<open>Publishing\<close>


definition demo_service :: "(memredis, nat) pubsub_service" where
  "demo_service = \<lparr>ps_store = demo_store, ps_router = NewRouter, ps_started = False\<rparr>"


subsection \<open>Starting\<close>

text \<open>The names of the consumers of a topic and group among goroutines, and of the claimers.\<close>

fun consumers :: "string \<Rightarrow> string \<Rightarrow> 'h goroutine list \<Rightarrow> string list" where
  "consumers t g [] = []"
| "consumers t g (ConsumeLoop sub n # ws) =
     (if s_Topic sub = t \<and> s_Group sub = g then n # consumers t g ws else consumers t g ws)"
| "consumers t g (_ # ws) = consumers t g ws"

fun claimers :: "string \<Rightarrow> string \<Rightarrow> 'h goroutine list \<Rightarrow> string list" where
  "claimers t g [] = []"
| "claimers t g (ClaimLoop sub n # ws) =
     (if s_Topic sub = t \<and> s_Group sub = g then n # claimers t g ws else claimers t g ws)"
| "claimers t g (_ # ws) = claimers t g ws"

fun retriers :: "string \<Rightarrow> string \<Rightarrow> 'h goroutine list \<Rightarrow> nat" where
  "retriers t g [] = 0"
| "retriers t g (RetryLoop sub # ws) = (if s_Topic sub = t \<and> s_Group sub = g then 1 else 0) + retriers t g ws"
| "retriers t g (_ # ws) = retriers t g ws"

lemma goroutines_append:
  "consumers t g (xs @ ys) = consumers t g xs @ consumers t g ys"
  "claimers t g (xs @ ys) = claimers t g xs @ claimers t g ys"
  "retriers t g (xs @ ys) = retriers t g xs + retriers t g ys"
  by (induction xs rule: consumers.induct) auto

lemma goroutines_of_sub:
  "consumers t g (concat (map (\<lambda>i. [ConsumeLoop sub (f i), ClaimLoop sub (f i)]) js)) =
     (if s_Topic sub = t \<and> s_Group sub = g then map f js else [])"
  "claimers t g (concat (map (\<lambda>i. [ConsumeLoop sub (f i), ClaimLoop sub (f i)]) js)) =
     (if s_Topic sub = t \<and> s_Group sub = g then map f js else [])"
  "retriers t g (concat (map (\<lambda>i. [ConsumeLoop sub (f i), ClaimLoop sub (f i)]) js)) = 0"
  by (induction js) auto

lemma start_workers_of:
  "consumers t g (start_workers sub c) =
     (if s_Topic sub = t \<and> s_Group sub = g then map (workerName c (s_Concurrency sub)) [0..<nat (s_Concurrency sub)] else [])"
  "claimers t g (start_workers sub c) = consumers t g (start_workers sub c)"
  "retriers t g (start_workers sub c) = (if s_Topic sub = t \<and> s_Group sub = g then 1 else 0)"
  by (simp_all add: start_workers_def goroutines_append goroutines_of_sub)

lemma workerName_distinct:
  assumes "in_int64 n"
  shows "distinct (map (workerName c n) [0..<nat n])"
proof (cases "n > 1")
  case True
  have "inj_on (workerName c n) {0..<nat n}"
  proof (rule inj_onI)
    fix i j assume "i \<in> {0..<nat n}" "j \<in> {0..<nat n}" "workerName c n i = workerName c n j"
    then show "i = j"
      using True assms Itoa_inj [of "int i + 1" "int j + 1"]
      by (auto simp: workerName_def in_int64_def min_int64_def max_int64_def)
  qed
  then show ?thesis by (simp add: distinct_map)
next
  case False
  then have "nat n = 0 \<or> nat n = 1" by linarith
  then show ?thesis by auto
qed

text \<open>The goroutines of subscriptions that all have different topics or groups.\<close>

lemma start_subs_workers:
  assumes "start_subs st namer subs c = ((None, ws), c')" "distinct (map (\<lambda>s. (s_Topic s, s_Group s)) subs)"
    and "\<forall>s\<in>set subs. in_int64 (s_Concurrency s)"
  shows "(\<forall>s\<in>set subs. length (consumers (s_Topic s) (s_Group s) ws) = nat (s_Concurrency s)
      \<and> distinct (consumers (s_Topic s) (s_Group s) ws)
      \<and> claimers (s_Topic s) (s_Group s) ws = consumers (s_Topic s) (s_Group s) ws
      \<and> retriers (s_Topic s) (s_Group s) ws = 1)
    \<and> (\<forall>t g. (t, g) \<notin> (\<lambda>s. (s_Topic s, s_Group s)) ` set subs \<longrightarrow>
         consumers t g ws = [] \<and> claimers t g ws = [] \<and> retriers t g ws = 0)"
  using assms
proof (induction subs arbitrary: namer c ws)
  case (Cons sub subs)
  let ?id = "\<lambda>s. (s_Topic s, s_Group s)"
  define own where "own = TrimSpace (s_Consumer sub)"
  define consumer where "consumer = (if own = [] then namer 0 else own)"
  define sub1 where "sub1 = (if own = [] then sub\<lparr>s_Consumer := consumer\<rparr> else sub)"
  obtain c1 ws' where rest: "start_subs st (if own = [] then (\<lambda>k. namer (Suc k)) else namer) subs c1 = ((None, ws'), c')"
      and ws: "ws = start_workers sub1 consumer @ ws'"
    using Cons.prems(1)
    by (auto simp: own_def consumer_def sub1_def Let_def split: prod.splits option.splits)
  have same: "s_Topic sub1 = s_Topic sub" "s_Group sub1 = s_Group sub" "s_Concurrency sub1 = s_Concurrency sub"
    by (simp_all add: sub1_def)
  note IH = Cons.IH [OF rest]
  have fresh: "?id sub \<notin> ?id ` set subs" using Cons.prems(2) by simp
  have ih: "\<forall>s\<in>set subs. length (consumers (s_Topic s) (s_Group s) ws') = nat (s_Concurrency s)
      \<and> distinct (consumers (s_Topic s) (s_Group s) ws')
      \<and> claimers (s_Topic s) (s_Group s) ws' = consumers (s_Topic s) (s_Group s) ws'
      \<and> retriers (s_Topic s) (s_Group s) ws' = 1"
    and out: "\<And>t g. (t, g) \<notin> ?id ` set subs \<Longrightarrow> consumers t g ws' = [] \<and> claimers t g ws' = [] \<and> retriers t g ws' = 0"
    using IH Cons.prems(2,3) by auto
  have here: "length (consumers (s_Topic sub) (s_Group sub) ws) = nat (s_Concurrency sub)
      \<and> distinct (consumers (s_Topic sub) (s_Group sub) ws)
      \<and> claimers (s_Topic sub) (s_Group sub) ws = consumers (s_Topic sub) (s_Group sub) ws
      \<and> retriers (s_Topic sub) (s_Group sub) ws = 1"
    using out [OF fresh] workerName_distinct Cons.prems(3)
    by (simp add: ws goroutines_append start_workers_of same)
  have elsewhere: "consumers t g ws = consumers t g ws' \<and> claimers t g ws = claimers t g ws' \<and> retriers t g ws = retriers t g ws'"
    if "(t, g) \<noteq> ?id sub" for t g
    using that by (auto simp: ws goroutines_append start_workers_of same)
  show ?case
  proof (intro conjI ballI allI impI)
    fix s assume s: "s \<in> set (sub # subs)"
    show "length (consumers (s_Topic s) (s_Group s) ws) = nat (s_Concurrency s)"
      "distinct (consumers (s_Topic s) (s_Group s) ws)"
      "claimers (s_Topic s) (s_Group s) ws = consumers (s_Topic s) (s_Group s) ws"
      "retriers (s_Topic s) (s_Group s) ws = 1"
      using s here ih fresh elsewhere [of "s_Topic s" "s_Group s"] by (force simp: image_iff)+
  next
    fix t g assume "(t, g) \<notin> ?id ` set (sub # subs)"
    with elsewhere [of t g] out [of t g]
    show "consumers t g ws = []" "claimers t g ws = []" "retriers t g ws = 0" by auto
  qed
qed simp

lemma router_List_distinct:
  assumes "router_ok r" "range_order (rt_subs r) ks"
  shows "distinct (map (\<lambda>s. (s_Topic s, s_Group s)) (router_List r ks))"
    "set (router_List r ks) = ran (rt_subs r)"
proof -
  have k: "subscriptionKey (s_Topic (the (rt_subs r k))) (s_Group (the (rt_subs r k))) = k" if "k \<in> set ks" for k
  proof -
    from that assms(2) obtain s where s: "rt_subs r k = Some s" by (auto simp: range_order_def)
    with assms(1) have "k = subscriptionKey (s_Topic s) (s_Group s)" by (simp add: router_ok_def)
    with s show ?thesis by simp
  qed
  have "inj_on (\<lambda>k. (s_Topic (the (rt_subs r k)), s_Group (the (rt_subs r k)))) (set ks)"
  proof (rule inj_onI)
    fix x y assume x: "x \<in> set ks" and y: "y \<in> set ks"
      and e: "(s_Topic (the (rt_subs r x)), s_Group (the (rt_subs r x))) = (s_Topic (the (rt_subs r y)), s_Group (the (rt_subs r y)))"
    have "x = subscriptionKey (s_Topic (the (rt_subs r x))) (s_Group (the (rt_subs r x)))" by (rule k [OF x, symmetric])
    also have "\<dots> = subscriptionKey (s_Topic (the (rt_subs r y))) (s_Group (the (rt_subs r y)))"
      using e by (simp only: prod.inject)
    also have "\<dots> = y" by (rule k [OF y])
    finally show "x = y" .
  qed
  then show "distinct (map (\<lambda>s. (s_Topic s, s_Group s)) (router_List r ks))"
    using assms(2) by (simp add: router_List_def distinct_map range_order_def comp_def)
  show "set (router_List r ks) = ran (rt_subs r)"
  proof -
    have "set ks = dom (rt_subs r)" using assms(2) by (simp add: range_order_def)
    then show ?thesis by (auto simp: router_List_def ran_def image_iff dom_def) (metis option.sel)
  qed
qed

text \<open>
  C20: a successful start freezes the router and launches, for each subscription, as many
  consumers as its concurrency says, under different names, a claimer of the same name for
  each, and one retry loop, and nothing else; a second start and later subscriptions are
  refused.
\<close>

theorem Start_workers:
  assumes r: "router_ok (ps_router s)" "range_order (rt_subs (ps_router s)) ks"
    and n: "\<forall>sub\<in>ran (rt_subs (ps_router s)). in_int64 (s_Concurrency sub)"
    and st: "pubsub_Start s ks namer c = ((None, ws), s', c')"
  shows "(\<forall>sub\<in>ran (rt_subs (ps_router s)).
        length (consumers (s_Topic sub) (s_Group sub) ws) = nat (s_Concurrency sub)
        \<and> distinct (consumers (s_Topic sub) (s_Group sub) ws)
        \<and> claimers (s_Topic sub) (s_Group sub) ws = consumers (s_Topic sub) (s_Group sub) ws
        \<and> retriers (s_Topic sub) (s_Group sub) ws = 1)
    \<and> (\<forall>t g. (\<forall>sub\<in>ran (rt_subs (ps_router s)). (s_Topic sub, s_Group sub) \<noteq> (t, g)) \<longrightarrow>
          consumers t g ws = [] \<and> claimers t g ws = [] \<and> retriers t g ws = 0)
    \<and> fst (fst (pubsub_Start s' ks' namer' c'')) = Some ErrServiceStarted
    \<and> Subscribe s' sub' = (Some ErrServiceStarted, s')"
proof -
  let ?l = "router_List (ps_router s) ks"
  have l: "router_List (Freeze (ps_router s)) ks = ?l" by (simp add: router_List_def Freeze_def)
  have started: "ps_started s'" "ps_store s' = ps_store s" "st_rdb (ps_store s) \<noteq> None"
    and go: "start_subs (ps_store s) namer ?l c = ((None, ws), c')"
    using st by (auto simp: pubsub_Start_def Let_def l split: if_splits prod.splits)
  note d = router_List_distinct [OF r]
  have "\<forall>s\<in>set ?l. in_int64 (s_Concurrency s)" using n d(2) by simp
  note w = start_subs_workers [OF go d(1) this, unfolded d(2)]
  have "(t, g) \<notin> (\<lambda>s. (s_Topic s, s_Group s)) ` ran (rt_subs (ps_router s))"
    if "\<forall>sub\<in>ran (rt_subs (ps_router s)). (s_Topic sub, s_Group sub) \<noteq> (t, g)" for t g
    using that by auto
  with w have "\<forall>t g. (\<forall>sub\<in>ran (rt_subs (ps_router s)). (s_Topic sub, s_Group sub) \<noteq> (t, g)) \<longrightarrow>
      consumers t g ws = [] \<and> claimers t g ws = [] \<and> retriers t g ws = 0" by blast
  with w started show ?thesis by (auto simp: pubsub_Start_def Subscribe_def)
qed

lemma Start_workers_witness:
  "case pubsub_Start (demo_service\<lparr>ps_router := snd (Add NewRouter demo_sub)\<rparr>) [''t::g''] (\<lambda>_. ''c'') demo_conn of
     ((e, ws), _) \<Rightarrow> e = None \<and> length (consumers ''t'' ''g'' ws) = 2 \<and> distinct (consumers ''t'' ''g'' ws)"
proof -
  let ?r = "snd (Add NewRouter demo_sub)"
  let ?s = "demo_service\<lparr>ps_router := ?r\<rparr>"
  have key: "subscriptionKey ''t'' ''g'' = ''t::g''" "normalizeTopic ''t'' = ''t''" "normalizeGroup ''g'' = ''g''"
      "streamKey pubsub_defaultOptions ''t'' = ''wego:pubsub:t''" "contains (Error (Errs ''BUSYGROUP'')) ''BUSYGROUP''"
      "TrimSpace [] = ([] :: string)"
    by code_simp+
  have v: "subscription_Validate demo_sub = None"
    using key by (simp add: subscription_Validate_def demo_sub_def)
  have subs: "rt_subs ?r = [''t::g'' \<mapsto> added demo_sub]"
    using v key by (simp add: Add_def NewRouter_def demo_sub_def Let_def)
  have r: "router_ok (ps_router ?s)" using Add_ok [OF router_new_ok] by simp
  have ad: "s_Topic (added demo_sub) = ''t''" "s_Group (added demo_sub) = ''g''" "s_Concurrency (added demo_sub) = 2"
      "s_Consumer (added demo_sub) = []"
    using key by (simp_all add: added_def demo_sub_def)
  have o: "range_order (rt_subs (ps_router ?s)) [''t::g'']" by (simp add: range_order_def subs)
  have n: "\<forall>sub\<in>ran (rt_subs (ps_router ?s)). in_int64 (s_Concurrency sub)"
    by (simp add: subs ad in_int64_def min_int64_def max_int64_def)
  obtain e ws s' c' where st: "pubsub_Start ?s [''t::g''] (\<lambda>_. ''c'') demo_conn = ((e, ws), s', c')"
    by (metis prod.exhaust)
  have "e = None"
    using st key ad
    by (auto simp: pubsub_Start_def demo_service_def demo_store_def router_List_def Freeze_def subs EnsureGroup_def
        rpc_def demo_conn_def demo_server_def mem_redis_def Let_def split: prod.splits if_splits)
  with st Start_workers [OF r o n] show ?thesis by (auto simp: subs ad)
qed

subsection \<open>Claiming\<close>

lemma rpc_reads_only:
  assumes "reads_only rd cmd" "rpc cmd c = (res, c')"
  shows "same_data rd (cn_srv c) (cn_srv c')"
  using rpc_srv [OF assms(2)] assms(1) by (auto simp: reads_only_def) (metis prod.collapse)

lemma rpc_links: "rpc cmd c = (res, c') \<Longrightarrow> set (cn_links c') \<subseteq> set (cn_links c)"
  by (auto simp: rpc_def split: list.splits link.splits prod.splits)

lemma rpc_healthy: "\<forall>l\<in>set (cn_links c). l = LinkOk \<Longrightarrow> rpc cmd c = (res, c') \<Longrightarrow> cmd (cn_srv c) = (res, cn_srv c')"
  by (auto simp: rpc_def split: list.splits link.splits prod.splits)

lemma same_data_sym: "same_data rd d d' \<Longrightarrow> same_data rd d' d"
  by (simp add: same_data_def)

lemma dropped_pending_none: "same_data rd d d' \<Longrightarrow> dropped_pending rd s g {} d d'"
  by (simp add: same_data_def dropped_pending_def fun_eq_iff)

lemma dropped_pending_same: "dropped_pending rd s g gone d d1 \<Longrightarrow> same_data rd d1 d' \<Longrightarrow> dropped_pending rd s g gone d d'"
  by (simp add: same_data_def dropped_pending_def)

lemma rd_xpending_ok:
  assumes "redis_laws rd"
  shows "reads_only rd (rd_xpending rd s g i)" "0 \<le> rd_count rd d s g i"
    and "rd_xpending rd s g i d = (Inr n, d') \<Longrightarrow>
      n = (if i \<in> rd_pending rd d s g then Some (rd_count rd d s g i) else None)
      \<and> (i \<in> rd_pending rd d s g \<longrightarrow> in_int64 (rd_count rd d s g i))"
proof -
  have l: "xautoclaim_law rd" using assms by (simp add: redis_laws_def)
  show "reads_only rd (rd_xpending rd s g i)" "0 \<le> rd_count rd d s g i" using l by (simp_all add: xautoclaim_law_def)
  show "rd_xpending rd s g i d = (Inr n, d') \<Longrightarrow>
      n = (if i \<in> rd_pending rd d s g then Some (rd_count rd d s g i) else None)
      \<and> (i \<in> rd_pending rd d s g \<longrightarrow> in_int64 (rd_count rd d s g i))"
    using l unfolding xautoclaim_law_def by meson
qed

lemma rd_xautoclaim_ok:
  assumes "redis_laws rd" "rd_xautoclaim rd s g cn t st n d = (Inr (es, nx), d')"
  shows "\<forall>e\<in>set es. e \<in> set (rd_entries rd d s) \<and> e_ID e \<in> rd_pending rd d s g
           \<and> rd_count rd d' s g (e_ID e) = rd_count rd d s g (e_ID e) + 1"
    and "\<exists>gone. dropped_pending rd s g gone d d'"
proof -
  have l: "xautoclaim_law rd" using assms by (simp add: redis_laws_def)
  note law = l [unfolded xautoclaim_law_def, THEN conjunct2, THEN conjunct2, THEN conjunct1, rule_format, OF assms(2)]
  from law show "\<exists>gone. dropped_pending rd s g gone d d'" by blast
  show "\<forall>e\<in>set es. e \<in> set (rd_entries rd d s) \<and> e_ID e \<in> rd_pending rd d s g
           \<and> rd_count rd d' s g (e_ID e) = rd_count rd d s g (e_ID e) + 1"
    using law by blast
qed

lemma rpc_xautoclaim:
  assumes laws: "redis_laws rd" and r: "rpc (rd_xautoclaim rd s g cn t st n) c = (res, c')"
  shows "\<exists>gone. dropped_pending rd s g gone (cn_srv c) (cn_srv c')"
proof -
  obtain sres d1 where x: "rd_xautoclaim rd s g cn t st n (cn_srv c) = (sres, d1)" by (rule prod.exhaust)
  have "keeps_on_error rd (rd_xautoclaim rd s g cn t st n)"
    using laws by (simp add: redis_laws_def xautoclaim_law_def)
  then have err: "sres = Inl e \<Longrightarrow> same_data rd (cn_srv c) d1" for e using x unfolding keeps_on_error_def by blast
  have "\<exists>gone. dropped_pending rd s g gone (cn_srv c) d1"
  proof (cases sres)
    case (Inl e)
    from dropped_pending_none [OF err [OF this]] show ?thesis by blast
  next
    case (Inr y)
    then show ?thesis using rd_xautoclaim_ok(2) [OF laws, of s g cn t st n "cn_srv c" "fst y" "snd y" d1] x by simp
  qed
  moreover have "\<exists>gone. dropped_pending rd s g gone (cn_srv c) (cn_srv c)"
    by (rule exI, rule dropped_pending_none [OF same_data_refl])
  ultimately show ?thesis using rpc_srv [OF r] x by auto
qed

text \<open>A claimed entry is the stored one, perhaps with the count of the server as its attempt.\<close>

definition claimed_of :: "entry \<Rightarrow> entry \<Rightarrow> bool" where
  "claimed_of m e \<longleftrightarrow>
     e_ID e = e_ID m
     \<and> (e_Values e = e_Values m \<or> (\<exists>n>0. in_int64 n \<and> e_Values e = (e_Values m)(fieldAttempt \<mapsto> Itoa n)))"

lemma claimed_of_fields: "claimed_of m e \<Longrightarrow> e_ID e = e_ID m \<and> (\<forall>k. k \<noteq> fieldAttempt \<longrightarrow> e_Values e k = e_Values m k)"
  by (auto simp: claimed_of_def)

text \<open>
  What the fields of a claimed entry are: the stored ones, or these with the count as attempt, and
  the latter when the requests for the counts are answered.
\<close>

definition claimed_values :: "'r redis \<Rightarrow> string \<Rightarrow> string \<Rightarrow> 'r \<Rightarrow> entry \<Rightarrow> entry \<Rightarrow> bool" where
  "claimed_values rd k g d m e \<longleftrightarrow>
     e_Values e = e_Values m
     \<or> (0 < rd_count rd d k g (e_ID m) \<and> in_int64 (rd_count rd d k g (e_ID m))
        \<and> e_Values e = (e_Values m)(fieldAttempt \<mapsto> Itoa (rd_count rd d k g (e_ID m))))"

definition counts_answered :: "'r redis \<Rightarrow> string \<Rightarrow> string \<Rightarrow> 'r conn \<Rightarrow> 'r \<Rightarrow> bool" where
  "counts_answered rd k g c d \<longleftrightarrow>
     (\<forall>l\<in>set (cn_links c). l = LinkOk)
     \<and> (\<forall>i x. same_data rd d x \<longrightarrow> (\<exists>n y. rd_xpending rd k g i x = (Inr n, y)))"

lemma counts_answered_mono:
  "counts_answered rd k g c d \<Longrightarrow> set (cn_links c1) \<subseteq> set (cn_links c) \<Longrightarrow> same_data rd d d1 \<Longrightarrow> counts_answered rd k g c1 d1"
  unfolding counts_answered_def by (blast intro: same_data_trans)

lemma claimed_values_same: "same_data rd d d' \<Longrightarrow> claimed_values rd k g d m e = claimed_values rd k g d' m e"
  by (simp add: same_data_def claimed_values_def)

lemma claimed_values_of: "e_ID e = e_ID m \<Longrightarrow> claimed_values rd k g d m e \<Longrightarrow> claimed_of m e"
  by (auto simp: claimed_values_def claimed_of_def)

text \<open>One request for a count.\<close>

lemma pendingRetryCount_result:
  assumes laws: "redis_laws rd" and p: "pendingRetryCount rd opts topic grp i c = (r, c1)"
  defines "k \<equiv> streamKey opts topic"
  shows "same_data rd (cn_srv c) (cn_srv c1)" "set (cn_links c1) \<subseteq> set (cn_links c)"
    and "r = Inr n \<Longrightarrow> n = (if i \<in> rd_pending rd (cn_srv c) k grp then rd_count rd (cn_srv c) k grp i else 0) \<and> in_int64 n"
    and "counts_answered rd k grp c (cn_srv c) \<Longrightarrow> \<exists>n. r = Inr n"
proof -
  obtain r' where x: "rpc (rd_xpending rd k grp i) c = (r', c1)"
      and r: "r = (case r' of Inl e \<Rightarrow> Inl e | Inr None \<Rightarrow> Inr 0 | Inr (Some n) \<Rightarrow> Inr n)"
    using p by (auto simp: pendingRetryCount_def k_def split: prod.splits sum.splits option.splits)
  show "same_data rd (cn_srv c) (cn_srv c1)" by (rule rpc_reads_only [OF rd_xpending_ok(1) [OF laws] x])
  show "set (cn_links c1) \<subseteq> set (cn_links c)" by (rule rpc_links [OF x])
  show "n = (if i \<in> rd_pending rd (cn_srv c) k grp then rd_count rd (cn_srv c) k grp i else 0) \<and> in_int64 n" if "r = Inr n"
  proof (cases r')
    case (Inl e)
    with r that show ?thesis by simp
  next
    case (Inr a)
    from rd_xpending_ok(3) [OF laws rpc_ok [OF x [unfolded Inr]]] r Inr that
    show ?thesis by (auto simp: in_int64_def min_int64_def max_int64_def split: if_splits)
  qed
  show "\<exists>n. r = Inr n" if a: "counts_answered rd k grp c (cn_srv c)"
  proof -
    have "rd_xpending rd k grp i (cn_srv c) = (r', cn_srv c1)"
      using a rpc_healthy [OF _ x] by (simp add: counts_answered_def)
    with a obtain n where "r' = Inr n" unfolding counts_answered_def by (metis same_data_refl prod.inject)
    with r show ?thesis by (simp split: option.splits)
  qed
qed

lemma claim_entries_values:
  fixes sub :: "'h subscription" and opts :: pubsub_options
  assumes laws: "redis_laws rd"
  defines "k \<equiv> streamKey opts (s_Topic sub)"
  shows "claim_entries rd opts sub msgs c = (es, c') \<Longrightarrow>
    \<forall>m\<in>set msgs. e_ID m \<in> rd_pending rd (cn_srv c) k (s_Group sub) \<and> 0 < rd_count rd (cn_srv c) k (s_Group sub) (e_ID m) \<Longrightarrow>
    same_data rd (cn_srv c) (cn_srv c')
    \<and> list_all2 (\<lambda>m e. e_ID e = e_ID m \<and> claimed_values rd k (s_Group sub) (cn_srv c') m e
        \<and> (counts_answered rd k (s_Group sub) c (cn_srv c) \<longrightarrow>
             e_Values e = (e_Values m)(fieldAttempt \<mapsto> Itoa (rd_count rd (cn_srv c') k (s_Group sub) (e_ID m))))) msgs es"
proof (induction msgs arbitrary: c es)
  case (Cons m msgs)
  let ?g = "s_Group sub"
  obtain r c1 where p: "pendingRetryCount rd opts (s_Topic sub) ?g (e_ID m) c = (r, c1)"
    by (rule prod.exhaust)
  note pr = pendingRetryCount_result [OF laws p, folded k_def]
  obtain es' c2 where q0: "claim_entries rd opts sub msgs c1 = (es', c2)" by (rule prod.exhaust)
  have "c2 = c'" using Cons.prems(1) p q0 by (auto simp: Let_def)
  with q0 have q: "claim_entries rd opts sub msgs c1 = (es', c')" by simp
  define e where "e = \<lparr>e_ID = e_ID m, e_Values = (case r of
        Inr retryCount \<Rightarrow> if retryCount > 0 then (e_Values m)(fieldAttempt \<mapsto> Itoa retryCount) else e_Values m
      | Inl _ \<Rightarrow> e_Values m)\<rparr>"
  have es: "es = e # es'" using Cons.prems(1) p q by (auto simp: e_def Let_def)
  have pend: "e_ID m \<in> rd_pending rd (cn_srv c) k ?g" "0 < rd_count rd (cn_srv c) k ?g (e_ID m)"
    using Cons.prems(2) by simp_all
  have n: "n = rd_count rd (cn_srv c) k ?g (e_ID m) \<and> in_int64 n" if "r = Inr n" for n using pr(3) [OF that] pend by auto
  have s1: "same_data rd (cn_srv c) (cn_srv c1)" by (rule pr(1))
  then have "\<forall>m\<in>set msgs. e_ID m \<in> rd_pending rd (cn_srv c1) k ?g \<and> 0 < rd_count rd (cn_srv c1) k ?g (e_ID m)"
    using Cons.prems(2) by (simp add: same_data_def)
  from Cons.IH [OF q this] have s2: "same_data rd (cn_srv c1) (cn_srv c')"
    and ih: "list_all2 (\<lambda>m e. e_ID e = e_ID m \<and> claimed_values rd k ?g (cn_srv c') m e
        \<and> (counts_answered rd k ?g c1 (cn_srv c1) \<longrightarrow>
             e_Values e = (e_Values m)(fieldAttempt \<mapsto> Itoa (rd_count rd (cn_srv c') k ?g (e_ID m))))) msgs es'"
    by blast+
  have s: "same_data rd (cn_srv c) (cn_srv c')" by (rule same_data_trans [OF s1 s2])
  have cnt: "rd_count rd (cn_srv c') = rd_count rd (cn_srv c)" using s by (simp add: same_data_def)
  have "claimed_values rd k ?g (cn_srv c') m e"
  proof (cases r)
    case (Inl x)
    then show ?thesis by (simp add: claimed_values_def e_def)
  next
    case (Inr x)
    with n [OF Inr] pend(2) show ?thesis by (auto simp: claimed_values_def e_def cnt)
  qed
  moreover have "e_Values e = (e_Values m)(fieldAttempt \<mapsto> Itoa (rd_count rd (cn_srv c') k ?g (e_ID m)))"
    if "counts_answered rd k ?g c (cn_srv c)"
  proof -
    from pr(4) [OF that] obtain x where x: "r = Inr x" by blast
    from n [OF x] have "x = rd_count rd (cn_srv c) k ?g (e_ID m)" by (rule conjunct1)
    with x pend(2) show ?thesis by (simp add: e_def cnt)
  qed
  moreover have "counts_answered rd k ?g c1 (cn_srv c1)" if "counts_answered rd k ?g c (cn_srv c)"
    by (rule counts_answered_mono [OF that pr(2) s1])
  moreover have "e_ID e = e_ID m" by (simp add: e_def)
  ultimately have now: "e_ID e = e_ID m \<and> claimed_values rd k ?g (cn_srv c') m e
        \<and> (counts_answered rd k ?g c (cn_srv c) \<longrightarrow>
             e_Values e = (e_Values m)(fieldAttempt \<mapsto> Itoa (rd_count rd (cn_srv c') k ?g (e_ID m))))"
    and later: "counts_answered rd k ?g c (cn_srv c) \<longrightarrow> counts_answered rd k ?g c1 (cn_srv c1)"
    by blast+
  from ih have "list_all2 (\<lambda>m e. e_ID e = e_ID m \<and> claimed_values rd k ?g (cn_srv c') m e
        \<and> (counts_answered rd k ?g c (cn_srv c) \<longrightarrow>
             e_Values e = (e_Values m)(fieldAttempt \<mapsto> Itoa (rd_count rd (cn_srv c') k ?g (e_ID m))))) msgs es'"
    by (rule list_all2_mono) (use later in blast)
  with now s show ?case unfolding es list_all2_Cons by blast
qed simp

lemma AutoClaim_claimed:
  assumes laws: "redis_laws rd" and st: "st_rdb st = Some rd"
    and a: "AutoClaim st sub consumer start cnt c = ((es, nx, err), c')"
  defines "k \<equiv> streamKey (st_opts st) (s_Topic sub)"
  shows "(\<exists>gone. dropped_pending rd k (s_Group sub) gone (cn_srv c) (cn_srv c'))
    \<and> (\<forall>e\<in>set es. e_ID e \<in> rd_pending rd (cn_srv c) k (s_Group sub)
        \<and> rd_count rd (cn_srv c') k (s_Group sub) (e_ID e) = rd_count rd (cn_srv c) k (s_Group sub) (e_ID e) + 1
        \<and> (\<exists>m\<in>set (rd_entries rd (cn_srv c) k). e_ID e = e_ID m
              \<and> claimed_values rd k (s_Group sub) (cn_srv c') m e
              \<and> (counts_answered rd k (s_Group sub) c (cn_srv c') \<longrightarrow>
                   e_Values e = (e_Values m)(fieldAttempt \<mapsto> Itoa (rd_count rd (cn_srv c') k (s_Group sub) (e_ID e))))))"
proof -
  let ?g = "s_Group sub" and ?start = "if start = [] then ''0-0'' else start"
  let ?cmd = "rd_xautoclaim rd k ?g consumer
                  (rp_IdleTimeout (effectiveRetry sub (po_retry (st_opts st)))) ?start cnt"
  obtain r c1 where r: "rpc ?cmd c = (r, c1)" by (rule prod.exhaust)
  obtain gone where drop1: "dropped_pending rd k ?g gone (cn_srv c) (cn_srv c1)" using rpc_xautoclaim [OF laws r] by blast
  show ?thesis
  proof (cases r)
    case (Inl e)
    with a r st have "es = []" "c' = c1" by (auto simp: AutoClaim_def Let_def k_def)
    with drop1 show ?thesis by auto
  next
    case (Inr x)
    obtain msgs next' where x: "x = (msgs, next')" by (rule prod.exhaust)
    with a r st Inr have cl: "claim_entries rd (st_opts st) sub msgs c1 = (es, c')"
      by (auto simp: AutoClaim_def Let_def k_def split: prod.splits)
    note m = rd_xautoclaim_ok(1) [OF laws rpc_ok [OF r [unfolded Inr x]]]
    have p1: "rd_pending rd (cn_srv c1) k ?g = rd_pending rd (cn_srv c) k ?g - gone"
        "gone \<inter> e_ID ` set (rd_entries rd (cn_srv c) k) = {}"
      using drop1 by (simp_all add: dropped_pending_def)
    have "e_ID m \<in> rd_pending rd (cn_srv c1) k ?g \<and> 0 < rd_count rd (cn_srv c1) k ?g (e_ID m)" if "m \<in> set msgs" for m
      using m that p1 rd_xpending_ok(2) [OF laws, of "cn_srv c" k ?g "e_ID m"] by force
    then have "\<forall>m\<in>set msgs. e_ID m \<in> rd_pending rd (cn_srv c1) k ?g \<and> 0 < rd_count rd (cn_srv c1) k ?g (e_ID m)" by blast
    from claim_entries_values [OF laws cl, folded k_def, OF this]
    have s: "same_data rd (cn_srv c1) (cn_srv c')"
      and v: "list_all2 (\<lambda>m e. e_ID e = e_ID m \<and> claimed_values rd k ?g (cn_srv c') m e
        \<and> (counts_answered rd k ?g c1 (cn_srv c1) \<longrightarrow>
             e_Values e = (e_Values m)(fieldAttempt \<mapsto> Itoa (rd_count rd (cn_srv c') k ?g (e_ID m))))) msgs es"
      by blast+
    have ans: "counts_answered rd k ?g c1 (cn_srv c1)" if "counts_answered rd k ?g c (cn_srv c')"
      by (rule counts_answered_mono [OF that rpc_links [OF r] same_data_sym [OF s]])
    have "e_ID e \<in> rd_pending rd (cn_srv c) k ?g
        \<and> rd_count rd (cn_srv c') k ?g (e_ID e) = rd_count rd (cn_srv c) k ?g (e_ID e) + 1
        \<and> (\<exists>m\<in>set (rd_entries rd (cn_srv c) k). e_ID e = e_ID m
              \<and> claimed_values rd k ?g (cn_srv c') m e
              \<and> (counts_answered rd k ?g c (cn_srv c') \<longrightarrow>
                   e_Values e = (e_Values m)(fieldAttempt \<mapsto> Itoa (rd_count rd (cn_srv c') k ?g (e_ID e)))))"
      if "e \<in> set es" for e
    proof -
      from that obtain j where j: "j < length es" "e = es ! j" by (auto simp: in_set_conv_nth)
      with v have l: "j < length msgs" by (simp add: list_all2_conv_all_nth)
      from v j have "e_ID e = e_ID (msgs ! j)" "claimed_values rd k ?g (cn_srv c') (msgs ! j) e"
        "counts_answered rd k ?g c1 (cn_srv c1) \<longrightarrow>
             e_Values e = (e_Values (msgs ! j))(fieldAttempt \<mapsto> Itoa (rd_count rd (cn_srv c') k ?g (e_ID (msgs ! j))))"
        by (simp_all add: list_all2_conv_all_nth)
      moreover have "msgs ! j \<in> set (rd_entries rd (cn_srv c) k)" "e_ID (msgs ! j) \<in> rd_pending rd (cn_srv c) k ?g"
          "rd_count rd (cn_srv c1) k ?g (e_ID (msgs ! j)) = rd_count rd (cn_srv c) k ?g (e_ID (msgs ! j)) + 1"
        using m l by simp_all
      moreover have "rd_count rd (cn_srv c') = rd_count rd (cn_srv c1)" using s by (simp add: same_data_def)
      ultimately show ?thesis using ans by (intro conjI bexI [of _ "msgs ! j"]) simp_all
    qed
    moreover have "dropped_pending rd k ?g gone (cn_srv c) (cn_srv c')" by (rule dropped_pending_same [OF drop1 s])
    ultimately show ?thesis by blast
  qed
qed

text \<open>
  C21: claiming stale entries changes no entry, no retry and no other group.  From the pending ids
  of the group only ids of entries that are no longer in the stream are dropped.  The entries a worker
  gets are entries of the stream that were pending and still are, one delivery of each more is counted, and
  their fields are the stored ones but for the attempt: if the requests for the counts are answered,
  it is the count of deliveries of the server, this one included; otherwise it may be the stored
  one.  The count starts again with every promoted retry: a claimed entry stored as attempt 3
  comes back as attempt 2.
\<close>

theorem AutoClaim_entries:
  assumes laws: "redis_laws rd" and st: "st_rdb st = Some rd"
    and a: "AutoClaim st sub consumer start cnt c = ((es, nx, err), c')"
  shows "let d = cn_srv c; d' = cn_srv c'; k = streamKey (st_opts st) (s_Topic sub); g = s_Group sub in
    rd_entries rd d' = rd_entries rd d \<and> rd_zset rd d' = rd_zset rd d
    \<and> (\<exists>gone. gone \<inter> e_ID ` set (rd_entries rd d k) = {}
         \<and> rd_pending rd d' = (rd_pending rd d)(k := (rd_pending rd d k)(g := rd_pending rd d k g - gone)))
    \<and> (\<forall>e\<in>set es. e_ID e \<in> rd_pending rd d k g \<inter> rd_pending rd d' k g
        \<and> rd_count rd d' k g (e_ID e) = rd_count rd d k g (e_ID e) + 1
        \<and> (\<exists>m\<in>set (rd_entries rd d k). e_ID e = e_ID m
              \<and> (let counted = (e_Values m)(fieldAttempt \<mapsto> Itoa (rd_count rd d' k g (e_ID e)))
                 in e_Values e \<in> {e_Values m, counted} \<and> (counts_answered rd k g c d' \<longrightarrow> e_Values e = counted))))"
proof -
  let ?d = "cn_srv c" and ?d' = "cn_srv c'" and ?k = "streamKey (st_opts st) (s_Topic sub)" and ?g = "s_Group sub"
  note cl = AutoClaim_claimed [OF laws st a]
  then obtain gone where g: "dropped_pending rd ?k ?g gone ?d ?d'" by blast
  have e: "e_ID e \<in> rd_pending rd ?d ?k ?g \<inter> rd_pending rd ?d' ?k ?g
        \<and> rd_count rd ?d' ?k ?g (e_ID e) = rd_count rd ?d ?k ?g (e_ID e) + 1
        \<and> (\<exists>m\<in>set (rd_entries rd ?d ?k). e_ID e = e_ID m
              \<and> (let counted = (e_Values m)(fieldAttempt \<mapsto> Itoa (rd_count rd ?d' ?k ?g (e_ID e)))
                 in e_Values e \<in> {e_Values m, counted} \<and> (counts_answered rd ?k ?g c ?d' \<longrightarrow> e_Values e = counted)))"
    if "e \<in> set es" for e
  proof -
    from cl that obtain m where m: "m \<in> set (rd_entries rd ?d ?k)" "e_ID e = e_ID m" "claimed_values rd ?k ?g ?d' m e"
        "counts_answered rd ?k ?g c ?d' \<longrightarrow> e_Values e = (e_Values m)(fieldAttempt \<mapsto> Itoa (rd_count rd ?d' ?k ?g (e_ID e)))"
      and p: "e_ID e \<in> rd_pending rd ?d ?k ?g" "rd_count rd ?d' ?k ?g (e_ID e) = rd_count rd ?d ?k ?g (e_ID e) + 1"
      by blast
    have "e_ID e \<in> rd_pending rd ?d' ?k ?g" using g m(1,2) p(1) by (auto simp: dropped_pending_def)
    moreover have "e_Values e \<in> {e_Values m, (e_Values m)(fieldAttempt \<mapsto> Itoa (rd_count rd ?d' ?k ?g (e_ID e)))}"
      using m(2,3) by (auto simp: claimed_values_def)
    ultimately show ?thesis using m(1,2,4) p by (intro conjI bexI [of _ m]) (simp_all add: Let_def)
  qed
  have "rd_entries rd ?d' = rd_entries rd ?d \<and> rd_zset rd ?d' = rd_zset rd ?d
    \<and> (\<exists>gone. gone \<inter> e_ID ` set (rd_entries rd ?d ?k) = {}
         \<and> rd_pending rd ?d' = (rd_pending rd ?d)(?k := (rd_pending rd ?d ?k)(?g := rd_pending rd ?d ?k ?g - gone)))"
    using g unfolding dropped_pending_def by blast
  with e show ?thesis unfolding Let_def by blast
qed

text \<open>An entry stored as attempt 3, and the id of a trimmed one, are pending; the claim gets attempt 2.\<close>

definition demo_third :: "memredis conn" where
  "demo_third = demo_conn\<lparr>cn_srv := demo_server\<lparr>mr_streams := (\<lambda>_. [])(''wego:pubsub:t'' :=
     [demo_entry\<lparr>e_Values := (e_Values demo_entry)(fieldAttempt \<mapsto> ''3'')\<rparr>]),
     mr_pending := (''wego:pubsub:t'', ''g'', ''0'') # mr_pending demo_server\<rparr>\<rparr>"

lemma AutoClaim_entries_witness:
  "let r = AutoClaim demo_store demo_sub ''c'' [] 5 demo_third; es = fst (fst r); c' = snd r in
     rd_entries mem_redis (cn_srv c') = rd_entries mem_redis (cn_srv demo_third)
   \<and> map (\<lambda>e. e_Values e fieldAttempt) (mr_streams (cn_srv demo_third) ''wego:pubsub:t'') = [Some ''3'']
   \<and> length es = 1 \<and> (\<forall>e\<in>set es. e_Values e fieldAttempt = Some ''2'')
   \<and> rd_pending mem_redis (cn_srv c') ''wego:pubsub:t'' ''g'' = {''1''}"
proof -
  let ?k = "''wego:pubsub:t''"
  have k: "streamKey pubsub_defaultOptions ''t'' = ''wego:pubsub:t''" "Itoa 2 = ''2''" "in_int64 2" by code_simp+
  have o: "st_opts demo_store = pubsub_defaultOptions" "s_Topic demo_sub = ''t''" "s_Group demo_sub = ''g''"
    by (simp_all add: demo_store_def demo_sub_def)
  obtain es nx err c' where a: "AutoClaim demo_store demo_sub ''c'' [] 5 demo_third = ((es, nx, err), c')"
    by (metis prod.exhaust)
  have c': "length es = 1" "\<forall>e\<in>set es. e_ID e = ''1''" "mr_counts (cn_srv c') (?k, ''g'', ''1'') = 2"
      "set (mr_pending (cn_srv c')) = {(?k, ''g'', ''1'')}"
    using a k by (auto simp: AutoClaim_def demo_store_def demo_sub_def demo_third_def demo_conn_def demo_server_def
        demo_entry_def mem_redis_def rpc_def pendingRetryCount_def Let_def)
  have ans: "counts_answered mem_redis ?k ''g'' demo_third (cn_srv c')"
    unfolding counts_answered_def
  proof (intro conjI allI impI ballI)
    fix i x assume x: "same_data mem_redis (cn_srv c') x"
    then have "rd_count mem_redis x ?k ''g'' ''1'' = 2" "rd_pending mem_redis x ?k ''g'' = {''1''}"
      using c'(3,4) by (simp_all add: same_data_def mem_redis_def)
    then have "mr_counts x (?k, ''g'', ''1'') = 2" "(?k, ''g'', i) \<in> set (mr_pending x) \<Longrightarrow> i = ''1''"
      by (auto simp: mem_redis_def)
    then show "\<exists>n y. rd_xpending mem_redis ?k ''g'' i x = (Inr n, y)"
      using k(3) by (auto simp: mem_redis_def)
  qed (simp add: demo_third_def demo_conn_def)
  have e: "rd_entries mem_redis (cn_srv c') = rd_entries mem_redis (cn_srv demo_third)"
    and v: "\<forall>e\<in>set es. rd_count mem_redis (cn_srv c') ?k ''g'' (e_ID e) = rd_count mem_redis (cn_srv demo_third) ?k ''g'' (e_ID e) + 1
      \<and> e_Values e fieldAttempt = Some (Itoa (rd_count mem_redis (cn_srv c') ?k ''g'' (e_ID e)))"
    using AutoClaim_entries [OF mem_redis_laws demo_store_rdb a, unfolded o k Let_def] ans by fastforce+
  have "\<forall>e\<in>set es. e_Values e fieldAttempt = Some ''2''"
    using v c'(2,3) k(2) by (simp add: mem_redis_def)
  moreover have "rd_pending mem_redis (cn_srv c') ?k ''g'' = {''1''}" using c'(4) by (simp add: mem_redis_def)
  ultimately show ?thesis using a e c'(1) by (simp add: demo_third_def Let_def)
qed

end
