(* ===== verification/Logger.thy ===== *)
theory Logger
  imports GoStrings
begin

text \<open>
  Package \<open>logger\<close>: levels, the registry of shared loggers, and which calls write a line.
  Loggers are objects that callers share, so they live in a heap: an address is a position
  of \<open>lg_heap\<close>.  \<open>GetLogger\<close> reads the registry and then, if it has to, stores a new logger
  with \<open>LoadOrStore\<close>; between the two other goroutines run, so it is two steps of a step
  relation.  What \<open>json.Marshal\<close> makes of a record, the text of the clock and the span of the
  context are arguments.
\<close>

subsection \<open>Levels\<close>

text \<open>\<open>Level\<close> is an \<open>int8\<close>; the named levels are 0 to 4, any other value can be set.\<close>

type_synonym level = int

definition LDebug :: level where "LDebug = 0"
definition LInfo :: level where "LInfo = 1"
definition LWarn :: level where "LWarn = 2"
definition LError :: level where "LError = 3"
definition LFatal :: level where "LFatal = 4"

lemmas level_defs = LDebug_def LInfo_def LWarn_def LError_def LFatal_def

definition level_String :: "level \<Rightarrow> string" where
  "level_String level =
     (if level = LDebug then ''DEBUG''
      else if level = LInfo then ''INFO''
      else if level = LWarn then ''WARN''
      else if level = LError then ''ERROR''
      else if level = LFatal then ''FATAL''
      else [])"

definition ParseLevel :: "string \<Rightarrow> level" where
  "ParseLevel str =
     (let u = ToUpper str in
      if u = ''DEBUG'' then LDebug
      else if u = ''INFO'' then LInfo
      else if u = ''WARN'' then LWarn
      else if u = ''ERROR'' then LError
      else if u = ''FATAL'' then LFatal
      else LInfo)"

subsection \<open>Loggers and their registry\<close>

record logger =
  lg_serviceName :: string
  lg_level :: level

record log_state =
  lg_heap :: "logger list"
  lg_registry :: "string \<rightharpoonup> nat"

definition service_name :: "string \<Rightarrow> string" where
  "service_name serviceName = (let name = TrimSpace serviceName in if name = [] then ''default'' else name)"

definition NewLogger :: "string \<Rightarrow> log_state \<Rightarrow> nat \<times> log_state" where
  "NewLogger serviceName s =
     (length (lg_heap s),
      s\<lparr>lg_heap := lg_heap s @ [\<lparr>lg_serviceName = service_name serviceName, lg_level = LInfo\<rparr>]\<rparr>)"

text \<open>\<open>GetLogger\<close>: the \<open>Load\<close>, and what follows when it finds nothing.\<close>

definition GetLogger_load :: "string \<Rightarrow> log_state \<Rightarrow> nat option" where
  "GetLogger_load serviceName s = lg_registry s (service_name serviceName)"

definition GetLogger_store :: "string \<Rightarrow> log_state \<Rightarrow> nat \<times> log_state" where
  "GetLogger_store serviceName s =
     (let name = service_name serviceName;
          (created, s1) = NewLogger name s
      in case lg_registry s1 name of
           Some l \<Rightarrow> (l, s1)
         | None \<Rightarrow> (created, s1\<lparr>lg_registry := (lg_registry s1)(name \<mapsto> created)\<rparr>))"

text \<open>A call with no other goroutine in between.\<close>

definition GetLogger :: "string \<Rightarrow> log_state \<Rightarrow> nat \<times> log_state" where
  "GetLogger serviceName s =
     (case GetLogger_load serviceName s of
        Some l \<Rightarrow> (l, s)
      | None \<Rightarrow> GetLogger_store serviceName s)"

text \<open>An address outside the heap would be a nil pointer: the call panics.\<close>

definition SetLevel :: "nat \<Rightarrow> level \<Rightarrow> log_state \<Rightarrow> log_state option" where
  "SetLevel l level s =
     (if l < length (lg_heap s)
      then Some (s\<lparr>lg_heap := (lg_heap s)[l := (lg_heap s ! l)\<lparr>lg_level := level\<rparr>]\<rparr>)
      else None)"

definition logger_Level :: "nat \<Rightarrow> log_state \<Rightarrow> level option" where
  "logger_Level l s = (if l < length (lg_heap s) then Some (lg_level (lg_heap s ! l)) else None)"

subsection \<open>Writing a line\<close>

text \<open>
  The context of a call: the id \<open>RequestIDFromContext\<close> finds (empty for none), and the ids of
  the span if it has a valid one.
\<close>

record log_ctx =
  lc_requestID :: string
  lc_span :: "(string \<times> string) option"

definition ContextWithRequestID :: "log_ctx \<Rightarrow> string \<Rightarrow> log_ctx" where
  "ContextWithRequestID ctx requestID = ctx\<lparr>lc_requestID := TrimSpace requestID\<rparr>"

definition RequestIDFromContext :: "log_ctx option \<Rightarrow> string" where
  "RequestIDFromContext ctx = (case ctx of None \<Rightarrow> [] | Some c \<Rightarrow> lc_requestID c)"

definition log_record :: "log_ctx \<Rightarrow> string \<Rightarrow> logger \<Rightarrow> level \<Rightarrow> string \<Rightarrow> (string \<rightharpoonup> string)" where
  "log_record ctx timestamp l level msg =
     (let r0 = [''timestamp'' \<mapsto> timestamp, ''service'' \<mapsto> lg_serviceName l,
                ''level'' \<mapsto> level_String level, ''message'' \<mapsto> msg];
          r1 = (if lc_requestID ctx \<noteq> [] then r0(''request_id'' \<mapsto> lc_requestID ctx) else r0)
      in case lc_span ctx of
           Some (tr, sp) \<Rightarrow> r1(''trace_id'' \<mapsto> tr, ''span_id'' \<mapsto> sp)
         | None \<Rightarrow> r1)"

text \<open>The lines a call writes.\<close>

definition logContext ::
  "((string \<rightharpoonup> string) \<Rightarrow> string option) \<Rightarrow> log_ctx \<Rightarrow> string \<Rightarrow> logger \<Rightarrow> level \<Rightarrow> string \<Rightarrow> string list" where
  "logContext marshal ctx timestamp l level msg =
     (if level < lg_level l then []
      else (case marshal (log_record ctx timestamp l level msg) of
              Some data \<Rightarrow> [data]
            | None \<Rightarrow> [msg]))"

text \<open>
  The calls without a context log with \<open>context.Background()\<close>, and \<open>Fatal\<close> ends the process, with
  the status it ends with: after the line if its level is enabled, and without one if it is not.
\<close>

definition context_Background :: log_ctx where "context_Background = \<lparr>lc_requestID = [], lc_span = None\<rparr>"

definition logger_log ::
  "((string \<rightharpoonup> string) \<Rightarrow> string option) \<Rightarrow> string \<Rightarrow> logger \<Rightarrow> level \<Rightarrow> string \<Rightarrow> string list" where
  "logger_log marshal timestamp l level msg = logContext marshal context_Background timestamp l level msg"

definition logger_Debug :: "((string \<rightharpoonup> string) \<Rightarrow> string option) \<Rightarrow> string \<Rightarrow> logger \<Rightarrow> string \<Rightarrow> string list" where
  "logger_Debug marshal timestamp l msg = logger_log marshal timestamp l LDebug msg"

definition logger_Info :: "((string \<rightharpoonup> string) \<Rightarrow> string option) \<Rightarrow> string \<Rightarrow> logger \<Rightarrow> string \<Rightarrow> string list" where
  "logger_Info marshal timestamp l msg = logger_log marshal timestamp l LInfo msg"

definition logger_Warn :: "((string \<rightharpoonup> string) \<Rightarrow> string option) \<Rightarrow> string \<Rightarrow> logger \<Rightarrow> string \<Rightarrow> string list" where
  "logger_Warn marshal timestamp l msg = logger_log marshal timestamp l LWarn msg"

definition logger_Error :: "((string \<rightharpoonup> string) \<Rightarrow> string option) \<Rightarrow> string \<Rightarrow> logger \<Rightarrow> string \<Rightarrow> string list" where
  "logger_Error marshal timestamp l msg = logger_log marshal timestamp l LError msg"

definition DebugContext :: "((string \<rightharpoonup> string) \<Rightarrow> string option) \<Rightarrow> log_ctx \<Rightarrow> string \<Rightarrow> logger \<Rightarrow> string \<Rightarrow> string list" where
  "DebugContext marshal ctx timestamp l msg = logContext marshal ctx timestamp l LDebug msg"

definition InfoContext :: "((string \<rightharpoonup> string) \<Rightarrow> string option) \<Rightarrow> log_ctx \<Rightarrow> string \<Rightarrow> logger \<Rightarrow> string \<Rightarrow> string list" where
  "InfoContext marshal ctx timestamp l msg = logContext marshal ctx timestamp l LInfo msg"

definition WarnContext :: "((string \<rightharpoonup> string) \<Rightarrow> string option) \<Rightarrow> log_ctx \<Rightarrow> string \<Rightarrow> logger \<Rightarrow> string \<Rightarrow> string list" where
  "WarnContext marshal ctx timestamp l msg = logContext marshal ctx timestamp l LWarn msg"

definition ErrorContext :: "((string \<rightharpoonup> string) \<Rightarrow> string option) \<Rightarrow> log_ctx \<Rightarrow> string \<Rightarrow> logger \<Rightarrow> string \<Rightarrow> string list" where
  "ErrorContext marshal ctx timestamp l msg = logContext marshal ctx timestamp l LError msg"

text \<open>
  A named level is written exactly when it is not below the logger's, so the levels that write are
  closed upwards: a logger that writes warnings writes errors.
\<close>

lemma logger_writes:
  "logger_Debug marshal ts l msg \<noteq> [] \<longleftrightarrow> lg_level l \<le> LDebug" "logger_Info marshal ts l msg \<noteq> [] \<longleftrightarrow> lg_level l \<le> LInfo"
  "logger_Warn marshal ts l msg \<noteq> [] \<longleftrightarrow> lg_level l \<le> LWarn" "logger_Error marshal ts l msg \<noteq> [] \<longleftrightarrow> lg_level l \<le> LError"
  by (auto simp: logger_Debug_def logger_Info_def logger_Warn_def logger_Error_def logger_log_def logContext_def
      split: option.splits)

definition logger_Fatal ::
  "((string \<rightharpoonup> string) \<Rightarrow> string option) \<Rightarrow> string \<Rightarrow> logger \<Rightarrow> string \<Rightarrow> string list \<times> int" where
  "logger_Fatal marshal timestamp l msg = (logger_log marshal timestamp l LFatal msg, 1)"

definition levelColor :: "level \<Rightarrow> string" where
  "levelColor level =
     (if level = LDebug then CHR 0x1B # ''[36m''
      else if level = LInfo then CHR 0x1B # ''[32m''
      else if level = LWarn then CHR 0x1B # ''[33m''
      else if level = LError then CHR 0x1B # ''[31m''
      else if level = LFatal then CHR 0x1B # ''[1;31m''
      else [])"

text \<open>A fatal line is lost only if the level was set above all named ones.\<close>

lemma fatal_logged: "lg_level l \<le> LFatal \<Longrightarrow> fst (logger_Fatal marshal ts l msg) \<noteq> []"
  by (auto simp: logger_Fatal_def logger_log_def logContext_def split: option.splits)

subsection \<open>Properties\<close>

lemma service_name_idem [simp]: "service_name (service_name n) = service_name n"
proof -
  have "TrimSpace ''default'' = ''default''" by code_simp
  then show ?thesis by (simp add: service_name_def Let_def)
qed

interpretation service_norm: normaliser service_name
  by unfold_locales simp

text \<open>Every registered name leads to a logger of that name.\<close>

definition registry_ok :: "log_state \<Rightarrow> bool" where
  "registry_ok s \<longleftrightarrow>
     (\<forall>n l. lg_registry s n = Some l \<longrightarrow> l < length (lg_heap s) \<and> lg_serviceName (lg_heap s ! l) = n)"

lemma registry_okD:
  "registry_ok s \<Longrightarrow> lg_registry s n = Some l \<Longrightarrow> l < length (lg_heap s) \<and> lg_serviceName (lg_heap s ! l) = n"
  by (simp add: registry_ok_def)

lemma registry_okI:
  "(\<And>n l. lg_registry s n = Some l \<Longrightarrow> l < length (lg_heap s) \<and> lg_serviceName (lg_heap s ! l) = n)
   \<Longrightarrow> registry_ok s"
  by (simp add: registry_ok_def)

lemma GetLogger_store_ok:
  assumes ok: "registry_ok s" and st: "GetLogger_store n s = (l, t)"
  shows "registry_ok t" "lg_registry t (service_name n) = Some l" "lg_registry s \<subseteq>\<^sub>m lg_registry t"
proof -
  show "registry_ok t"
  proof (rule registry_okI)
    fix k a
    assume "lg_registry t k = Some a"
    with st registry_okD [OF ok, of k a] show "a < length (lg_heap t) \<and> lg_serviceName (lg_heap t ! a) = k"
      by (auto simp: GetLogger_store_def NewLogger_def nth_append Let_def split: option.splits if_splits)
  qed
  show "lg_registry t (service_name n) = Some l" and "lg_registry s \<subseteq>\<^sub>m lg_registry t"
    using st by (auto simp: GetLogger_store_def NewLogger_def map_le_def Let_def split: option.splits if_splits)
qed

lemma SetLevel_ok:
  assumes ok: "registry_ok s" and st: "SetLevel l v s = Some t"
  shows "registry_ok t" "lg_registry t = lg_registry s"
proof -
  show reg: "lg_registry t = lg_registry s"
    using st by (auto simp: SetLevel_def split: if_splits)
  show "registry_ok t"
  proof (rule registry_okI)
    fix k a
    assume "lg_registry t k = Some a"
    with reg registry_okD [OF ok, of k a] st
    show "a < length (lg_heap t) \<and> lg_serviceName (lg_heap t ! a) = k"
      by (auto simp: SetLevel_def nth_list_update split: if_splits)
  qed
qed

text \<open>
  Any number of goroutines that get loggers, create their own and set levels.  \<open>log_pending\<close>
  has the calls of \<open>GetLogger\<close> between the two steps, \<open>log_got\<close> the calls that have returned,
  with the name asked for and the address returned.
\<close>

record log_sys =
  log_st :: log_state
  log_pending :: "string list"
  log_got :: "(string \<times> nat) list"

datatype log_event = LgHit | LgMiss | LgStore | LgNew | LgSetLevel

inductive log_step :: "log_sys \<Rightarrow> log_event \<Rightarrow> log_sys \<Rightarrow> bool" where
  hit: "GetLogger_load n (log_st s) = Some l \<Longrightarrow> log_step s LgHit (s\<lparr>log_got := (n, l) # log_got s\<rparr>)"
| miss: "GetLogger_load n (log_st s) = None \<Longrightarrow> log_step s LgMiss (s\<lparr>log_pending := n # log_pending s\<rparr>)"
| create: "log_pending s = xs @ n # ys \<Longrightarrow> GetLogger_store n (log_st s) = (l, t) \<Longrightarrow>
     log_step s LgStore (s\<lparr>log_st := t, log_pending := xs @ ys, log_got := (n, l) # log_got s\<rparr>)"
| own: "NewLogger n (log_st s) = (l, t) \<Longrightarrow> log_step s LgNew (s\<lparr>log_st := t\<rparr>)"
| level: "SetLevel l v (log_st s) = Some t \<Longrightarrow> log_step s LgSetLevel (s\<lparr>log_st := t\<rparr>)"

inductive_cases log_stepE: "log_step s e t"

definition log_init :: log_sys where
  "log_init = \<lparr>log_st = \<lparr>lg_heap = [], lg_registry = Map.empty\<rparr>, log_pending = [], log_got = []\<rparr>"

definition log_inv :: "log_sys \<Rightarrow> bool" where
  "log_inv s \<longleftrightarrow>
     registry_ok (log_st s) \<and> (\<forall>(n, l)\<in>set (log_got s). lg_registry (log_st s) (service_name n) = Some l)"

lemma log_step_inv: "log_step s e t \<Longrightarrow> log_inv s \<Longrightarrow> log_inv t"
proof (induction rule: log_step.induct)
  case (hit n s l)
  then show ?case by (auto simp: log_inv_def GetLogger_load_def)
next
  case (miss n s)
  then show ?case by (simp add: log_inv_def)
next
  case (create s xs n ys l t)
  then have "registry_ok (log_st s)" by (simp add: log_inv_def)
  note f = GetLogger_store_ok [OF this create.hyps(2)]
  have "lg_registry t (service_name m) = Some a" if "(m, a) \<in> set (log_got s)" for m a
  proof -
    from that create.prems have "lg_registry (log_st s) (service_name m) = Some a" by (auto simp: log_inv_def)
    with f(3) show ?thesis by (metis domI map_le_def)
  qed
  with f show ?case by (auto simp: log_inv_def)
next
  case (own n s l t)
  have "registry_ok t"
  proof (rule registry_okI)
    fix k a
    assume "lg_registry t k = Some a"
    with own have "lg_registry (log_st s) k = Some a" by (auto simp: NewLogger_def)
    with own registry_okD [of "log_st s" k a] show "a < length (lg_heap t) \<and> lg_serviceName (lg_heap t ! a) = k"
      by (auto simp: log_inv_def NewLogger_def nth_append)
  qed
  with own show ?case by (auto simp: log_inv_def NewLogger_def)
next
  case (level l v s t)
  with SetLevel_ok [of "log_st s" l v t] show ?case by (auto simp: log_inv_def)
qed

interpretation logging: invariant_steps log_step "\<lambda>_. True" log_inv
  by unfold_locales (rule log_step_inv)

text \<open>
  C32: however the calls of any goroutines interleave, two calls of \<open>GetLogger\<close> return the same
  logger exactly when their names are the same after trimming, with \<open>default\<close> for a blank one,
  and that logger carries the trimmed name.
\<close>

theorem GetLogger_shared:
  assumes "run log_step (\<lambda>_. True) log_init s" and "(n, l) \<in> set (log_got s)" and "(m, k) \<in> set (log_got s)"
  shows "(l = k \<longleftrightarrow> service_name n = service_name m)
    \<and> l < length (lg_heap (log_st s)) \<and> lg_serviceName (lg_heap (log_st s) ! l) = service_name n"
proof -
  have "log_inv log_init" by (simp add: log_init_def log_inv_def registry_ok_def)
  with logging.run_inv [OF assms(1)] have "log_inv s" by simp
  then have ok: "registry_ok (log_st s)"
    and "lg_registry (log_st s) (service_name n) = Some l" "lg_registry (log_st s) (service_name m) = Some k"
    using assms by (auto simp: log_inv_def)
  with registry_okD [OF ok, of "service_name n" l] registry_okD [OF ok, of "service_name m" k]
  show ?thesis by auto
qed

text \<open>Two goroutines miss at once, and both get the logger the first of them stores.\<close>

lemma GetLogger_shared_witness:
  "\<exists>s. run log_step (\<lambda>_. True) log_init s \<and> log_got s = [('' api '', 0), (''api'', 0)]
     \<and> lg_serviceName (lg_heap (log_st s) ! 0) = service_name ''api'' \<and> length (lg_heap (log_st s)) = 2"
proof -
  let ?lg = "\<lparr>lg_serviceName = ''api'', lg_level = LInfo\<rparr>"
  let ?s1 = "log_init\<lparr>log_pending := [''api'']\<rparr>"
  let ?s2 = "?s1\<lparr>log_pending := ['' api '', ''api'']\<rparr>"
  let ?t3 = "\<lparr>lg_heap = [?lg], lg_registry = [''api'' \<mapsto> 0]\<rparr>"
  let ?s3 = "?s2\<lparr>log_st := ?t3, log_pending := ['' api ''], log_got := [(''api'', 0)]\<rparr>"
  let ?t4 = "\<lparr>lg_heap = [?lg, ?lg], lg_registry = [''api'' \<mapsto> 0]\<rparr>"
  let ?s4 = "?s3\<lparr>log_st := ?t4, log_pending := [], log_got := [('' api '', 0), (''api'', 0)]\<rparr>"
  have sn: "service_name ''api'' = ''api''" "service_name '' api '' = ''api''" by code_simp+
  have "log_step log_init LgMiss ?s1"
    using log_step.miss [of "''api''" log_init] by (simp add: GetLogger_load_def log_init_def)
  then have r1: "run log_step (\<lambda>_. True) log_init ?s1" by (rule run_one) simp
  have "log_step ?s1 LgMiss ?s2"
    using log_step.miss [of "'' api ''" ?s1] by (simp add: GetLogger_load_def log_init_def)
  with r1 have r2: "run log_step (\<lambda>_. True) log_init ?s2" by (rule run_step) simp
  have "GetLogger_store ''api'' (log_st ?s2) = (0, ?t3)"
    by (simp add: GetLogger_store_def NewLogger_def log_init_def sn Let_def)
  with log_step.create [of ?s2 "['' api '']" "''api''" "[]" 0 ?t3] have "log_step ?s2 LgStore ?s3"
    by (simp add: log_init_def)
  with r2 have r3: "run log_step (\<lambda>_. True) log_init ?s3" by (rule run_step) simp
  have "GetLogger_store '' api '' (log_st ?s3) = (0, ?t4)"
    by (simp add: GetLogger_store_def NewLogger_def log_init_def sn Let_def)
  with log_step.create [of ?s3 "[]" "'' api ''" "[]" 0 ?t4] have "log_step ?s3 LgStore ?s4"
    by (simp add: log_init_def)
  with r3 have r4: "run log_step (\<lambda>_. True) log_init ?s4" by (rule run_step) simp
  with GetLogger_shared [OF r4, of "''api''" 0 "'' api ''" 0] show ?thesis
    by (intro exI [of _ ?s4]) (simp add: log_init_def sn)
qed

text \<open>
  A line is written exactly when its level reaches the level of the logger; a level set
  through one reference to a shared logger holds for every other reference and for no other
  logger; and levels read back from their names, in any case, with \<open>INFO\<close> for every other text.
\<close>

theorem log_levels:
  "(logContext marshal ctx ts lg v msg = [] \<longleftrightarrow> v < lg_level lg)
   \<and> (SetLevel a w s = Some t \<longrightarrow>
       logger_Level b t = (if b = a then Some w else logger_Level b s))
   \<and> (v \<in> {LDebug..LFatal} \<longrightarrow> ParseLevel (ToLower (level_String v)) = v \<and> ParseLevel (level_String v) = v)
   \<and> (ToUpper str \<notin> level_String ` {LDebug..LFatal} \<longrightarrow> ParseLevel str = LInfo)"
proof -
  have ls: "{LDebug..LFatal} = {LDebug, LInfo, LWarn, LError, LFatal}" by (auto simp: level_defs)
  have "ParseLevel (ToLower (level_String v)) = v \<and> ParseLevel (level_String v) = v"
    if "v \<in> {LDebug, LInfo, LWarn, LError, LFatal}"
    using that by (elim insertE emptyE; hypsubst) (code_simp+)
  moreover have lv: "level_String ` {LDebug..LFatal} = {''DEBUG'', ''INFO'', ''WARN'', ''ERROR'', ''FATAL''}"
    unfolding ls by (simp add: level_String_def level_defs insert_commute)
  moreover have "ParseLevel str = LInfo" if "ToUpper str \<notin> level_String ` {LDebug..LFatal}"
    using that unfolding lv by (simp add: ParseLevel_def Let_def)
  moreover have "logContext marshal ctx ts lg v msg = [] \<longleftrightarrow> v < lg_level lg"
    by (simp add: logContext_def split: option.splits)
  moreover have "logger_Level b t = (if b = a then Some w else logger_Level b s)" if "SetLevel a w s = Some t"
    using that by (auto simp: SetLevel_def logger_Level_def split: if_splits)
  ultimately show ?thesis unfolding ls by blast
qed

lemma log_levels_witness:
  "ParseLevel ''warn'' = LWarn \<and> ParseLevel ''verbose'' = LInfo
   \<and> logger_Level 0 \<lparr>lg_heap = [\<lparr>lg_serviceName = ''a'', lg_level = LError\<rparr>], lg_registry = Map.empty\<rparr> = Some LError"
proof -
  let ?s = "\<lparr>lg_heap = [\<lparr>lg_serviceName = ''a'', lg_level = LInfo\<rparr>], lg_registry = Map.empty\<rparr>"
  let ?t = "\<lparr>lg_heap = [\<lparr>lg_serviceName = ''a'', lg_level = LError\<rparr>], lg_registry = Map.empty\<rparr>"
  have "SetLevel 0 LError ?s = Some ?t" by (simp add: SetLevel_def)
  moreover have "LWarn \<in> {LDebug..LFatal}" by (simp add: level_defs)
  moreover have "ToLower (level_String LWarn) = ''warn''" by code_simp
  moreover have "ToUpper ''verbose'' \<notin> level_String ` {LDebug..LFatal}" by code_simp
  ultimately show ?thesis
    using log_levels [where v = LWarn and a = 0 and w = LError and s = ?s and t = ?t and b = 0 and str = "''verbose''"]
    by metis
qed

end
