(* ===== verification/Float64.thy ===== *)
theory Float64
  imports Complex_Main "HOL-Library.Log_Nat"
begin

text \<open>
  The arithmetic of Go's \<open>float64\<close>: a result is the exact one rounded to 53 binary digits, to the
  nearest and on a tie to the even one.  The numbers the program computes with (seconds, tokens,
  counts) stay far from the limits of the exponent, so the exponent is unbounded here, and they
  are never infinite or NaN.  What the components rely on is the interface \<open>rounding\<close>.
\<close>

subsection \<open>Rounding\<close>

text \<open>The exponent of the leading binary digit of a positive number.\<close>

definition binexp :: "rat \<Rightarrow> int" where
  "binexp x =
     (let (p, q) = quotient_of x;
          k = int (floorlog 2 (nat p)) - int (floorlog 2 (nat q))
      in if 2 powi k \<le> x then k else k - 1)"

text \<open>The nearest integer, the even one of two.\<close>

definition rne :: "rat \<Rightarrow> int" where
  "rne y =
     (let f = \<lfloor>y\<rfloor>; d = y - of_int f
      in if d < 1 / 2 then f else if 1 / 2 < d then f + 1 else if even f then f else f + 1)"

definition fl :: "rat \<Rightarrow> rat" where
  "fl x =
     (if x = 0 then 0
      else (let u = 2 powi (binexp \<bar>x\<bar> - 52) in sgn x * of_int (rne (\<bar>x\<bar> / u)) * u))"

subsection \<open>The interface\<close>

locale rounding =
  fixes rnd :: "rat \<Rightarrow> rat" and eps :: rat
  assumes rnd_mono: "0 \<le> x \<Longrightarrow> x \<le> y \<Longrightarrow> rnd x \<le> rnd y"
    and rnd_int: "0 \<le> n \<Longrightarrow> n \<le> 2 ^ 53 \<Longrightarrow> rnd (of_int n) = of_int n"
    and rnd_upper: "0 \<le> x \<Longrightarrow> rnd x \<le> x * (1 + eps)"
    and eps_nonneg: "0 \<le> eps"
begin

lemma rnd_0 [simp]: "rnd 0 = 0" and rnd_1 [simp]: "rnd 1 = 1"
  using rnd_int [of 0] rnd_int [of 1] by simp_all

lemma rnd_nonneg: "0 \<le> x \<Longrightarrow> 0 \<le> rnd x"
  using rnd_mono [of 0 x] by simp

lemma rnd_ge_1: "1 \<le> x \<Longrightarrow> 1 \<le> rnd x"
  using rnd_mono [of 1 x] by simp

lemma rnd_ge_int: "0 \<le> n \<Longrightarrow> n \<le> 2 ^ 53 \<Longrightarrow> of_int n \<le> x \<Longrightarrow> of_int n \<le> rnd x"
  using rnd_mono [of "of_int n" x] by (simp add: rnd_int)

lemma rnd_le_int: "0 \<le> x \<Longrightarrow> x \<le> of_int n \<Longrightarrow> 0 \<le> n \<Longrightarrow> n \<le> 2 ^ 53 \<Longrightarrow> rnd x \<le> of_int n"
  using rnd_mono [of x "of_int n"] by (simp add: rnd_int)

end

subsection \<open>float64 rounds\<close>

lemma powi2_less: "(2 :: rat) powi m < 2 powi n \<Longrightarrow> m < n"
proof (rule ccontr)
  assume "(2 :: rat) powi m < 2 powi n" "\<not> m < n"
  moreover from this(2) have "(2 :: rat) powi n \<le> 2 powi m" by (intro power_int_increasing) simp_all
  ultimately show False by simp
qed

lemma binexp_bounds:
  assumes "0 < x"
  shows "2 powi (binexp x) \<le> x" "x < 2 powi (binexp x + 1)"
proof -
  obtain p q where pq: "quotient_of x = (p, q)" by force
  then have x: "x = of_int p / of_int q" and q: "q > 0"
    using quotient_of_div quotient_of_denom_pos by auto
  with assms have p: "p > 0" by (simp add: zero_less_divide_iff)
  define a where "a = floorlog 2 (nat p)"
  define b where "b = floorlog 2 (nat q)"
  have a: "2 ^ (a - 1) \<le> nat p" "nat p < 2 ^ a" and b: "2 ^ (b - 1) \<le> nat q" "nat q < 2 ^ b"
    using floorlog_bounds [of "nat p" 2] floorlog_bounds [of "nat q" 2] p q
    by (simp_all add: a_def b_def)
  have a0: "a > 0" and b0: "b > 0"
    using a b p q by (auto intro: ccontr)
  have np: "int (nat p) = p" and nq: "int (nat q) = q" using p q by simp_all
  have ia: "(2 :: int) ^ (a - 1) \<le> p" "p < 2 ^ a"
    using a [folded of_nat_le_iff [where 'a = int] of_nat_less_iff [where 'a = int]] unfolding np by simp_all
  have ib: "(2 :: int) ^ (b - 1) \<le> q" "q < 2 ^ b"
    using b [folded of_nat_le_iff [where 'a = int] of_nat_less_iff [where 'a = int]] unfolding nq by simp_all
  have ra: "2 ^ (a - 1) \<le> (of_int p :: rat)" "(of_int p :: rat) < 2 ^ a"
    using ia [folded of_int_le_iff [where 'a = rat] of_int_less_iff [where 'a = rat]] by simp_all
  have rb: "2 ^ (b - 1) \<le> (of_int q :: rat)" "(of_int q :: rat) < 2 ^ b"
    using ib [folded of_int_le_iff [where 'a = rat] of_int_less_iff [where 'a = rat]] by simp_all
  let ?k = "int a - int b"
  have up: "x < 2 powi (?k + 1)"
  proof -
    have "x < 2 ^ a / 2 ^ (b - 1)"
      unfolding x using ra rb p q by (intro frac_less) auto
    also have "\<dots> = 2 powi (?k + 1)"
      using b0 by (simp add: power_int_diff power_int_add flip: power_int_of_nat)
    finally show ?thesis .
  qed
  have lo: "2 powi (?k - 1) \<le> x"
  proof -
    have "2 powi (?k - 1) = 2 ^ (a - 1) / (2 ^ b :: rat)"
      using a0 by (simp add: power_int_diff flip: power_int_of_nat)
    also have "\<dots> \<le> x"
      unfolding x using ra rb p q by (intro frac_le) auto
    finally show ?thesis .
  qed
  have "binexp x = (if 2 powi ?k \<le> x then ?k else ?k - 1)"
    by (simp add: binexp_def pq a_def b_def Let_def)
  with up lo show "2 powi (binexp x) \<le> x" "x < 2 powi (binexp x + 1)"
    by (auto split: if_splits)
qed

lemma rne_near: "\<bar>of_int (rne y) - y\<bar> \<le> 1 / 2"
proof -
  have "of_int \<lfloor>y\<rfloor> \<le> y" "y < of_int \<lfloor>y\<rfloor> + 1" using floor_correct [of y] by simp_all
  then show ?thesis by (auto simp: rne_def Let_def abs_le_iff)
qed

lemma rne_int [simp]: "rne (of_int n) = n"
  by (simp add: rne_def)

lemma rne_floor: "\<lfloor>y\<rfloor> \<le> rne y" "rne y \<le> \<lfloor>y\<rfloor> + 1"
  by (simp_all add: rne_def Let_def)

lemma rne_mono: "y \<le> z \<Longrightarrow> rne y \<le> rne z"
proof (cases "\<lfloor>y\<rfloor> = \<lfloor>z\<rfloor>")
  case True
  assume "y \<le> z"
  then show ?thesis by (simp add: rne_def True Let_def)
next
  case False
  assume "y \<le> z"
  then have "\<lfloor>y\<rfloor> \<le> \<lfloor>z\<rfloor>" by (rule floor_mono)
  with False rne_floor [of y] rne_floor [of z] show ?thesis by linarith
qed

lemma rne_le_int: "y \<le> of_int n \<Longrightarrow> rne y \<le> n" and rne_ge_int: "of_int n \<le> y \<Longrightarrow> n \<le> rne y"
  using rne_mono [of y "of_int n"] rne_mono [of "of_int n" y] by simp_all

lemma of_int_le_pow2: "n \<le> 2 ^ k \<Longrightarrow> (of_int n :: rat) \<le> 2 ^ k"
  and of_int_ge_pow2: "2 ^ k \<le> n \<Longrightarrow> 2 ^ k \<le> (of_int n :: rat)"
  using of_int_le_iff [of n "2 ^ k", where 'a = rat] of_int_le_iff [of "2 ^ k" n, where 'a = rat] by simp_all

text \<open>The unit of the last digit of a positive number, and what the number is in that unit.\<close>

definition ulp :: "rat \<Rightarrow> rat" where
  "ulp x = 2 powi (binexp x - 52)"

lemma ulp_pos [simp]: "0 < ulp x"
  by (simp add: ulp_def)

lemma fl_pos: "0 < x \<Longrightarrow> fl x = of_int (rne (x / ulp x)) * ulp x"
  by (simp add: fl_def ulp_def Let_def)

lemma fl_zero: "fl 0 = 0"
  by (simp add: fl_def)

lemma ulp_bounds:
  assumes "0 < x"
  shows "2 ^ 52 \<le> x / ulp x" "x / ulp x < 2 ^ 53"
proof -
  have "(2 :: rat) powi (binexp x) = 2 ^ 52 * ulp x" "(2 :: rat) powi (binexp x + 1) = 2 ^ 53 * ulp x"
    by (simp_all add: ulp_def power_int_diff power_int_add)
  with binexp_bounds [OF assms] show "2 ^ 52 \<le> x / ulp x" "x / ulp x < 2 ^ 53"
    by (simp_all add: pos_le_divide_eq pos_divide_less_eq)
qed

lemma fl_near:
  assumes "0 \<le> x"
  shows "\<bar>fl x - x\<bar> \<le> x / 2 ^ 53"
proof (cases "x = 0")
  case False
  with assms have x: "0 < x" by simp
  have "\<bar>fl x - x\<bar> = \<bar>of_int (rne (x / ulp x)) - x / ulp x\<bar> * ulp x"
  proof -
    have "fl x - x = (of_int (rne (x / ulp x)) - x / ulp x) * ulp x"
      using less_imp_neq [OF ulp_pos [of x]] by (simp add: fl_pos x left_diff_distrib)
    then show ?thesis by (simp only: abs_mult abs_of_pos [OF ulp_pos [of x]])
  qed
  also have "\<dots> \<le> 1 / 2 * ulp x"
    by (intro mult_right_mono rne_near less_imp_le [OF ulp_pos])
  also have "\<dots> \<le> x / 2 ^ 53"
    using ulp_bounds(1) [OF x] by (simp add: pos_le_divide_eq)
  finally show ?thesis .
qed (simp add: fl_zero)

lemma fl_exact:
  assumes "0 < x" "x / ulp x = of_int n"
  shows "fl x = x"
proof -
  have "fl x = of_int n * ulp x" using assms by (simp add: fl_pos)
  also have "\<dots> = x" unfolding assms(2) [symmetric] by (simp add: less_imp_neq [THEN not_sym])
  finally show ?thesis .
qed

lemma fl_int:
  assumes "0 \<le> n" "n \<le> 2 ^ 53"
  shows "fl (of_int n) = of_int n"
proof (cases "n = 0")
  case False
  with assms have x: "0 < (of_int n :: rat)" by simp
  let ?e = "binexp (of_int n)"
  have "2 powi ?e \<le> (of_int n :: rat)" by (rule binexp_bounds(1) [OF x])
  also have "(of_int n :: rat) \<le> 2 powi 53"
    using of_int_le_pow2 [OF assms(2)] by simp
  also have "(2 :: rat) powi 53 < 2 powi 54" by simp
  finally have e: "?e \<le> 53" by (drule_tac powi2_less) simp
  show ?thesis
  proof (cases "?e \<le> 52")
    case True
    define k where "k = nat (52 - ?e)"
    with True have k: "?e - 52 = - int k" by simp
    have "of_int n / ulp (of_int n) = of_int (n * 2 ^ k)"
    proof -
      have "ulp (of_int n) = inverse (2 ^ k)"
        unfolding ulp_def k by (simp add: power_int_minus)
      then show ?thesis by (simp add: divide_inverse)
    qed
    then show ?thesis by (rule fl_exact [OF x])
  next
    case False
    with e have "?e = 53" by simp
    with binexp_bounds(1) [OF x] of_int_le_pow2 [OF assms(2)] have "of_int n = (2 :: rat) ^ 53"
      by simp
    then have "of_int n / ulp (of_int n) = (of_int (2 ^ 52) :: rat)"
      using \<open>?e = 53\<close> by (simp add: ulp_def)
    then show ?thesis by (rule fl_exact [OF x])
  qed
qed (simp add: fl_zero)

lemma fl_mono:
  assumes "0 \<le> x" "x \<le> y"
  shows "fl x \<le> fl y"
proof (cases "x = 0")
  case True
  have "y - fl y \<le> y / 2 ^ 53" using abs_le_D2 [OF fl_near [of y]] assms by simp
  moreover have "y / 2 ^ 53 \<le> y" using assms by simp
  ultimately have "0 \<le> fl y" by linarith
  with True show ?thesis by (simp add: fl_zero)
next
  case False
  with assms have x: "0 < x" and y: "0 < y" by simp_all
  show ?thesis
  proof (cases "binexp x = binexp y")
    case True
    then have u: "ulp x = ulp y" by (simp add: ulp_def)
    have "rne (x / ulp y) \<le> rne (y / ulp y)"
      using assms by (intro rne_mono divide_right_mono) (auto intro: less_imp_le)
    then have "(of_int (rne (x / ulp y)) :: rat) \<le> of_int (rne (y / ulp y))" by simp
    then show ?thesis by (simp add: fl_pos x y u less_imp_le)
  next
    case False
    have "(2 :: rat) powi (binexp x) < 2 powi (binexp y + 1)"
      using binexp_bounds(1) [OF x] binexp_bounds(2) [OF y] assms by linarith
    then have "binexp x < binexp y + 1"
      by (rule powi2_less)
    with False have lt: "binexp x + 1 \<le> binexp y" by simp
    have "fl x \<le> 2 ^ 53 * ulp x"
      using of_int_le_pow2 [OF rne_le_int, of "x / ulp x" 53] ulp_bounds(2) [OF x] by (simp add: fl_pos x)
    also have "\<dots> = 2 powi (binexp x + 1)" by (simp add: ulp_def power_int_diff power_int_add)
    also have "\<dots> \<le> 2 powi (binexp y)" using lt by (intro power_int_increasing) simp_all
    also have "\<dots> = 2 ^ 52 * ulp y" by (simp add: ulp_def power_int_diff)
    also have "\<dots> \<le> fl y"
      using of_int_ge_pow2 [OF rne_ge_int, of 52 "y / ulp y"] ulp_bounds(1) [OF y] by (simp add: fl_pos y)
    finally show ?thesis .
  qed
qed

interpretation f64: rounding fl "1 / 2 ^ 53"
proof
  show "fl x \<le> fl y" if "0 \<le> x" "x \<le> y" for x y using that by (rule fl_mono)
  show "fl (of_int n) = of_int n" if "0 \<le> n" "n \<le> 2 ^ 53" for n using that by (rule fl_int)
  show "fl x \<le> x * (1 + 1 / 2 ^ 53)" if "0 \<le> x" for x
    using abs_le_D1 [OF fl_near [OF that]] by (simp add: distrib_left)
qed simp

text \<open>Rounding computes: the \<open>float64\<close> nearest to a tenth.\<close>

lemma fl_tenth: "fl (1 / 10) = 3602879701896397 / 36028797018963968"
  by code_simp

subsection \<open>Seconds of a duration\<close>

text \<open>
  \<open>Duration.Seconds\<close>: Go's integer division truncates, so the whole seconds and the rest have the
  sign of the duration.
\<close>

definition Seconds :: "int \<Rightarrow> rat" where
  "Seconds d = fl (fl (of_int (sgn d * (\<bar>d\<bar> div 1000000000))) + fl (fl (of_int (sgn d * (\<bar>d\<bar> mod 1000000000))) / 1000000000))"

text \<open>\<open>t.Sub(u)\<close>: the difference, saturated at the ends of \<open>int64\<close>.\<close>

definition time_Sub :: "int \<Rightarrow> int \<Rightarrow> int" where
  "time_Sub t u = max (- (2 ^ 63)) (min (2 ^ 63 - 1) (t - u))"

lemma time_Sub_pos: "u \<le> t \<Longrightarrow> 0 \<le> time_Sub t u \<and> time_Sub t u \<le> t - u \<and> time_Sub t u < 2 ^ 63"
  by (simp add: time_Sub_def)

lemma secs_small: "d < 2 ^ 63 \<Longrightarrow> d div 1000000000 \<le> (2 :: int) ^ 53"
  using zdiv_mono1 [of d "2 ^ 63" 1000000000] by simp

lemma Seconds_exact_parts:
  assumes "0 \<le> d" "d < 2 ^ 63"
  shows "Seconds d = fl (of_int (d div 1000000000) + fl (of_int (d mod 1000000000) / 1000000000))"
proof -
  have q: "0 \<le> d div 1000000000" "d div 1000000000 \<le> 2 ^ 53"
    using assms secs_small by (simp_all only: pos_imp_zdiv_nonneg_iff)
  have m: "0 \<le> d mod 1000000000" "d mod 1000000000 \<le> 2 ^ 53" using pos_mod_bound [of 1000000000 d] by simp_all
  have s: "sgn d * (\<bar>d\<bar> div 1000000000) = d div 1000000000" "sgn d * (\<bar>d\<bar> mod 1000000000) = d mod 1000000000"
    using assms(1) by (cases "d = 0"; simp)+
  show ?thesis unfolding Seconds_def s f64.rnd_int [OF q] f64.rnd_int [OF m] ..
qed

text \<open>\<open>Seconds\<close> is at least a whole number of seconds that the duration has, and at most slightly too large.\<close>

lemma Seconds_ge:
  assumes "0 \<le> d" "d < 2 ^ 63" "0 \<le> k" "k * 1000000000 \<le> d"
  shows "of_int k \<le> Seconds d"
proof -
  have k: "k \<le> d div 1000000000" using assms by (simp add: zdiv_mono1 [of "k * 1000000000" d 1000000000, simplified])
  with secs_small [OF assms(2)] have b: "k \<le> 2 ^ 53" by simp
  have "0 \<le> fl (of_int (d mod 1000000000) / 1000000000)" by (rule f64.rnd_nonneg) simp
  moreover have "(of_int k :: rat) \<le> of_int (d div 1000000000)" using k by (simp only: of_int_le_iff)
  ultimately have "of_int k \<le> (of_int (d div 1000000000) + fl (of_int (d mod 1000000000) / 1000000000) :: rat)"
    by linarith
  then show ?thesis
    unfolding Seconds_exact_parts [OF assms(1,2)] by (rule f64.rnd_ge_int [OF assms(3) b])
qed

lemma Seconds_le:
  assumes "0 \<le> d" "d < 2 ^ 63"
  shows "Seconds d \<le> of_int d / 1000000000 * (1 + 1 / 2 ^ 53) ^ 2"
proof -
  let ?e = "1 + 1 / 2 ^ 53 :: rat" and ?q = "of_int (d div 1000000000) :: rat" and ?m = "of_int (d mod 1000000000) / 1000000000 :: rat"
  have q: "0 \<le> ?q" and m: "0 \<le> ?m" using assms(1) by (simp_all add: pos_imp_zdiv_nonneg_iff)
  have "d = d div 1000000000 * 1000000000 + d mod 1000000000" by simp
  then have "of_int d = (?q * 1000000000 + of_int (d mod 1000000000) :: rat)"
    by (metis of_int_add of_int_mult of_int_numeral)
  then have dm: "of_int d / 1000000000 = ?q + ?m" by (simp add: field_simps)
  have "fl ?m \<le> ?m * ?e" by (rule f64.rnd_upper [OF m])
  moreover have "?q \<le> ?q * ?e" using q by (simp add: distrib_left)
  ultimately have "?q + fl ?m \<le> (?q + ?m) * ?e" by (simp only: distrib_right) 
  moreover have "Seconds d \<le> (?q + fl ?m) * ?e"
    unfolding Seconds_exact_parts [OF assms] using q f64.rnd_nonneg [OF m] by (intro f64.rnd_upper) simp
  ultimately have "Seconds d \<le> (?q + ?m) * ?e * ?e"
    by (meson mult_right_mono order_trans zero_le_divide_1_iff zero_le_numeral zero_le_power add_nonneg_nonneg zero_le_one)
  then show ?thesis unfolding dm by (simp only: power2_eq_square mult.assoc)
qed

end
