(* ===== verification/Telemetry.thy ===== *)
theory Telemetry
  imports GoStrings Float64 Complex_Main "HOL-Library.Multiset"
begin

text \<open>
  The part of package \<open>telemetry\<close> a Mesa owns: its configuration, the runtime \<open>New\<close> makes and
  its \<open>Shutdown\<close>.  A \<open>float64\<close> is a rational number, an infinity or NaN; the code only compares
  it.  Whether the exporter and the resource of OpenTelemetry can be made is an argument.
\<close>

subsection \<open>Floating point numbers\<close>

datatype float64 = Fin rat | PosInf | NegInf | NaN

text \<open>\<open><\<close> of Go: false when either side is NaN.\<close>

fun f_less :: "float64 \<Rightarrow> float64 \<Rightarrow> bool" where
  "f_less NaN y = False"
| "f_less x NaN = False"
| "f_less PosInf y = False"
| "f_less x NegInf = False"
| "f_less NegInf y = True"
| "f_less x PosInf = True"
| "f_less (Fin x) (Fin y) = (x < y)"

text \<open>Comparisons of \<open>float64\<close> values are written as in the code; they are no linear order.\<close>

instantiation float64 :: ord
begin

definition less_float64 :: "float64 \<Rightarrow> float64 \<Rightarrow> bool" where
  "less_float64 x y = f_less x y"

definition less_eq_float64 :: "float64 \<Rightarrow> float64 \<Rightarrow> bool" where
  "less_eq_float64 x y \<longleftrightarrow> f_less x y \<or> (x = y \<and> x \<noteq> NaN)"

instance ..

end

lemma float64_less_simps [simp]:
  "\<not> NaN < x" "\<not> x < NaN" "Fin p < Fin q \<longleftrightarrow> p < q" "Fin p < PosInf" "NegInf < Fin p" "\<not> PosInf < x" "\<not> x < NegInf"
  by (cases x; simp add: less_float64_def)+

text \<open>The ratios \<open>cfg.TraceSampleRatio < 0 || cfg.TraceSampleRatio > 1\<close> refuses.\<close>

definition ratio_bad :: "float64 \<Rightarrow> bool" where
  "ratio_bad x \<longleftrightarrow> x < Fin 0 \<or> x > Fin 1"

lemma ratio_bad_iff: "\<not> ratio_bad x \<longleftrightarrow> x = NaN \<or> (\<exists>q. x = Fin q \<and> 0 \<le> q \<and> q \<le> 1)"
  by (cases x) (auto simp: ratio_bad_def less_float64_def)

subsection \<open>Configuration and runtime\<close>

record telemetry_config =
  tc_Enabled :: bool
  tc_ServiceName :: string
  tc_OTLPEndpoint :: string
  tc_Insecure :: bool
  tc_TraceSampleRatio :: float64

text \<open>A runtime: whether it has a tracer provider, and the ratio its sampler was given.\<close>

record telemetry_runtime =
  tr_tracerProvider :: bool
  tr_ratio :: float64

text \<open>The clients and exporters a process holds open.\<close>

datatype resource = HExporter | HDB | HRedis | HEtcd | HRegistry

text \<open>The float64 nearest to 0.1.\<close>

definition tenth :: float64 where
  "tenth = Fin (3602879701896397 / 36028797018963968)"

lemma tenth_nearest: "tenth = Fin (fl (1 / 10))"
  by (simp add: tenth_def fl_tenth)

text \<open>
  \<open>telemetry.New\<close>, with what \<open>otlptracegrpc.New\<close> and \<open>resource.New\<close> return, on the multiset of open
  resources.  When \<open>resource.New\<close> fails the exporter stays open.
\<close>

definition telemetry_New ::
  "error option \<Rightarrow> error option \<Rightarrow> telemetry_config \<Rightarrow> resource multiset \<Rightarrow> (error + telemetry_runtime) \<times> resource multiset" where
  "telemetry_New exporter_err resource_err cfg h =
     (if \<not> tc_Enabled cfg then (Inr \<lparr>tr_tracerProvider = False, tr_ratio = tc_TraceSampleRatio cfg\<rparr>, h)
      else if TrimSpace (tc_ServiceName cfg) = [] then (Inl (Errs ''telemetry service name is required''), h)
      else if TrimSpace (tc_OTLPEndpoint cfg) = [] then (Inl (Errs ''telemetry OTLP endpoint is required''), h)
      else if ratio_bad (tc_TraceSampleRatio cfg)
        then (Inl (Errs ''telemetry trace sample ratio must be between 0 and 1''), h)
      else
        (let ratio = (if tc_TraceSampleRatio cfg = Fin 0 then tenth else tc_TraceSampleRatio cfg) in
         case exporter_err of
           Some e \<Rightarrow> (Inl (Wrap ''create OTLP trace exporter: '' e []), h)
         | None \<Rightarrow>
             (case resource_err of
                Some e \<Rightarrow> (Inl (Wrap ''create telemetry resource: '' e []), h + {#HExporter#})
              | None \<Rightarrow> (Inr \<lparr>tr_tracerProvider = True, tr_ratio = ratio\<rparr>, h + {#HExporter#}))))"

text \<open>
  Which provider a caller gets, the runtime's own or the one of the process; a nil runtime has none.
  A propagator is always there: the runtime's, or a new one.
\<close>

datatype provider = GlobalProvider | OwnProvider

definition TracerProvider :: "telemetry_runtime option \<Rightarrow> provider" where
  "TracerProvider r =
     (case r of None \<Rightarrow> GlobalProvider | Some rt \<Rightarrow> (if \<not> tr_tracerProvider rt then GlobalProvider else OwnProvider))"

definition Tracer :: "telemetry_runtime option \<Rightarrow> string \<Rightarrow> provider \<times> string" where
  "Tracer r name =
     (case r of None \<Rightarrow> (GlobalProvider, name)
      | Some rt \<Rightarrow> (if \<not> tr_tracerProvider rt then (GlobalProvider, name) else (OwnProvider, name)))"

definition telemetry_Start :: "telemetry_runtime option \<Rightarrow> string \<Rightarrow> (provider \<times> string) \<times> string" where
  "telemetry_Start r name = (Tracer r name, name)"

lemma Tracer_provider: "fst (Tracer r name) = TracerProvider r"
  by (simp add: Tracer_def TracerProvider_def split: option.splits)

text \<open>\<open>Shutdown\<close>, with what the provider's \<open>Shutdown\<close> returns, which closes the exporter.\<close>

definition telemetry_Shutdown ::
  "error option \<Rightarrow> telemetry_runtime \<Rightarrow> resource multiset \<Rightarrow> error option \<times> resource multiset" where
  "telemetry_Shutdown err r h =
     (if \<not> tr_tracerProvider r then (None, h) else (err, h - {#HExporter#}))"

lemma telemetry_New_Inr:
  assumes "telemetry_New ee re cfg h = (Inr r, h')"
  shows "h' = h + (if tr_tracerProvider r then {#HExporter#} else {#})"
    and "tr_tracerProvider r = tc_Enabled cfg"
  using assms by (auto simp: telemetry_New_def Let_def split: if_splits option.splits)

lemma telemetry_New_Inl:
  assumes "telemetry_New ee re cfg h = (Inl e, h')"
  shows "tc_Enabled cfg" and "h' = h \<or> (h' = h + {#HExporter#} \<and> ee = None \<and> re \<noteq> None)"
  using assms by (auto simp: telemetry_New_def Let_def split: if_splits option.splits)

text \<open>A configuration is accepted exactly when it is disabled or complete.\<close>

definition telemetry_complete :: "telemetry_config \<Rightarrow> bool" where
  "telemetry_complete cfg \<longleftrightarrow>
     \<not> tc_Enabled cfg
     \<or> (TrimSpace (tc_ServiceName cfg) \<noteq> [] \<and> TrimSpace (tc_OTLPEndpoint cfg) \<noteq> []
        \<and> \<not> ratio_bad (tc_TraceSampleRatio cfg))"

lemma telemetry_New_ok:
  "(\<exists>r h'. telemetry_New None None cfg h = (Inr r, h')) \<longleftrightarrow> telemetry_complete cfg"
  by (simp add: telemetry_New_def telemetry_complete_def Let_def)

end
