(* ===== verification/TransportHttp.thy ===== *)
theory TransportHttp
  imports GoStrings
begin

text \<open>
  Package \<open>transport\<close> and the settings of package \<open>transport/http\<close>: the kinds of servers, the
  options of an HTTP server and the settings \<open>NewHTTPServer\<close> ends with.  The host address and
  the telemetry are pointers passed on.  The routing itself is gin's.
\<close>

subsection \<open>Kinds of servers\<close>

definition HTTP :: nat where "HTTP = 1"
definition TCP :: nat where "TCP = 2"
definition MICRO_SERVER :: nat where "MICRO_SERVER = 3"

lemmas nettype_defs = HTTP_def TCP_def MICRO_SERVER_def

subsection \<open>Options\<close>

record http_options =
  ho_Host :: ptr
  ho_Port :: int
  ho_Type :: nat
  ho_ReadHeaderTimeout :: duration
  ho_ReadTimeout :: duration
  ho_WriteTimeout :: duration
  ho_IdleTimeout :: duration
  ho_MaxHeaderBytes :: int
  ho_MaxBodyBytes :: int
  ho_RequestTimeout :: duration
  ho_Telemetry :: ptr
  ho_Metrics :: ptr

datatype http_option =
    H_WithTelemetry ptr ptr
  | H_WithType nat
  | H_WithHost ptr
  | H_WithPort int
  | H_WithTimeouts duration duration duration duration
  | H_WithMaxHeaderBytes int
  | H_WithMaxBodyBytes int
  | H_WithRequestTimeout duration

fun apply_http_option :: "http_option \<Rightarrow> http_options \<Rightarrow> http_options" where
  "apply_http_option (H_WithTelemetry rt ms) ho = ho\<lparr>ho_Telemetry := rt, ho_Metrics := ms\<rparr>"
| "apply_http_option (H_WithType typ) ho = ho\<lparr>ho_Type := typ\<rparr>"
| "apply_http_option (H_WithHost host) ho = ho\<lparr>ho_Host := host\<rparr>"
| "apply_http_option (H_WithPort port) ho = ho\<lparr>ho_Port := port\<rparr>"
| "apply_http_option (H_WithTimeouts readHeader read write idle) ho =
     ho\<lparr>ho_ReadHeaderTimeout := (if readHeader > 0 then readHeader else ho_ReadHeaderTimeout ho),
        ho_ReadTimeout := (if read > 0 then read else ho_ReadTimeout ho),
        ho_WriteTimeout := (if write > 0 then write else ho_WriteTimeout ho),
        ho_IdleTimeout := (if idle > 0 then idle else ho_IdleTimeout ho)\<rparr>"
| "apply_http_option (H_WithMaxHeaderBytes n) ho = (if n > 0 then ho\<lparr>ho_MaxHeaderBytes := n\<rparr> else ho)"
| "apply_http_option (H_WithMaxBodyBytes n) ho = (if n > 0 then ho\<lparr>ho_MaxBodyBytes := n\<rparr> else ho)"
| "apply_http_option (H_WithRequestTimeout d) ho = (if d > 0 then ho\<lparr>ho_RequestTimeout := d\<rparr> else ho)"

definition http_defaultOptions :: http_options where
  "http_defaultOptions =
     \<lparr>ho_Host = None, ho_Port = 0, ho_Type = 0, ho_ReadHeaderTimeout = 5 * second,
      ho_ReadTimeout = 15 * second, ho_WriteTimeout = 30 * second, ho_IdleTimeout = 60 * second,
      ho_MaxHeaderBytes = 1048576, ho_MaxBodyBytes = 10485760, ho_RequestTimeout = 30 * second,
      ho_Telemetry = None, ho_Metrics = None\<rparr>"

text \<open>The settings of the server \<open>NewHTTPServer\<close> makes.\<close>

definition NewHTTPServer :: "http_option list \<Rightarrow> http_options" where
  "NewHTTPServer opts = fold apply_http_option opts http_defaultOptions"

definition http_limits_ok :: "http_options \<Rightarrow> bool" where
  "http_limits_ok ho \<longleftrightarrow>
     0 < ho_ReadHeaderTimeout ho \<and> 0 < ho_ReadTimeout ho \<and> 0 < ho_WriteTimeout ho \<and> 0 < ho_IdleTimeout ho
     \<and> 0 < ho_MaxHeaderBytes ho \<and> 0 < ho_MaxBodyBytes ho \<and> 0 < ho_RequestTimeout ho"

lemma apply_http_option_ok: "http_limits_ok ho \<Longrightarrow> http_limits_ok (apply_http_option p ho)"
  by (cases p) (auto simp: http_limits_ok_def)

interpretation http_opts: option_family apply_http_option http_limits_ok
  by unfold_locales (rule apply_http_option_ok)

lemma NewHTTPServer_ok: "http_limits_ok (NewHTTPServer opts)"
  unfolding NewHTTPServer_def
  by (rule http_opts.apply_all_good) (simp add: http_limits_ok_def http_defaultOptions_def)

end
