(* ===== verification/MicroService.thy ===== *)
theory MicroService
  imports TransportHttp
begin

text \<open>
  service.go and options.go of package \<open>transport/micro\<close>: the options of a server for go-micro, the
  registration of its handlers, its clients, and its start and stop.  The services that
  \<open>NewService\<close> of go-micro makes are kept in a table: a pointer is a position of it, an entry has
  the settings the service was made with and whether its server serves.  What their \<open>Start\<close> and
  \<open>Stop\<close> return and what the handler does are arguments.
\<close>

subsection \<open>Options\<close>

record service_scheme =
  ss_Name :: string
  ss_Version :: string
  ss_Port :: int

record micro_options =
  mc_reg :: ptr
  mc_Type :: nat
  mc_serviceScheme :: service_scheme
  mc_telemetry :: ptr

datatype micro_option =
    M_WithTelemetry ptr
  | M_WithServiceScheme service_scheme
  | M_WithType nat
  | M_WithRegistry ptr

fun apply_micro_option :: "micro_option \<Rightarrow> micro_options \<Rightarrow> micro_options" where
  "apply_micro_option (M_WithTelemetry runtime) mc = mc\<lparr>mc_telemetry := runtime\<rparr>"
| "apply_micro_option (M_WithServiceScheme scheme) mc = mc\<lparr>mc_serviceScheme := scheme\<rparr>"
| "apply_micro_option (M_WithType typ) mc = mc\<lparr>mc_Type := typ\<rparr>"
| "apply_micro_option (M_WithRegistry reg) mc = mc\<lparr>mc_reg := reg\<rparr>"

definition micro_zero :: micro_options where
  "micro_zero = \<lparr>mc_reg = None, mc_Type = 0, mc_serviceScheme = \<lparr>ss_Name = [], ss_Version = [], ss_Port = 0\<rparr>, mc_telemetry = None\<rparr>"

subsection \<open>The server\<close>

text \<open>What \<open>NewService\<close> is given: name, address, registry and, with telemetry, the three wrappers.\<close>

record go_micro =
  gm_Name :: string
  gm_Address :: string
  gm_Registry :: ptr
  gm_traced :: ptr

type_synonym micro_world = "(go_micro \<times> bool) list"

record micro_server =
  mv_opts :: micro_options
  mv_clients :: "(string \<rightharpoonup> ptr) option"
  mv_service :: ptr

definition NewMicroServer :: "micro_option list \<Rightarrow> micro_server" where
  "NewMicroServer opts = \<lparr>mv_opts = fold apply_micro_option opts micro_zero, mv_clients = None, mv_service = None\<rparr>"

definition micro_GetType :: "micro_server \<Rightarrow> nat" where
  "micro_GetType s = mc_Type (mv_opts s)"

definition GetServiceClient :: "micro_server \<Rightarrow> string \<Rightarrow> ptr" where
  "GetServiceClient s service =
     (case mv_clients s of
        None \<Rightarrow> None
      | Some clients \<Rightarrow> (case clients service of None \<Rightarrow> None | Some c \<Rightarrow> c))"

definition NewServiceClients :: "(ptr \<Rightarrow> (string \<rightharpoonup> ptr) option) \<Rightarrow> micro_server \<Rightarrow> micro_server" where
  "NewServiceClients nsc s = s\<lparr>mv_clients := nsc (mc_reg (mv_opts s))\<rparr>"

definition serviceOptions :: "micro_options \<Rightarrow> go_micro" where
  "serviceOptions mc =
     \<lparr>gm_Name = ss_Name (mc_serviceScheme mc), gm_Address = '':'' @ Itoa (ss_Port (mc_serviceScheme mc)),
      gm_Registry = mc_reg mc, gm_traced = mc_telemetry mc\<rparr>"

definition RegisterHandler ::
  "(nat \<Rightarrow> error option) \<Rightarrow> micro_server \<Rightarrow> micro_world \<Rightarrow> error option \<times> micro_server \<times> micro_world" where
  "RegisterHandler handler s w =
     (let w1 = w @ [(serviceOptions (mv_opts s), False)];
          s1 = s\<lparr>mv_service := Some (length w)\<rparr>
      in case handler (length w) of
           Some err \<Rightarrow> (Some err, s1, w1)
         | None \<Rightarrow> (None, s1, w1))"

text \<open>\<open>Start\<close> also makes a goroutine that calls \<open>Stop\<close> once the context is done.\<close>

definition micro_Start ::
  "(nat \<Rightarrow> error option) \<Rightarrow> micro_server \<Rightarrow> micro_world \<Rightarrow> error option \<times> bool \<times> micro_world" where
  "micro_Start start s w =
     (case mv_service s of
        None \<Rightarrow> (None, False, w)
      | Some a \<Rightarrow>
          (case start a of
             Some err \<Rightarrow> (Some err, False, w)
           | None \<Rightarrow> (None, True, w[a := (fst (w ! a), True)])))"

text \<open>The server stops serving whatever its \<open>Stop\<close> reports, and the service is dropped.\<close>

definition micro_Stop ::
  "(nat \<Rightarrow> error option) \<Rightarrow> micro_server \<Rightarrow> micro_world \<Rightarrow> error option \<times> micro_server \<times> micro_world" where
  "micro_Stop stop s w =
     (case mv_service s of
        None \<Rightarrow> (None, s, w)
      | Some a \<Rightarrow> (stop a, s\<lparr>mv_service := None\<rparr>, w[a := (fst (w ! a), False)]))"

subsection \<open>Properties\<close>

text \<open>The services of this server that serve, told by a run of calls.\<close>

datatype micro_call = MRegister | MStart | MStop

fun micro_calls :: "micro_call list \<Rightarrow> micro_server \<times> micro_world \<Rightarrow> micro_server \<times> micro_world" where
  "micro_calls [] sw = sw"
| "micro_calls (MRegister # cs) sw = micro_calls cs (snd (RegisterHandler (\<lambda>_. None) (fst sw) (snd sw)))"
| "micro_calls (MStart # cs) sw = micro_calls cs (fst sw, snd (snd (micro_Start (\<lambda>_. None) (fst sw) (snd sw))))"
| "micro_calls (MStop # cs) sw = micro_calls cs (snd (micro_Stop (\<lambda>_. None) (fst sw) (snd sw)))"

definition serving :: "micro_world \<Rightarrow> nat list" where
  "serving w = filter (\<lambda>a. snd (w ! a)) [0..<length w]"

text \<open>Started and stopped around one registration, nothing is left serving.\<close>

lemma micro_start_stop:
  "serving (snd (micro_calls [MRegister, MStart, MStop] (NewMicroServer opts, []))) = []"
  by (simp add: serving_def NewMicroServer_def RegisterHandler_def micro_Start_def micro_Stop_def Let_def)

text \<open>A second registration while it serves forgets the running service, and no stop reaches it.\<close>

lemma micro_lost_service:
  "serving (snd (micro_calls [MRegister, MStart, MRegister, MStop, MStop] (NewMicroServer opts, []))) = [0]"
  by (simp add: serving_def NewMicroServer_def RegisterHandler_def micro_Start_def micro_Stop_def Let_def upt_rec)

text \<open>A start after a stop reports success and serves nothing.\<close>

lemma micro_start_after_stop:
  "serving (snd (micro_calls [MRegister, MStart, MStop, MStart] (NewMicroServer opts, []))) = []"
  by (simp add: serving_def NewMicroServer_def RegisterHandler_def micro_Start_def micro_Stop_def Let_def)

end
