(* ===== verification/MesaConfig.thy ===== *)
theory MesaConfig
  imports PubsubService ReminderService Logger Telemetry MicroService
begin

text \<open>
  options.go and config.go of package \<open>wego\<close>: the configuration of the components, the options
  of \<open>New\<close>, and the validated configuration that is turned into options.  Pointers to values
  (\<open>*bool\<close>, \<open>*RetryPolicy\<close>) are options of the value, since the code copies what they point to;
  notifiers and user servers are given by numbers.  Of \<open>clientv3.Config\<close> only the fields
  the code reads are kept.  \<open>net.SplitHostPort\<close> is a parameter that says which addresses it
  accepts, and the order in which Go ranges over a map is a parameter too.
\<close>

subsection \<open>Data\<close>

record redis_config =
  rc_Addr :: string
  rc_Password :: string
  rc_DB :: int
  rc_TLSConfig :: ptr

record http_config =
  hc_Port :: int
  hc_ReadHeaderTimeout :: duration
  hc_ReadTimeout :: duration
  hc_WriteTimeout :: duration
  hc_IdleTimeout :: duration
  hc_MaxHeaderBytes :: int
  hc_MaxBodyBytes :: int
  hc_RequestTimeout :: duration

record pubsub_config =
  pcf_Enabled :: bool
  pcf_Name :: string
  pcf_RetryPolicy :: "retry_policy option"
  pcf_StreamPrefix :: string
  pcf_StreamMaxLen :: int
  pcf_StreamApproxMaxLen :: "bool option"
  pcf_StreamBlock :: duration
  pcf_StreamReadCount :: int
  pcf_DeadLetterEnabled :: "bool option"
  pcf_DeadLetterSuffix :: string
  pcf_Logger :: ptr
  pcf_Options :: "pubsub_option list"

record reminder_config =
  rcf_Enabled :: bool
  rcf_Notifier :: ptr
  rcf_Name :: string
  rcf_PollInterval :: duration
  rcf_BatchSize :: int
  rcf_ProcessingTTL :: duration
  rcf_RetryDelays :: "duration list"
  rcf_Logger :: ptr
  rcf_Options :: "reminder_option list"

record components_config =
  cc_PubSub :: pubsub_config
  cc_Reminder :: reminder_config

record etcd_config =
  ec_Endpoints :: "string list"
  ec_Username :: string
  ec_Password :: string

text \<open>The servers of a runtime: those \<open>New\<close> makes and those the application passes, with their type.\<close>

datatype server =
    HTTPServer http_options
  | MicroServer service_scheme etcd_config
  | UserServer nat nat

record mesa_options =
  mo_LogLevel :: level
  mo_Telemetry :: telemetry_config
  mo_HttpPort :: int
  mo_HTTPConfig :: http_config
  mo_EtcdConfig :: etcd_config
  mo_dsn :: string
  mo_RedisConfig :: redis_config
  mo_Servers :: "server list"
  mo_components :: components_config
  mo_serviceScheme :: service_scheme
  mo_profile :: string

text \<open>The zero values \<open>var o options\<close> starts with.\<close>

definition zero_pubsub :: pubsub_config where
  "zero_pubsub =
     \<lparr>pcf_Enabled = False, pcf_Name = [], pcf_RetryPolicy = None, pcf_StreamPrefix = [],
      pcf_StreamMaxLen = 0, pcf_StreamApproxMaxLen = None, pcf_StreamBlock = 0, pcf_StreamReadCount = 0,
      pcf_DeadLetterEnabled = None, pcf_DeadLetterSuffix = [], pcf_Logger = None, pcf_Options = []\<rparr>"

definition zero_reminder :: reminder_config where
  "zero_reminder =
     \<lparr>rcf_Enabled = False, rcf_Notifier = None, rcf_Name = [], rcf_PollInterval = 0, rcf_BatchSize = 0,
      rcf_ProcessingTTL = 0, rcf_RetryDelays = [], rcf_Logger = None, rcf_Options = []\<rparr>"

definition zero_components :: components_config where
  "zero_components = \<lparr>cc_PubSub = zero_pubsub, cc_Reminder = zero_reminder\<rparr>"

definition zero_telemetry :: telemetry_config where
  "zero_telemetry =
     \<lparr>tc_Enabled = False, tc_ServiceName = [], tc_OTLPEndpoint = [], tc_Insecure = False,
      tc_TraceSampleRatio = Fin 0\<rparr>"

definition zero_http :: http_config where
  "zero_http =
     \<lparr>hc_Port = 0, hc_ReadHeaderTimeout = 0, hc_ReadTimeout = 0, hc_WriteTimeout = 0, hc_IdleTimeout = 0,
      hc_MaxHeaderBytes = 0, hc_MaxBodyBytes = 0, hc_RequestTimeout = 0\<rparr>"

definition zero_etcd :: etcd_config where
  "zero_etcd = \<lparr>ec_Endpoints = [], ec_Username = [], ec_Password = []\<rparr>"

definition zero_redis :: redis_config where
  "zero_redis = \<lparr>rc_Addr = [], rc_Password = [], rc_DB = 0, rc_TLSConfig = None\<rparr>"

definition zero_options :: mesa_options where
  "zero_options =
     \<lparr>mo_LogLevel = 0, mo_Telemetry = zero_telemetry, mo_HttpPort = 0, mo_HTTPConfig = zero_http,
      mo_EtcdConfig = zero_etcd, mo_dsn = [], mo_RedisConfig = zero_redis, mo_Servers = [],
      mo_components = zero_components, mo_serviceScheme = \<lparr>ss_Name = [], ss_Version = [], ss_Port = 0\<rparr>,
      mo_profile = []\<rparr>"

lemmas zero_defs = zero_pubsub_def zero_reminder_def zero_components_def zero_telemetry_def zero_http_def
  zero_etcd_def zero_redis_def zero_options_def

subsection \<open>Merging component configurations\<close>

definition mergePubSubComponentConfig :: "pubsub_config \<Rightarrow> pubsub_config \<Rightarrow> pubsub_config" where
  "mergePubSubComponentConfig current incoming =
     \<lparr>pcf_Enabled = (if pcf_Enabled incoming then True else pcf_Enabled current),
      pcf_Name = (if pcf_Name incoming \<noteq> [] then pcf_Name incoming else pcf_Name current),
      pcf_RetryPolicy = (if pcf_RetryPolicy incoming \<noteq> None then pcf_RetryPolicy incoming else pcf_RetryPolicy current),
      pcf_StreamPrefix = (if pcf_StreamPrefix incoming \<noteq> [] then pcf_StreamPrefix incoming else pcf_StreamPrefix current),
      pcf_StreamMaxLen = (if pcf_StreamMaxLen incoming > 0 then pcf_StreamMaxLen incoming else pcf_StreamMaxLen current),
      pcf_StreamApproxMaxLen =
        (if pcf_StreamApproxMaxLen incoming \<noteq> None then pcf_StreamApproxMaxLen incoming
         else pcf_StreamApproxMaxLen current),
      pcf_StreamBlock = (if pcf_StreamBlock incoming > 0 then pcf_StreamBlock incoming else pcf_StreamBlock current),
      pcf_StreamReadCount =
        (if pcf_StreamReadCount incoming > 0 then pcf_StreamReadCount incoming else pcf_StreamReadCount current),
      pcf_DeadLetterEnabled =
        (if pcf_DeadLetterEnabled incoming \<noteq> None then pcf_DeadLetterEnabled incoming
         else pcf_DeadLetterEnabled current),
      pcf_DeadLetterSuffix =
        (if pcf_DeadLetterSuffix incoming \<noteq> [] then pcf_DeadLetterSuffix incoming else pcf_DeadLetterSuffix current),
      pcf_Logger = (if pcf_Logger incoming \<noteq> None then pcf_Logger incoming else pcf_Logger current),
      pcf_Options = (if length (pcf_Options incoming) > 0 then pcf_Options incoming else pcf_Options current)\<rparr>"

definition mergeReminderComponentConfig :: "reminder_config \<Rightarrow> reminder_config \<Rightarrow> reminder_config" where
  "mergeReminderComponentConfig current incoming =
     \<lparr>rcf_Enabled = (if rcf_Enabled incoming then True else rcf_Enabled current),
      rcf_Notifier = (if rcf_Notifier incoming \<noteq> None then rcf_Notifier incoming else rcf_Notifier current),
      rcf_Name = (if rcf_Name incoming \<noteq> [] then rcf_Name incoming else rcf_Name current),
      rcf_PollInterval = (if rcf_PollInterval incoming > 0 then rcf_PollInterval incoming else rcf_PollInterval current),
      rcf_BatchSize = (if rcf_BatchSize incoming > 0 then rcf_BatchSize incoming else rcf_BatchSize current),
      rcf_ProcessingTTL =
        (if rcf_ProcessingTTL incoming > 0 then rcf_ProcessingTTL incoming else rcf_ProcessingTTL current),
      rcf_RetryDelays =
        (if length (rcf_RetryDelays incoming) > 0 then rcf_RetryDelays incoming else rcf_RetryDelays current),
      rcf_Logger = (if rcf_Logger incoming \<noteq> None then rcf_Logger incoming else rcf_Logger current),
      rcf_Options = (if length (rcf_Options incoming) > 0 then rcf_Options incoming else rcf_Options current)\<rparr>"

definition mergeComponents :: "components_config \<Rightarrow> components_config \<Rightarrow> components_config" where
  "mergeComponents current cfg =
     \<lparr>cc_PubSub = mergePubSubComponentConfig (cc_PubSub current) (cc_PubSub cfg),
      cc_Reminder = mergeReminderComponentConfig (cc_Reminder current) (cc_Reminder cfg)\<rparr>"

subsection \<open>Options\<close>

datatype mesa_option =
    WithProfile string
  | WithTelemetry telemetry_config
  | WithServiceScheme service_scheme
  | WithDSN string
  | WithHttpPort int
  | WithHTTPConfig http_config
  | WithLogLevel level
  | WithServers "server list"
  | WithEtcdConfig etcd_config
  | WithRedisConfig redis_config
  | WithComponents components_config
  | WithPubSub "pubsub_option list"
  | WithReminder ptr "reminder_option list"

fun apply_mesa_option :: "mesa_option \<Rightarrow> mesa_options \<Rightarrow> mesa_options" where
  "apply_mesa_option (WithProfile p) mo = mo\<lparr>mo_profile := p\<rparr>"
| "apply_mesa_option (WithTelemetry cfg) mo = mo\<lparr>mo_Telemetry := cfg\<rparr>"
| "apply_mesa_option (WithServiceScheme scheme) mo = mo\<lparr>mo_serviceScheme := scheme\<rparr>"
| "apply_mesa_option (WithDSN dsn) mo = mo\<lparr>mo_dsn := dsn\<rparr>"
| "apply_mesa_option (WithHttpPort port) mo = mo\<lparr>mo_HttpPort := port\<rparr>"
| "apply_mesa_option (WithHTTPConfig cfg) mo =
     (let mo1 = mo\<lparr>mo_HTTPConfig := cfg\<rparr>
      in if hc_Port cfg > 0 then mo1\<lparr>mo_HttpPort := hc_Port cfg\<rparr> else mo1)"
| "apply_mesa_option (WithLogLevel level) mo = mo\<lparr>mo_LogLevel := level\<rparr>"
| "apply_mesa_option (WithServers servers) mo = mo\<lparr>mo_Servers := servers\<rparr>"
| "apply_mesa_option (WithEtcdConfig config) mo = mo\<lparr>mo_EtcdConfig := config\<rparr>"
| "apply_mesa_option (WithRedisConfig cfg) mo = mo\<lparr>mo_RedisConfig := cfg\<rparr>"
| "apply_mesa_option (WithComponents cfg) mo = mo\<lparr>mo_components := mergeComponents (mo_components mo) cfg\<rparr>"
| "apply_mesa_option (WithPubSub opts) mo =
     mo\<lparr>mo_components := mergeComponents (mo_components mo)
        (zero_components\<lparr>cc_PubSub := zero_pubsub\<lparr>pcf_Enabled := True, pcf_Options := opts\<rparr>\<rparr>)\<rparr>"
| "apply_mesa_option (WithReminder notifier opts) mo =
     mo\<lparr>mo_components := mergeComponents (mo_components mo)
        (zero_components\<lparr>cc_Reminder :=
           zero_reminder\<lparr>rcf_Enabled := True, rcf_Notifier := notifier, rcf_Options := opts\<rparr>\<rparr>)\<rparr>"

definition build_pubsub_options :: "pubsub_config \<Rightarrow> pubsub_option list" where
  "build_pubsub_options cfg =
     (let streamPolicy =
            \<lparr>sp_Prefix = (if pcf_StreamPrefix cfg \<noteq> [] then pcf_StreamPrefix cfg else []),
             sp_MaxLen = (if pcf_StreamMaxLen cfg > 0 then pcf_StreamMaxLen cfg else 0),
             sp_ApproxMaxLen = (case pcf_StreamApproxMaxLen cfg of Some b \<Rightarrow> b | None \<Rightarrow> False),
             sp_Block = (if pcf_StreamBlock cfg > 0 then pcf_StreamBlock cfg else 0),
             sp_ReadCount = (if pcf_StreamReadCount cfg > 0 then pcf_StreamReadCount cfg else 0)\<rparr>;
          hasStreamPolicy =
            (pcf_StreamPrefix cfg \<noteq> [] \<or> pcf_StreamMaxLen cfg > 0 \<or> pcf_StreamApproxMaxLen cfg \<noteq> None
             \<or> pcf_StreamBlock cfg > 0 \<or> pcf_StreamReadCount cfg > 0);
          deadLetterPolicy =
            \<lparr>dp_Enabled = (case pcf_DeadLetterEnabled cfg of Some b \<Rightarrow> b | None \<Rightarrow> False),
             dp_Suffix = (if pcf_DeadLetterSuffix cfg \<noteq> [] then pcf_DeadLetterSuffix cfg else [])\<rparr>;
          hasDeadLetterPolicy = (pcf_DeadLetterEnabled cfg \<noteq> None \<or> pcf_DeadLetterSuffix cfg \<noteq> [])
      in pcf_Options cfg
         @ (if pcf_Name cfg \<noteq> [] then [P_WithName (pcf_Name cfg)] else [])
         @ (if pcf_Logger cfg \<noteq> None then [P_WithLogger (pcf_Logger cfg)] else [])
         @ (case pcf_RetryPolicy cfg of Some p \<Rightarrow> [P_WithRetryPolicy p] | None \<Rightarrow> [])
         @ (if hasStreamPolicy then [P_WithStreamPolicy streamPolicy] else [])
         @ (if hasDeadLetterPolicy then [P_WithDeadLetterPolicy deadLetterPolicy] else []))"

definition build_reminder_options :: "reminder_config \<Rightarrow> reminder_option list" where
  "build_reminder_options cfg =
     rcf_Options cfg
     @ (if rcf_Name cfg \<noteq> [] then [R_WithName (rcf_Name cfg)] else [])
     @ (if rcf_PollInterval cfg > 0 then [R_WithPollInterval (rcf_PollInterval cfg)] else [])
     @ (if rcf_BatchSize cfg > 0 then [R_WithBatchSize (rcf_BatchSize cfg)] else [])
     @ (if rcf_ProcessingTTL cfg > 0 then [R_WithProcessingTTL (rcf_ProcessingTTL cfg)] else [])
     @ (if length (rcf_RetryDelays cfg) > 0 then [R_WithRetryDelays (rcf_RetryDelays cfg)] else [])
     @ (if rcf_Logger cfg \<noteq> None then [R_WithLogger (rcf_Logger cfg)] else [])"

subsection \<open>Merging is associative\<close>

text \<open>
  The two merges share a contract: they are associative and a zero configuration changes
  nothing, so several options in a row act as the one option that carries their merge.
\<close>

locale config_merge =
  fixes merge :: "'c \<Rightarrow> 'c \<Rightarrow> 'c" and zero :: 'c
  assumes merge_assoc: "merge (merge a b) c = merge a (merge b c)"
    and merge_zero [simp]: "merge a zero = a"
begin

lemma fold_merge: "fold (\<lambda>c a. merge a c) cs (merge a b) = merge a (fold (\<lambda>c a. merge a c) cs b)"
  by (induction cs arbitrary: b) (simp_all add: merge_assoc)

lemma fold_merge_append:
  "fold (\<lambda>c a. merge a c) (xs @ ys) a = merge (fold (\<lambda>c a. merge a c) xs a) (fold (\<lambda>c a. merge a c) ys zero)"
  using fold_merge [of ys "fold (\<lambda>c a. merge a c) xs a" zero] by simp

end

lemma merge_pubsub_assoc:
  "mergePubSubComponentConfig (mergePubSubComponentConfig a b) c
   = mergePubSubComponentConfig a (mergePubSubComponentConfig b c)"
  by (rule pubsub_config.equality) (auto simp: mergePubSubComponentConfig_def)

lemma merge_reminder_assoc:
  "mergeReminderComponentConfig (mergeReminderComponentConfig a b) c
   = mergeReminderComponentConfig a (mergeReminderComponentConfig b c)"
  by (rule reminder_config.equality) (auto simp: mergeReminderComponentConfig_def)

lemma merge_pubsub_zero: "mergePubSubComponentConfig a zero_pubsub = a"
  by (rule pubsub_config.equality) (simp_all add: mergePubSubComponentConfig_def zero_pubsub_def)

lemma merge_reminder_zero: "mergeReminderComponentConfig a zero_reminder = a"
  by (rule reminder_config.equality) (simp_all add: mergeReminderComponentConfig_def zero_reminder_def)

interpretation pubsub_merge: config_merge mergePubSubComponentConfig zero_pubsub
  by unfold_locales (rule merge_pubsub_assoc merge_pubsub_zero)+

interpretation reminder_merge: config_merge mergeReminderComponentConfig zero_reminder
  by unfold_locales (rule merge_reminder_assoc merge_reminder_zero)+

interpretation components_merge: config_merge mergeComponents zero_components
  by unfold_locales
    (simp_all add: mergeComponents_def zero_components_def pubsub_merge.merge_assoc reminder_merge.merge_assoc)


subsection \<open>What the options add up to\<close>

text \<open>The component configuration an option carries.\<close>

fun carried :: "mesa_option \<Rightarrow> components_config option" where
  "carried (WithComponents cfg) = Some cfg"
| "carried (WithPubSub opts) =
     Some (zero_components\<lparr>cc_PubSub := zero_pubsub\<lparr>pcf_Enabled := True, pcf_Options := opts\<rparr>\<rparr>)"
| "carried (WithReminder notifier opts) =
     Some (zero_components\<lparr>cc_Reminder :=
       zero_reminder\<lparr>rcf_Enabled := True, rcf_Notifier := notifier, rcf_Options := opts\<rparr>\<rparr>)"
| "carried _ = None"

lemma apply_mesa_components:
  "mo_components (apply_mesa_option p mo) =
     (case carried p of None \<Rightarrow> mo_components mo | Some c \<Rightarrow> mergeComponents (mo_components mo) c)"
  by (cases p) (simp_all add: Let_def)

definition merged :: "components_config list \<Rightarrow> components_config" where
  "merged cs = fold (\<lambda>c a. mergeComponents a c) cs zero_components"

lemma fold_mesa_components:
  "mo_components (fold apply_mesa_option ps mo)
   = fold (\<lambda>c a. mergeComponents a c) (List.map_filter carried ps) (mo_components mo)"
  by (induction ps arbitrary: mo) (simp_all add: apply_mesa_components map_filter_simps split: option.splits)

text \<open>The last value of a field that is set, in a list of configurations.\<close>

definition last_set :: "('c \<Rightarrow> 'v) \<Rightarrow> ('v \<Rightarrow> bool) \<Rightarrow> 'v \<Rightarrow> 'c list \<Rightarrow> 'v" where
  "last_set sel is_set zero cs =
     (case find (\<lambda>c. is_set (sel c)) (rev cs) of None \<Rightarrow> zero | Some c \<Rightarrow> sel c)"

lemma last_set_simps [simp]:
  "last_set sel is_set zero [] = zero"
  "last_set sel is_set zero (cs @ [c]) = (if is_set (sel c) then sel c else last_set sel is_set zero cs)"
  by (simp_all add: last_set_def)

lemma merged_snoc: "merged (xs @ [c]) = mergeComponents (merged xs) c"
  by (simp add: merged_def)

lemma merged_Nil: "merged [] = zero_components"
  by (simp add: merged_def)

lemma merged_pubsub:
  "cc_PubSub (merged xs) =
         \<lparr>pcf_Enabled = (\<exists>c\<in>set xs. pcf_Enabled (cc_PubSub c)),
          pcf_Name = last_set (\<lambda>c. pcf_Name (cc_PubSub c)) (\<lambda>v. v \<noteq> []) [] xs,
          pcf_RetryPolicy = last_set (\<lambda>c. pcf_RetryPolicy (cc_PubSub c)) (\<lambda>v. v \<noteq> None) None xs,
          pcf_StreamPrefix = last_set (\<lambda>c. pcf_StreamPrefix (cc_PubSub c)) (\<lambda>v. v \<noteq> []) [] xs,
          pcf_StreamMaxLen = last_set (\<lambda>c. pcf_StreamMaxLen (cc_PubSub c)) (\<lambda>v. 0 < v) 0 xs,
          pcf_StreamApproxMaxLen = last_set (\<lambda>c. pcf_StreamApproxMaxLen (cc_PubSub c)) (\<lambda>v. v \<noteq> None) None xs,
          pcf_StreamBlock = last_set (\<lambda>c. pcf_StreamBlock (cc_PubSub c)) (\<lambda>v. 0 < v) 0 xs,
          pcf_StreamReadCount = last_set (\<lambda>c. pcf_StreamReadCount (cc_PubSub c)) (\<lambda>v. 0 < v) 0 xs,
          pcf_DeadLetterEnabled = last_set (\<lambda>c. pcf_DeadLetterEnabled (cc_PubSub c)) (\<lambda>v. v \<noteq> None) None xs,
          pcf_DeadLetterSuffix = last_set (\<lambda>c. pcf_DeadLetterSuffix (cc_PubSub c)) (\<lambda>v. v \<noteq> []) [] xs,
          pcf_Logger = last_set (\<lambda>c. pcf_Logger (cc_PubSub c)) (\<lambda>v. v \<noteq> None) None xs,
          pcf_Options = last_set (\<lambda>c. pcf_Options (cc_PubSub c)) (\<lambda>v. v \<noteq> []) [] xs\<rparr>"
proof (induction xs rule: rev_induct)
  case Nil
  show ?case by (simp add: merged_Nil zero_components_def zero_pubsub_def)
next
  case (snoc c xs)
  show ?case
    unfolding merged_snoc mergeComponents_def components_config.simps snoc.IH mergePubSubComponentConfig_def
      pubsub_config.simps last_set_simps
    by simp
qed

lemma merged_reminder:
  "cc_Reminder (merged xs) =
         \<lparr>rcf_Enabled = (\<exists>c\<in>set xs. rcf_Enabled (cc_Reminder c)),
          rcf_Notifier = last_set (\<lambda>c. rcf_Notifier (cc_Reminder c)) (\<lambda>v. v \<noteq> None) None xs,
          rcf_Name = last_set (\<lambda>c. rcf_Name (cc_Reminder c)) (\<lambda>v. v \<noteq> []) [] xs,
          rcf_PollInterval = last_set (\<lambda>c. rcf_PollInterval (cc_Reminder c)) (\<lambda>v. 0 < v) 0 xs,
          rcf_BatchSize = last_set (\<lambda>c. rcf_BatchSize (cc_Reminder c)) (\<lambda>v. 0 < v) 0 xs,
          rcf_ProcessingTTL = last_set (\<lambda>c. rcf_ProcessingTTL (cc_Reminder c)) (\<lambda>v. 0 < v) 0 xs,
          rcf_RetryDelays = last_set (\<lambda>c. rcf_RetryDelays (cc_Reminder c)) (\<lambda>v. v \<noteq> []) [] xs,
          rcf_Logger = last_set (\<lambda>c. rcf_Logger (cc_Reminder c)) (\<lambda>v. v \<noteq> None) None xs,
          rcf_Options = last_set (\<lambda>c. rcf_Options (cc_Reminder c)) (\<lambda>v. v \<noteq> []) [] xs\<rparr>"
proof (induction xs rule: rev_induct)
  case Nil
  show ?case by (simp add: merged_Nil zero_components_def zero_reminder_def)
next
  case (snoc c xs)
  show ?case
    unfolding merged_snoc mergeComponents_def components_config.simps snoc.IH mergeReminderComponentConfig_def
      reminder_config.simps last_set_simps
    by simp
qed

text \<open>
  C31: component options accumulate.  Whatever other options are between them, the options of
  a list act on the components as the one \<open>WithComponents\<close> that carries their merge, so
  splitting a list of options, or merging configurations before passing them, changes nothing.
  In the merge of a list of configurations a component is enabled as soon as one of them
  enables it, and every other field of both components has the last value that is set in
  the list: not empty, not nil, or positive for a number; a list of options replaces an earlier one.
\<close>

theorem component_options_accumulate:
  "mo_components (fold apply_mesa_option ps mo)
     = mergeComponents (mo_components mo) (merged (List.map_filter carried ps))
   \<and> merged (xs @ ys) = mergeComponents (merged xs) (merged ys)
   \<and> cc_PubSub (merged xs) =
         \<lparr>pcf_Enabled = (\<exists>c\<in>set xs. pcf_Enabled (cc_PubSub c)),
          pcf_Name = last_set (\<lambda>c. pcf_Name (cc_PubSub c)) (\<lambda>v. v \<noteq> []) [] xs,
          pcf_RetryPolicy = last_set (\<lambda>c. pcf_RetryPolicy (cc_PubSub c)) (\<lambda>v. v \<noteq> None) None xs,
          pcf_StreamPrefix = last_set (\<lambda>c. pcf_StreamPrefix (cc_PubSub c)) (\<lambda>v. v \<noteq> []) [] xs,
          pcf_StreamMaxLen = last_set (\<lambda>c. pcf_StreamMaxLen (cc_PubSub c)) (\<lambda>v. 0 < v) 0 xs,
          pcf_StreamApproxMaxLen = last_set (\<lambda>c. pcf_StreamApproxMaxLen (cc_PubSub c)) (\<lambda>v. v \<noteq> None) None xs,
          pcf_StreamBlock = last_set (\<lambda>c. pcf_StreamBlock (cc_PubSub c)) (\<lambda>v. 0 < v) 0 xs,
          pcf_StreamReadCount = last_set (\<lambda>c. pcf_StreamReadCount (cc_PubSub c)) (\<lambda>v. 0 < v) 0 xs,
          pcf_DeadLetterEnabled = last_set (\<lambda>c. pcf_DeadLetterEnabled (cc_PubSub c)) (\<lambda>v. v \<noteq> None) None xs,
          pcf_DeadLetterSuffix = last_set (\<lambda>c. pcf_DeadLetterSuffix (cc_PubSub c)) (\<lambda>v. v \<noteq> []) [] xs,
          pcf_Logger = last_set (\<lambda>c. pcf_Logger (cc_PubSub c)) (\<lambda>v. v \<noteq> None) None xs,
          pcf_Options = last_set (\<lambda>c. pcf_Options (cc_PubSub c)) (\<lambda>v. v \<noteq> []) [] xs\<rparr>
   \<and> cc_Reminder (merged xs) =
         \<lparr>rcf_Enabled = (\<exists>c\<in>set xs. rcf_Enabled (cc_Reminder c)),
          rcf_Notifier = last_set (\<lambda>c. rcf_Notifier (cc_Reminder c)) (\<lambda>v. v \<noteq> None) None xs,
          rcf_Name = last_set (\<lambda>c. rcf_Name (cc_Reminder c)) (\<lambda>v. v \<noteq> []) [] xs,
          rcf_PollInterval = last_set (\<lambda>c. rcf_PollInterval (cc_Reminder c)) (\<lambda>v. 0 < v) 0 xs,
          rcf_BatchSize = last_set (\<lambda>c. rcf_BatchSize (cc_Reminder c)) (\<lambda>v. 0 < v) 0 xs,
          rcf_ProcessingTTL = last_set (\<lambda>c. rcf_ProcessingTTL (cc_Reminder c)) (\<lambda>v. 0 < v) 0 xs,
          rcf_RetryDelays = last_set (\<lambda>c. rcf_RetryDelays (cc_Reminder c)) (\<lambda>v. v \<noteq> []) [] xs,
          rcf_Logger = last_set (\<lambda>c. rcf_Logger (cc_Reminder c)) (\<lambda>v. v \<noteq> None) None xs,
          rcf_Options = last_set (\<lambda>c. rcf_Options (cc_Reminder c)) (\<lambda>v. v \<noteq> []) [] xs\<rparr>"
proof -
  from components_merge.fold_merge [of "List.map_filter carried ps" "mo_components mo" zero_components]
    components_merge.fold_merge_append [of xs ys zero_components]
  have "mo_components (fold apply_mesa_option ps mo)
      = mergeComponents (mo_components mo) (merged (List.map_filter carried ps))"
    "merged (xs @ ys) = mergeComponents (merged xs) (merged ys)"
    by (simp_all add: fold_mesa_components merged_def)
  then show ?thesis by (intro conjI merged_pubsub merged_reminder)
qed

subsection \<open>What a component configuration amounts to\<close>

text \<open>
  The settings a pub/sub configuration without further options leads to: a field that is
  set overrides the default and the other fields keep it, but for two booleans: a suffix for
  dead letters given without \<open>DeadLetterEnabled\<close> switches dead-lettering off, and any stream
  setting given without \<open>StreamApproxMaxLen\<close> switches approximate trimming off.
\<close>

theorem pubsub_config_effective:
  assumes "pcf_Options cfg = []"
  shows "fold apply_pubsub_option (build_pubsub_options cfg) pubsub_defaultOptions =
    pubsub_defaultOptions
    \<lparr>po_name := (if TrimSpace (pcf_Name cfg) \<noteq> [] then TrimSpace (pcf_Name cfg) else po_name pubsub_defaultOptions),
     po_logger := pcf_Logger cfg,
     po_retry := (case pcf_RetryPolicy cfg of None \<Rightarrow> po_retry pubsub_defaultOptions
                  | Some p \<Rightarrow> merge_retry p (po_retry pubsub_defaultOptions)),
     po_stream :=
       \<lparr>sp_Prefix = (if TrimSpace (pcf_StreamPrefix cfg) \<noteq> [] then TrimSpace (pcf_StreamPrefix cfg)
                     else sp_Prefix (po_stream pubsub_defaultOptions)),
        sp_MaxLen = (if 0 < pcf_StreamMaxLen cfg then pcf_StreamMaxLen cfg
                     else sp_MaxLen (po_stream pubsub_defaultOptions)),
        sp_ApproxMaxLen =
          (case pcf_StreamApproxMaxLen cfg of
             Some b \<Rightarrow> b
           | None \<Rightarrow> pcf_StreamPrefix cfg = [] \<and> pcf_StreamMaxLen cfg \<le> 0 \<and> pcf_StreamBlock cfg \<le> 0
                     \<and> pcf_StreamReadCount cfg \<le> 0),
        sp_Block = (if 0 < pcf_StreamBlock cfg then pcf_StreamBlock cfg
                    else sp_Block (po_stream pubsub_defaultOptions)),
        sp_ReadCount = (if 0 < pcf_StreamReadCount cfg then pcf_StreamReadCount cfg
                        else sp_ReadCount (po_stream pubsub_defaultOptions))\<rparr>,
     po_dlq :=
       \<lparr>dp_Enabled = (case pcf_DeadLetterEnabled cfg of Some b \<Rightarrow> b | None \<Rightarrow> pcf_DeadLetterSuffix cfg = []),
        dp_Suffix = (if pcf_DeadLetterSuffix cfg \<noteq> [] then pcf_DeadLetterSuffix cfg
                     else dp_Suffix (po_dlq pubsub_defaultOptions))\<rparr>\<rparr>"
proof -
  let ?d = pubsub_defaultOptions
  have nil: "TrimSpace [] = []" by simp
  let ?nm = "if pcf_Name cfg \<noteq> [] then [P_WithName (pcf_Name cfg)] else []"
  let ?lg = "if pcf_Logger cfg \<noteq> None then [P_WithLogger (pcf_Logger cfg)] else []"
  let ?rt = "case pcf_RetryPolicy cfg of Some p \<Rightarrow> [P_WithRetryPolicy p] | None \<Rightarrow> []"
  have nm: "fold apply_pubsub_option ?nm po =
      po\<lparr>po_name := (if TrimSpace (pcf_Name cfg) \<noteq> [] then TrimSpace (pcf_Name cfg) else po_name po)\<rparr>" for po
    by (simp add: nil)
  have lg: "fold apply_pubsub_option ?lg po =
      po\<lparr>po_logger := (if pcf_Logger cfg \<noteq> None then pcf_Logger cfg else po_logger po)\<rparr>" for po
    by simp
  have rt: "fold apply_pubsub_option ?rt po =
      po\<lparr>po_retry := (case pcf_RetryPolicy cfg of None \<Rightarrow> po_retry po | Some p \<Rightarrow> merge_retry p (po_retry po))\<rparr>" for po
    by (simp split: option.splits)
  have st: "fold apply_pubsub_option (if b then [P_WithStreamPolicy sp] else []) po =
      po\<lparr>po_stream := (if b then merge_stream sp (po_stream po) else po_stream po)\<rparr>" for b sp po
    by simp
  have dl: "fold apply_pubsub_option (if b then [P_WithDeadLetterPolicy dp] else []) po =
      po\<lparr>po_dlq := (if b then \<lparr>dp_Enabled = dp_Enabled dp,
         dp_Suffix = (if dp_Suffix dp \<noteq> [] then dp_Suffix dp else dp_Suffix (po_dlq po))\<rparr> else po_dlq po)\<rparr>" for b dp po
    by simp
  show ?thesis
    unfolding build_pubsub_options_def Let_def assms fold_append comp_apply append_Nil nm lg rt st dl
    by (rule pubsub_options.equality)
      (simp_all add: merge_stream_def nil pubsub_defaultOptions_def split: option.splits)
qed

text \<open>A configuration that only renames the dead-letter stream has no dead letters.\<close>

lemma pubsub_config_effective_witness:
  "dp_Enabled (po_dlq (fold apply_pubsub_option
     (build_pubsub_options (zero_pubsub\<lparr>pcf_Enabled := True, pcf_DeadLetterSuffix := '':dead''\<rparr>)) pubsub_defaultOptions))
   = False"
  using pubsub_config_effective [of "zero_pubsub\<lparr>pcf_Enabled := True, pcf_DeadLetterSuffix := '':dead''\<rparr>"]
  by (simp add: zero_pubsub_def)

end
