(* ===== verification/MesaValidate.thy ===== *)
theory MesaValidate
  imports MesaConfig
begin

text \<open>
  config.go of package \<open>wego\<close>: \<open>Config\<close>, its validation and the options it becomes.  A
  \<open>Profile\<close> is its name.  The five timeouts are ranged over as a map, in an order
  \<open>ord\<close> that is a parameter; \<open>hostport\<close> says which addresses \<open>net.SplitHostPort\<close> accepts.
\<close>

subsection \<open>Configuration\<close>

record mesa_config =
  cf_Profile :: string
  cf_LogLevel :: string
  cf_Telemetry :: telemetry_config
  cf_HTTP :: http_config
  cf_PostgresDSN :: string
  cf_Redis :: redis_config
  cf_Etcd :: etcd_config
  cf_Components :: components_config

subsection \<open>Validation\<close>

text \<open>A check of \<open>Validate\<close>: \<open>invalid\<close> joins a \<open>ConfigError\<close> to the result.\<close>

definition invalid_if :: "bool \<Rightarrow> string \<Rightarrow> string \<Rightarrow> error option \<Rightarrow> error option" where
  "invalid_if b fld message result =
     (if b then errors_Join result (Some (ConfigErr fld message)) else result)"

definition timeouts :: "http_config \<Rightarrow> (string \<rightharpoonup> duration)" where
  "timeouts h =
     [''http.read_header_timeout'' \<mapsto> hc_ReadHeaderTimeout h, ''http.read_timeout'' \<mapsto> hc_ReadTimeout h,
      ''http.write_timeout'' \<mapsto> hc_WriteTimeout h, ''http.idle_timeout'' \<mapsto> hc_IdleTimeout h,
      ''http.request_timeout'' \<mapsto> hc_RequestTimeout h]"

fun check_timeouts :: "http_config \<Rightarrow> string list \<Rightarrow> error option \<Rightarrow> error option" where
  "check_timeouts h [] result = result"
| "check_timeouts h (fld # flds) result =
     check_timeouts h flds
       (invalid_if (case timeouts h fld of Some value \<Rightarrow> value < 0 | None \<Rightarrow> False)
          fld ''must not be negative'' result)"

definition endpoint_field :: "nat \<Rightarrow> string" where
  "endpoint_field i = ''etcd.endpoints['' @ Itoa (int i) @ '']''"

fun check_endpoints :: "nat \<Rightarrow> string list \<Rightarrow> error option \<Rightarrow> error option" where
  "check_endpoints i [] result = result"
| "check_endpoints i (endpoint # endpoints) result =
     check_endpoints (Suc i) endpoints
       (invalid_if (TrimSpace endpoint = []) (endpoint_field i) ''must not be empty'' result)"

definition Validate :: "(string \<Rightarrow> bool) \<Rightarrow> string list \<Rightarrow> mesa_config \<Rightarrow> error option" where
  "Validate hostport ord c =
     (let h = cf_HTTP c; t = cf_Telemetry c; rd = cf_Redis c; e = cf_Etcd c;
          ps = cc_PubSub (cf_Components c); rm = cc_Reminder (cf_Components c);
          r1 = invalid_if (hc_Port h < 0 \<or> hc_Port h > 65535)
                 ''http.port'' ''must be between 0 and 65535'' None;
          r2 = invalid_if (ratio_bad (tc_TraceSampleRatio t))
                 ''telemetry.trace_sample_ratio'' ''must be between 0 and 1'' r1;
          r3 = (if tc_Enabled t
                then invalid_if (TrimSpace (tc_OTLPEndpoint t) = [])
                       ''telemetry.otlp_endpoint'' ''is required when telemetry is enabled''
                       (invalid_if (TrimSpace (tc_ServiceName t) = [] \<and> TrimSpace (cf_Profile c) = [])
                          ''telemetry.service_name'' ''is required when telemetry is enabled'' r2)
                else r2);
          r4 = check_timeouts h ord r3;
          r5 = invalid_if (hc_MaxHeaderBytes h < 0) ''http.max_header_bytes'' ''must not be negative'' r4;
          r6 = invalid_if (hc_MaxBodyBytes h < 0) ''http.max_body_bytes'' ''must not be negative'' r5;
          r7 = (if rc_Addr rd \<noteq> []
                then invalid_if (rc_DB rd < 0) ''redis.db'' ''must not be negative''
                       (invalid_if (\<not> hostport (rc_Addr rd)) ''redis.addr'' ''must use host:port format'' r6)
                else r6);
          r8 = check_endpoints 0 (ec_Endpoints e) r7;
          r9 = invalid_if ((ec_Username e = []) \<noteq> (ec_Password e = []))
                 ''etcd.auth'' ''username and password must be configured together'' r8;
          r10 = invalid_if (pcf_Enabled ps \<and> rc_Addr rd = []) ''components.pubsub'' ''requires redis.addr'' r9;
          r11 = invalid_if (rcf_Enabled rm \<and> TrimSpace (cf_PostgresDSN c) = [])
                  ''components.reminder'' ''requires postgres_dsn'' r10
      in invalid_if (rcf_Enabled rm \<and> rcf_Notifier rm = None)
           ''components.reminder.notifier'' ''is required'' r11)"

definition config_Options ::
  "(string \<Rightarrow> bool) \<Rightarrow> string list \<Rightarrow> mesa_config \<Rightarrow> error + mesa_option list" where
  "config_Options hostport ord c =
     (case Validate hostport ord c of
        Some err \<Rightarrow> Inl err
      | None \<Rightarrow>
          (let t = (if TrimSpace (tc_ServiceName (cf_Telemetry c)) = []
                    then (cf_Telemetry c)\<lparr>tc_ServiceName := TrimSpace (cf_Profile c)\<rparr>
                    else cf_Telemetry c)
           in Inr [WithProfile (cf_Profile c), WithLogLevel (ParseLevel (cf_LogLevel c)), WithTelemetry t,
                   WithHTTPConfig (cf_HTTP c), WithDSN (cf_PostgresDSN c), WithRedisConfig (cf_Redis c),
                   WithEtcdConfig (cf_Etcd c), WithComponents (cf_Components c)]))"

subsection \<open>What is reported\<close>

text \<open>The fields of the \<open>ConfigError\<close>s in the tree of an error, in order.\<close>

fun config_fields :: "error \<Rightarrow> string list" and config_fieldss :: "error list \<Rightarrow> string list" where
  "config_fields (Errs s) = []"
| "config_fields (Wrap pre e post) = config_fields e"
| "config_fields (Join es) = config_fieldss es"
| "config_fields (PgError c s) = []"
| "config_fields (ConfigErr f m) = [f]"
| "config_fieldss [] = []"
| "config_fieldss (e # es) = config_fields e @ config_fieldss es"

definition fields_of :: "error option \<Rightarrow> string list" where
  "fields_of r = (case r of None \<Rightarrow> [] | Some e \<Rightarrow> config_fields e)"

lemma fields_of_None [simp]: "fields_of None = []"
  by (simp add: fields_of_def)

lemma fields_invalid_if: "fields_of (invalid_if b f m r) = fields_of r @ (if b then [f] else [])"
  by (cases r) (simp_all add: invalid_if_def fields_of_def)

lemma fields_guarded_one:
  "fields_of (if b then invalid_if c f m r else r) = fields_of r @ (if b \<and> c then [f] else [])"
  by (simp add: fields_invalid_if)

lemma fields_guarded_two:
  "fields_of (if b then invalid_if c' f' m' (invalid_if c f m r) else r)
   = fields_of r @ (if b \<and> c then [f] else []) @ (if b \<and> c' then [f'] else [])"
  by (simp add: fields_invalid_if)

text \<open>The result is nil exactly when nothing is reported.\<close>

definition clean :: "error option \<Rightarrow> bool" where
  "clean r \<longleftrightarrow> (r = None \<longleftrightarrow> fields_of r = [])"

lemma clean_None [simp]: "clean None"
  by (simp add: clean_def)

lemma clean_invalid_if [simp]: "clean r \<Longrightarrow> clean (invalid_if b f m r)"
  by (cases r) (auto simp: clean_def invalid_if_def fields_of_def)

definition bad_timeout :: "http_config \<Rightarrow> string \<Rightarrow> bool" where
  "bad_timeout h f \<longleftrightarrow> (case timeouts h f of Some v \<Rightarrow> v < 0 | None \<Rightarrow> False)"

lemma fields_check_timeouts: "fields_of (check_timeouts h fs r) = fields_of r @ filter (bad_timeout h) fs"
  by (induction fs arbitrary: r) (simp_all add: fields_invalid_if bad_timeout_def)

lemma clean_check_timeouts [simp]: "clean r \<Longrightarrow> clean (check_timeouts h fs r)"
  by (induction fs arbitrary: r) simp_all

definition blank_endpoints :: "nat \<Rightarrow> string list \<Rightarrow> string list" where
  "blank_endpoints i es = map (\<lambda>(k, _). endpoint_field k) (filter (\<lambda>(_, e). TrimSpace e = []) (enumerate i es))"

lemma fields_check_endpoints: "fields_of (check_endpoints i es r) = fields_of r @ blank_endpoints i es"
  by (induction es arbitrary: i r) (simp_all add: fields_invalid_if blank_endpoints_def)

lemma clean_check_endpoints [simp]: "clean r \<Longrightarrow> clean (check_endpoints i es r)"
  by (induction es arbitrary: i r) simp_all

lemma Validate_clean: "clean (Validate hostport ord c)"
  by (simp add: Validate_def Let_def)

lemma fields_Validate:
  "fields_of (Validate hostport ord c) =
     (if hc_Port (cf_HTTP c) < 0 \<or> hc_Port (cf_HTTP c) > 65535 then [''http.port''] else [])
     @ (if ratio_bad (tc_TraceSampleRatio (cf_Telemetry c)) then [''telemetry.trace_sample_ratio''] else [])
     @ (if tc_Enabled (cf_Telemetry c) \<and> TrimSpace (tc_ServiceName (cf_Telemetry c)) = [] \<and> TrimSpace (cf_Profile c) = []
        then [''telemetry.service_name''] else [])
     @ (if tc_Enabled (cf_Telemetry c) \<and> TrimSpace (tc_OTLPEndpoint (cf_Telemetry c)) = []
        then [''telemetry.otlp_endpoint''] else [])
     @ filter (bad_timeout (cf_HTTP c)) ord
     @ (if hc_MaxHeaderBytes (cf_HTTP c) < 0 then [''http.max_header_bytes''] else [])
     @ (if hc_MaxBodyBytes (cf_HTTP c) < 0 then [''http.max_body_bytes''] else [])
     @ (if rc_Addr (cf_Redis c) \<noteq> [] \<and> \<not> hostport (rc_Addr (cf_Redis c)) then [''redis.addr''] else [])
     @ (if rc_Addr (cf_Redis c) \<noteq> [] \<and> rc_DB (cf_Redis c) < 0 then [''redis.db''] else [])
     @ blank_endpoints 0 (ec_Endpoints (cf_Etcd c))
     @ (if (ec_Username (cf_Etcd c) = []) \<noteq> (ec_Password (cf_Etcd c) = []) then [''etcd.auth''] else [])
     @ (if pcf_Enabled (cc_PubSub (cf_Components c)) \<and> rc_Addr (cf_Redis c) = [] then [''components.pubsub''] else [])
     @ (if rcf_Enabled (cc_Reminder (cf_Components c)) \<and> TrimSpace (cf_PostgresDSN c) = []
        then [''components.reminder''] else [])
     @ (if rcf_Enabled (cc_Reminder (cf_Components c)) \<and> rcf_Notifier (cc_Reminder (cf_Components c)) = None
        then [''components.reminder.notifier''] else [])"
  unfolding Validate_def Let_def
  by (simp only: fields_guarded_two fields_guarded_one fields_invalid_if fields_check_timeouts fields_check_endpoints
      fields_of_None append_assoc append_Nil conj_assoc)


subsection \<open>Exactness of validation\<close>

text \<open>When a field of a configuration is at fault.\<close>

definition at_fault :: "(string \<Rightarrow> bool) \<Rightarrow> mesa_config \<Rightarrow> string \<Rightarrow> bool" where
  "at_fault hostport c f \<longleftrightarrow>
     (f = ''http.port'' \<and> hc_Port (cf_HTTP c) \<notin> {0..65535})
   \<or> (f = ''telemetry.trace_sample_ratio'' \<and> ratio_bad (tc_TraceSampleRatio (cf_Telemetry c)))
   \<or> (f = ''telemetry.service_name'' \<and> tc_Enabled (cf_Telemetry c)
        \<and> TrimSpace (tc_ServiceName (cf_Telemetry c)) = [] \<and> TrimSpace (cf_Profile c) = [])
   \<or> (f = ''telemetry.otlp_endpoint'' \<and> tc_Enabled (cf_Telemetry c)
        \<and> TrimSpace (tc_OTLPEndpoint (cf_Telemetry c)) = [])
   \<or> (f = ''http.read_header_timeout'' \<and> hc_ReadHeaderTimeout (cf_HTTP c) < 0)
   \<or> (f = ''http.read_timeout'' \<and> hc_ReadTimeout (cf_HTTP c) < 0)
   \<or> (f = ''http.write_timeout'' \<and> hc_WriteTimeout (cf_HTTP c) < 0)
   \<or> (f = ''http.idle_timeout'' \<and> hc_IdleTimeout (cf_HTTP c) < 0)
   \<or> (f = ''http.request_timeout'' \<and> hc_RequestTimeout (cf_HTTP c) < 0)
   \<or> (f = ''http.max_header_bytes'' \<and> hc_MaxHeaderBytes (cf_HTTP c) < 0)
   \<or> (f = ''http.max_body_bytes'' \<and> hc_MaxBodyBytes (cf_HTTP c) < 0)
   \<or> (f = ''redis.addr'' \<and> rc_Addr (cf_Redis c) \<noteq> [] \<and> \<not> hostport (rc_Addr (cf_Redis c)))
   \<or> (f = ''redis.db'' \<and> rc_Addr (cf_Redis c) \<noteq> [] \<and> rc_DB (cf_Redis c) < 0)
   \<or> (\<exists>i<length (ec_Endpoints (cf_Etcd c)).
        f = endpoint_field i \<and> TrimSpace (ec_Endpoints (cf_Etcd c) ! i) = [])
   \<or> (f = ''etcd.auth'' \<and> (ec_Username (cf_Etcd c) = []) \<noteq> (ec_Password (cf_Etcd c) = []))
   \<or> (f = ''components.pubsub'' \<and> pcf_Enabled (cc_PubSub (cf_Components c)) \<and> rc_Addr (cf_Redis c) = [])
   \<or> (f = ''components.reminder'' \<and> rcf_Enabled (cc_Reminder (cf_Components c))
        \<and> TrimSpace (cf_PostgresDSN c) = [])
   \<or> (f = ''components.reminder.notifier'' \<and> rcf_Enabled (cc_Reminder (cf_Components c))
        \<and> rcf_Notifier (cc_Reminder (cf_Components c)) = None)"

lemma endpoint_field_inj: "endpoint_field i = endpoint_field j \<longleftrightarrow> i = j"
proof
  assume "endpoint_field i = endpoint_field j"
  then have "Itoa (int i) = Itoa (int j)"
    unfolding endpoint_field_def by (simp only: same_append_eq append_same_eq)
  then have "digits i = digits j" unfolding Itoa_def by (simp only: of_nat_less_0_iff if_False nat_int)
  with parse_digits_digits [of i] parse_digits_digits [of j] show "i = j" by (metis option.inject)
qed simp

lemma endpoint_field_prefix: "take 15 (endpoint_field i) = ''etcd.endpoints[''"
  by (simp add: endpoint_field_def)

lemma endpoint_field_other: "take 15 f \<noteq> ''etcd.endpoints['' \<Longrightarrow> f \<noteq> endpoint_field i"
  using endpoint_field_prefix by metis

lemma set_blank_endpoints:
  "f \<in> set (blank_endpoints 0 es) \<longleftrightarrow> (\<exists>i<length es. f = endpoint_field i \<and> TrimSpace (es ! i) = [])"
proof -
  have "f \<in> set (blank_endpoints 0 es) \<longleftrightarrow>
      (\<exists>p\<in>set (enumerate 0 es). TrimSpace (snd p) = [] \<and> f = endpoint_field (fst p))"
    unfolding blank_endpoints_def case_prod_unfold set_map set_filter image_iff by blast
  also have "\<dots> \<longleftrightarrow> (\<exists>i<length es. f = endpoint_field i \<and> TrimSpace (es ! i) = [])"
    by (auto simp: in_set_enumerate_eq Bex_def)
  finally show ?thesis .
qed

lemma distinct_blank_endpoints: "distinct (blank_endpoints 0 es)"
proof -
  have "distinct (map fst (enumerate 0 es))" by simp
  then have "distinct (map fst (filter (\<lambda>(_, e). TrimSpace e = []) (enumerate 0 es)))"
    by (rule distinct_map_filter)
  then have "distinct (map endpoint_field (map fst (filter (\<lambda>(_, e). TrimSpace e = []) (enumerate 0 es))))"
    by (subst distinct_map) (simp add: inj_on_def endpoint_field_inj)
  then show ?thesis by (simp add: blank_endpoints_def case_prod_unfold comp_def)
qed

lemma dom_timeouts:
  "dom (timeouts h) = {''http.read_header_timeout'', ''http.read_timeout'', ''http.write_timeout'',
     ''http.idle_timeout'', ''http.request_timeout''}"
  by (simp add: timeouts_def insert_commute)

lemma bad_timeout_iff:
  "f \<in> dom (timeouts h) \<and> bad_timeout h f \<longleftrightarrow>
     (f = ''http.read_header_timeout'' \<and> hc_ReadHeaderTimeout h < 0)
   \<or> (f = ''http.read_timeout'' \<and> hc_ReadTimeout h < 0)
   \<or> (f = ''http.write_timeout'' \<and> hc_WriteTimeout h < 0)
   \<or> (f = ''http.idle_timeout'' \<and> hc_IdleTimeout h < 0)
   \<or> (f = ''http.request_timeout'' \<and> hc_RequestTimeout h < 0)"
proof (cases "f \<in> dom (timeouts h)")
  case True
  then show ?thesis unfolding dom_timeouts
    by (elim insertE emptyE) (simp_all add: bad_timeout_def timeouts_def)
next
  case False
  then show ?thesis by (auto simp: dom_timeouts)
qed

lemma fields_at_fault:
  assumes "set ord = dom (timeouts (cf_HTTP c))"
  shows "f \<in> set (fields_of (Validate hostport ord c)) \<longleftrightarrow> at_fault hostport c f"
proof -
  have one: "f \<in> set (if b then [g] else []) \<longleftrightarrow> f = g \<and> b" for b and g :: string by simp
  have "f \<in> set (filter (bad_timeout (cf_HTTP c)) ord) \<longleftrightarrow> f \<in> dom (timeouts (cf_HTTP c)) \<and> bad_timeout (cf_HTTP c) f"
    using assms by auto
  moreover have "hc_Port (cf_HTTP c) < 0 \<or> hc_Port (cf_HTTP c) > 65535 \<longleftrightarrow> hc_Port (cf_HTTP c) \<notin> {0..65535}" by auto
  ultimately show ?thesis
    unfolding fields_Validate at_fault_def set_append Un_iff one bad_timeout_iff set_blank_endpoints by argo
qed


text \<open>The fields in the order in which they are checked, for a configuration of \<open>n\<close> endpoints.\<close>

definition checked_fields :: "string list \<Rightarrow> nat \<Rightarrow> string list" where
  "checked_fields ord n =
     [''http.port'', ''telemetry.trace_sample_ratio'', ''telemetry.service_name'', ''telemetry.otlp_endpoint'']
     @ ord @ [''http.max_header_bytes'', ''http.max_body_bytes'', ''redis.addr'', ''redis.db'']
     @ map endpoint_field [0..<n]
     @ [''etcd.auth'', ''components.pubsub'', ''components.reminder'', ''components.reminder.notifier'']"

lemma not_endpoint_field [simp]:
  "''http.port'' \<noteq> endpoint_field i" "''telemetry.trace_sample_ratio'' \<noteq> endpoint_field i"
  "''telemetry.service_name'' \<noteq> endpoint_field i" "''telemetry.otlp_endpoint'' \<noteq> endpoint_field i"
  "''http.read_header_timeout'' \<noteq> endpoint_field i" "''http.read_timeout'' \<noteq> endpoint_field i"
  "''http.write_timeout'' \<noteq> endpoint_field i" "''http.idle_timeout'' \<noteq> endpoint_field i"
  "''http.request_timeout'' \<noteq> endpoint_field i" "''http.max_header_bytes'' \<noteq> endpoint_field i"
  "''http.max_body_bytes'' \<noteq> endpoint_field i" "''redis.addr'' \<noteq> endpoint_field i"
  "''redis.db'' \<noteq> endpoint_field i" "''etcd.auth'' \<noteq> endpoint_field i"
  "''components.pubsub'' \<noteq> endpoint_field i" "''components.reminder'' \<noteq> endpoint_field i"
  "''components.reminder.notifier'' \<noteq> endpoint_field i"
  by (rule endpoint_field_other; simp)+

lemmas endpoint_field_not = not_endpoint_field [THEN not_sym]

declare endpoint_field_not [simp]

lemma at_fault_literals:
  "at_fault hostport c ''http.port'' \<longleftrightarrow> hc_Port (cf_HTTP c) < 0 \<or> hc_Port (cf_HTTP c) > 65535"
  "at_fault hostport c ''telemetry.trace_sample_ratio'' \<longleftrightarrow> ratio_bad (tc_TraceSampleRatio (cf_Telemetry c))"
  "at_fault hostport c ''telemetry.service_name'' \<longleftrightarrow> tc_Enabled (cf_Telemetry c)
     \<and> TrimSpace (tc_ServiceName (cf_Telemetry c)) = [] \<and> TrimSpace (cf_Profile c) = []"
  "at_fault hostport c ''telemetry.otlp_endpoint'' \<longleftrightarrow> tc_Enabled (cf_Telemetry c)
     \<and> TrimSpace (tc_OTLPEndpoint (cf_Telemetry c)) = []"
  "at_fault hostport c ''http.max_header_bytes'' \<longleftrightarrow> hc_MaxHeaderBytes (cf_HTTP c) < 0"
  "at_fault hostport c ''http.max_body_bytes'' \<longleftrightarrow> hc_MaxBodyBytes (cf_HTTP c) < 0"
  "at_fault hostport c ''redis.addr'' \<longleftrightarrow> rc_Addr (cf_Redis c) \<noteq> [] \<and> \<not> hostport (rc_Addr (cf_Redis c))"
  "at_fault hostport c ''redis.db'' \<longleftrightarrow> rc_Addr (cf_Redis c) \<noteq> [] \<and> rc_DB (cf_Redis c) < 0"
  "at_fault hostport c ''etcd.auth'' \<longleftrightarrow> (ec_Username (cf_Etcd c) = []) \<noteq> (ec_Password (cf_Etcd c) = [])"
  "at_fault hostport c ''components.pubsub'' \<longleftrightarrow>
     pcf_Enabled (cc_PubSub (cf_Components c)) \<and> rc_Addr (cf_Redis c) = []"
  "at_fault hostport c ''components.reminder'' \<longleftrightarrow>
     rcf_Enabled (cc_Reminder (cf_Components c)) \<and> TrimSpace (cf_PostgresDSN c) = []"
  "at_fault hostport c ''components.reminder.notifier'' \<longleftrightarrow>
     rcf_Enabled (cc_Reminder (cf_Components c)) \<and> rcf_Notifier (cc_Reminder (cf_Components c)) = None"
  by (simp_all add: at_fault_def) auto

lemma at_fault_timeout:
  "f \<in> dom (timeouts (cf_HTTP c)) \<Longrightarrow> at_fault hostport c f \<longleftrightarrow> bad_timeout (cf_HTTP c) f"
  unfolding dom_timeouts
  by (elim insertE emptyE) (simp_all add: at_fault_def bad_timeout_def timeouts_def)

lemma at_fault_endpoint:
  "at_fault hostport c (endpoint_field i) \<longleftrightarrow>
     i < length (ec_Endpoints (cf_Etcd c)) \<and> TrimSpace (ec_Endpoints (cf_Etcd c) ! i) = []"
  by (simp add: at_fault_def endpoint_field_inj)

lemma blank_endpoints_filter:
  "blank_endpoints 0 (ec_Endpoints (cf_Etcd c))
   = filter (at_fault hostport c) (map endpoint_field [0..<length (ec_Endpoints (cf_Etcd c))])"
proof -
  let ?es = "ec_Endpoints (cf_Etcd c)"
  have "blank_endpoints 0 ?es = map endpoint_field (map fst (filter (\<lambda>p. TrimSpace (snd p) = []) (zip [0..<length ?es] ?es)))"
    by (simp add: blank_endpoints_def enumerate_eq_zip case_prod_unfold)
  also have "filter (\<lambda>p. TrimSpace (snd p) = []) (zip [0..<length ?es] ?es)
      = filter ((\<lambda>i. TrimSpace (?es ! i) = []) \<circ> fst) (zip [0..<length ?es] ?es)"
    by (rule filter_cong) (auto simp: set_zip)
  also have "map fst \<dots> = filter (\<lambda>i. TrimSpace (?es ! i) = []) [0..<length ?es]"
    by (simp flip: filter_map)
  also have "map endpoint_field \<dots> = filter (at_fault hostport c) (map endpoint_field [0..<length ?es])"
    by (auto simp: filter_map comp_def at_fault_endpoint intro!: arg_cong [where f = "map endpoint_field"] filter_cong)
  finally show ?thesis .
qed

lemma distinct_checked_fields:
  assumes "distinct ord" "set ord = dom (timeouts h)"
  shows "distinct (checked_fields ord n)"
proof -
  have so: "set ord = {''http.read_header_timeout'', ''http.read_timeout'', ''http.write_timeout'',
     ''http.idle_timeout'', ''http.request_timeout''}"
    unfolding assms(2) by (rule dom_timeouts)
  have ef: "distinct (map endpoint_field [0..<n])"
    by (simp add: distinct_map inj_on_def endpoint_field_inj)
  have no: "f \<notin> set (map endpoint_field [0..<n])" if "take 15 f \<noteq> ''etcd.endpoints[''" for f
    using endpoint_field_other [OF that] by auto
  have dj: "set xs \<inter> set (map endpoint_field [0..<n]) = {}" if "\<forall>f\<in>set xs. take 15 f \<noteq> ''etcd.endpoints[''" for xs
    using that no by blast
  let ?a = "[''http.port'', ''telemetry.trace_sample_ratio'', ''telemetry.service_name'', ''telemetry.otlp_endpoint'']"
  let ?b = "[''http.max_header_bytes'', ''http.max_body_bytes'', ''redis.addr'', ''redis.db'']"
  let ?d = "[''etcd.auth'', ''components.pubsub'', ''components.reminder'', ''components.reminder.notifier'']"
  have "distinct (?a @ ?b @ ?d)" by simp
  moreover have "set (?a @ ?b @ ?d) \<inter> set ord = {}" unfolding so by simp
  moreover have "set (?a @ ?b @ ?d) \<inter> set (map endpoint_field [0..<n]) = {}" by (rule dj) simp
  moreover have "set ord \<inter> set (map endpoint_field [0..<n]) = {}" by (rule dj) (simp add: so)
  ultimately show ?thesis
    using assms(1) ef unfolding checked_fields_def distinct_append set_append by blast
qed

lemma fields_filter:
  assumes "set ord = dom (timeouts (cf_HTTP c))"
  shows "fields_of (Validate hostport ord c)
    = filter (at_fault hostport c) (checked_fields ord (length (ec_Endpoints (cf_Etcd c))))"
proof -
  have ord: "filter (at_fault hostport c) ord = filter (bad_timeout (cf_HTTP c)) ord"
    using assms by (auto intro!: filter_cong simp: at_fault_timeout)
  have one: "filter P [f] = (if P f then [f] else [])" for P :: "string \<Rightarrow> bool" and f by simp
  have cons: "filter P (f # g # fs) = (if P f then [f] else []) @ filter P (g # fs)" for P :: "string \<Rightarrow> bool" and f g fs
    by simp
  show ?thesis
    unfolding fields_Validate checked_fields_def filter_append ord
    by (simp only: cons one at_fault_literals append_assoc blank_endpoints_filter [of c hostport, symmetric])
qed


lemma at_fault_checked:
  assumes "set ord = dom (timeouts (cf_HTTP c))" "at_fault hostport c f"
  shows "f \<in> set (checked_fields ord (length (ec_Endpoints (cf_Etcd c))))"
  using assms fields_at_fault [OF assms(1), of f hostport] fields_filter [OF assms(1), of hostport] by simp

text \<open>
  C29: in whatever order Go ranges over the timeouts, \<open>Validate\<close> reports the fields at fault and
  no others, each once, in the order of the checks, and it returns nil exactly when no field
  is at fault.
\<close>

theorem Validate_exact:
  assumes "range_order (timeouts (cf_HTTP c)) ord"
  shows "fields_of (Validate hostport ord c)
      = filter (at_fault hostport c) (checked_fields ord (length (ec_Endpoints (cf_Etcd c))))
    \<and> set (fields_of (Validate hostport ord c)) = {f. at_fault hostport c f}
    \<and> distinct (fields_of (Validate hostport ord c))
    \<and> (Validate hostport ord c = None \<longleftrightarrow> {f. at_fault hostport c f} = {})"
proof -
  have d: "distinct ord" and so: "set ord = dom (timeouts (cf_HTTP c))"
    using assms by (auto simp: range_order_def)
  note f = fields_filter [OF so, of hostport]
  have s: "set (fields_of (Validate hostport ord c)) = {f. at_fault hostport c f}"
    using fields_at_fault [OF so, of _ hostport] by blast
  have di: "distinct (fields_of (Validate hostport ord c))"
    unfolding f by (rule distinct_filter) (rule distinct_checked_fields [OF d so])
  have "Validate hostport ord c = None \<longleftrightarrow> {f. at_fault hostport c f} = {}"
    using Validate_clean [of hostport ord c] unfolding clean_def s [symmetric] set_empty by simp
  with f s di show ?thesis by blast
qed

text \<open>A port out of range, and pub/sub without Redis.\<close>

definition sample_config :: mesa_config where
  "sample_config =
     \<lparr>cf_Profile = ''shop'', cf_LogLevel = ''warn'', cf_Telemetry = zero_telemetry,
      cf_HTTP = zero_http\<lparr>hc_Port := 8080\<rparr>, cf_PostgresDSN = [], cf_Redis = zero_redis, cf_Etcd = zero_etcd,
      cf_Components = zero_components\<rparr>"

definition timeout_order :: "string list" where
  "timeout_order = [''http.read_timeout'', ''http.idle_timeout'', ''http.request_timeout'',
     ''http.write_timeout'', ''http.read_header_timeout'']"

lemma timeout_order_ok: "range_order (timeouts h) timeout_order"
  by (auto simp: range_order_def timeout_order_def dom_timeouts)

lemma Validate_exact_witness:
  "fields_of (Validate (\<lambda>_. True) timeout_order
      (sample_config\<lparr>cf_HTTP := zero_http\<lparr>hc_Port := 70000\<rparr>,
         cf_Components := zero_components\<lparr>cc_PubSub := zero_pubsub\<lparr>pcf_Enabled := True\<rparr>\<rparr>\<rparr>))
   = [''http.port'', ''components.pubsub'']"
proof -
  let ?c = "sample_config\<lparr>cf_HTTP := zero_http\<lparr>hc_Port := 70000\<rparr>,
         cf_Components := zero_components\<lparr>cc_PubSub := zero_pubsub\<lparr>pcf_Enabled := True\<rparr>\<rparr>\<rparr>"
  have "fields_of (Validate (\<lambda>_. True) timeout_order ?c)
      = filter (at_fault (\<lambda>_. True) ?c) (checked_fields timeout_order (length (ec_Endpoints (cf_Etcd ?c))))"
    using Validate_exact [OF timeout_order_ok, where c = ?c and hostport = "\<lambda>_. True"] by blast
  moreover have "filter (at_fault (\<lambda>_. True) ?c) timeout_order = []"
    by (simp add: timeout_order_def at_fault_timeout dom_timeouts bad_timeout_def timeouts_def zero_http_def)
  ultimately show ?thesis
    by (simp add: checked_fields_def at_fault_literals sample_config_def zero_telemetry_def ratio_bad_def
        zero_http_def zero_redis_def zero_etcd_def zero_components_def zero_pubsub_def zero_reminder_def)
qed

subsection \<open>What an accepted configuration guarantees\<close>

text \<open>
  The settings \<open>New\<close> works with when it gets the options of a configuration.  \<open>startable\<close> is
  what its connections and components need.
\<close>

definition settings :: "mesa_option list \<Rightarrow> mesa_options" where
  "settings ps = fold apply_mesa_option ps zero_options"

definition startable :: "mesa_options \<Rightarrow> bool" where
  "startable mo \<longleftrightarrow>
     telemetry_complete (mo_Telemetry mo)
     \<and> (pcf_Enabled (cc_PubSub (mo_components mo)) \<longrightarrow> rc_Addr (mo_RedisConfig mo) \<noteq> [])
     \<and> (rcf_Enabled (cc_Reminder (mo_components mo)) \<longrightarrow>
          mo_dsn mo \<noteq> [] \<and> rcf_Notifier (cc_Reminder (mo_components mo)) \<noteq> None)"

lemma config_Options_Inr:
  assumes "range_order (timeouts (cf_HTTP c)) ord" and o: "config_Options hostport ord c = Inr ps"
  shows "startable (settings ps)"
    and "mo_dsn (settings ps) = cf_PostgresDSN c" "mo_RedisConfig (settings ps) = cf_Redis c"
      "mo_EtcdConfig (settings ps) = cf_Etcd c" "ss_Name (mo_serviceScheme (settings ps)) = []"
      "mo_Servers (settings ps) = []" "mo_HttpPort (settings ps) = hc_Port (cf_HTTP c)"
      "mo_components (settings ps) = mergeComponents zero_components (cf_Components c)"
      "mo_profile (settings ps) = cf_Profile c"
proof -
  have so: "set ord = dom (timeouts (cf_HTTP c))" using assms by (simp add: range_order_def)
  have v: "Validate hostport ord c = None" using o by (simp add: config_Options_def split: option.splits)
  then have "fields_of (Validate hostport ord c) = []" by simp
  with fields_at_fault [OF so, of _ hostport] have nf: "\<not> at_fault hostport c f" for f by auto
  let ?t = "if TrimSpace (tc_ServiceName (cf_Telemetry c)) = []
            then (cf_Telemetry c)\<lparr>tc_ServiceName := TrimSpace (cf_Profile c)\<rparr> else cf_Telemetry c"
  have ps: "ps = [WithProfile (cf_Profile c), WithLogLevel (ParseLevel (cf_LogLevel c)), WithTelemetry ?t,
                   WithHTTPConfig (cf_HTTP c), WithDSN (cf_PostgresDSN c), WithRedisConfig (cf_Redis c),
                   WithEtcdConfig (cf_Etcd c), WithComponents (cf_Components c)]"
    using o v by (simp add: config_Options_def Let_def)
  have port: "0 \<le> hc_Port (cf_HTTP c)" using nf [of "''http.port''"] by (simp add: at_fault_literals)
  have st: "mo_Telemetry (settings ps) = ?t" "mo_dsn (settings ps) = cf_PostgresDSN c"
    "mo_RedisConfig (settings ps) = cf_Redis c" "mo_EtcdConfig (settings ps) = cf_Etcd c"
    "ss_Name (mo_serviceScheme (settings ps)) = []" "mo_Servers (settings ps) = []"
    "mo_components (settings ps) = mergeComponents zero_components (cf_Components c)"
    "mo_profile (settings ps) = cf_Profile c"
    unfolding ps settings_def by (simp_all add: zero_options_def Let_def)
  show "mo_HttpPort (settings ps) = hc_Port (cf_HTTP c)"
    using port unfolding ps settings_def by (simp add: zero_options_def Let_def)
  have en: "pcf_Enabled (cc_PubSub (mergeComponents zero_components x)) = pcf_Enabled (cc_PubSub x)"
    "rcf_Enabled (cc_Reminder (mergeComponents zero_components x)) = rcf_Enabled (cc_Reminder x)"
    "rcf_Notifier (cc_Reminder (mergeComponents zero_components x)) = rcf_Notifier (cc_Reminder x)" for x
    by (simp_all add: mergeComponents_def mergePubSubComponentConfig_def mergeReminderComponentConfig_def
        zero_components_def zero_pubsub_def zero_reminder_def)
  have "telemetry_complete ?t"
    using nf [of "''telemetry.trace_sample_ratio''"] nf [of "''telemetry.service_name''"]
      nf [of "''telemetry.otlp_endpoint''"]
    by (auto simp: at_fault_literals telemetry_complete_def)
  moreover have "TrimSpace (cf_PostgresDSN c) \<noteq> [] \<Longrightarrow> cf_PostgresDSN c \<noteq> []" by auto
  ultimately show "startable (settings ps)"
    using nf [of "''components.pubsub''"] nf [of "''components.reminder''"] nf [of "''components.reminder.notifier''"]
    unfolding startable_def st(1-7) en by (auto simp: at_fault_literals)
  show "mo_dsn (settings ps) = cf_PostgresDSN c" "mo_RedisConfig (settings ps) = cf_Redis c"
      "mo_EtcdConfig (settings ps) = cf_Etcd c" "ss_Name (mo_serviceScheme (settings ps)) = []"
      "mo_Servers (settings ps) = []"
      "mo_components (settings ps) = mergeComponents zero_components (cf_Components c)"
      "mo_profile (settings ps) = cf_Profile c"
    by (rule st)+
qed

end
