(* ===== verification/MesaRuntime.thy ===== *)
theory MesaRuntime
  imports MesaValidate
begin

text \<open>
  The construction of a runtime: \<open>New\<close> of mesa.go with its connections and its clean-up,
  component.go and the registry of components, and default_components.go.  What the databases
  and OpenTelemetry answer is a parameter \<open>env\<close>.  The process is the multiset of resources it
  holds open, the loggers and the two global variables of global.go.  The pointers to a
  runtime's telemetry and metrics are the address 0.
\<close>

subsection \<open>Data\<close>

datatype runtime_state = StateUnset | StateNew | StateStarting | StateRunning | StateStopping | StateStopped

datatype ('d, 'r, 'h) component =
    PubSubComponent "('r, 'h) pubsub_service"
  | ReminderComponent "('d, nat) reminder_service"
  | UserComponent string nat

fun component_Name :: "('d, 'r, 'h) component \<Rightarrow> string" where
  "component_Name (PubSubComponent s) = po_name (st_opts (ps_store s))"
| "component_Name (ReminderComponent s) = ro_name (rs_opts s)"
| "component_Name (UserComponent name i) = name"

record ('d, 'r, 'h) mesa =
  m_opts :: mesa_options
  m_etcdCtl :: bool
  m_DB :: "'d pg option"
  m_Redis :: "'r redis option"
  m_Telemetry :: telemetry_runtime
  m_state :: runtime_state
  m_components :: "('d, 'r, 'h) component list"
  m_componentIndex :: "string \<rightharpoonup> ('d, 'r, 'h) component"
  m_servers :: "server list"

text \<open>
  How a construction ends without a result: it returns an error, or it panics, which no caller in
  the package recovers from.
\<close>

datatype stop = Fails error | Panics string

text \<open>
  The environment: what connecting to a database (with the ping; the driver panics on a DSN it
  cannot parse), to Redis and to etcd gives, whether the etcd registry of a micro server opens a
  client, what closing them returns, and the errors of OpenTelemetry.
\<close>

record ('d, 'r) mesa_env =
  env_exporter :: "error option"
  env_resource :: "error option"
  env_tel_shutdown :: "error option"
  env_db :: "string \<Rightarrow> stop + 'd pg"
  env_db_close :: "error option"
  env_redis :: "redis_config \<Rightarrow> error + 'r redis"
  env_redis_close :: "error option"
  env_etcd :: "etcd_config \<Rightarrow> error option"
  env_registry :: "etcd_config \<Rightarrow> bool"
  env_codec :: pubsub_codec

record ('d, 'r, 'h) process =
  p_open :: "resource multiset"
  p_log :: log_state
  p_logger :: ptr
  p_mesa :: "('d, 'r, 'h) mesa option"

text \<open>global.go: the two variables of the process.\<close>

definition SetGlobalMesa :: "('d, 'r, 'h) mesa \<Rightarrow> ('d, 'r, 'h) process \<Rightarrow> ('d, 'r, 'h) process" where
  "SetGlobalMesa m p = p\<lparr>p_mesa := Some m\<rparr>"

definition GetGlobalMesa :: "('d, 'r, 'h) process \<Rightarrow> ('d, 'r, 'h) mesa option" where
  "GetGlobalMesa p = p_mesa p"

definition SetGlobalLogger :: "nat \<Rightarrow> ('d, 'r, 'h) process \<Rightarrow> ('d, 'r, 'h) process" where
  "SetGlobalLogger l p = p\<lparr>p_logger := Some l\<rparr>"

definition GetGlobalLogger :: "('d, 'r, 'h) process \<Rightarrow> ptr" where
  "GetGlobalLogger p = p_logger p"

lemma global_simps [simp]:
  "GetGlobalMesa (SetGlobalMesa m p) = Some m" "GetGlobalLogger (SetGlobalLogger l p) = Some l"
  "GetGlobalMesa (SetGlobalLogger l p) = GetGlobalMesa p" "GetGlobalLogger (SetGlobalMesa m p) = GetGlobalLogger p"
  by (simp_all add: SetGlobalMesa_def GetGlobalMesa_def SetGlobalLogger_def GetGlobalLogger_def)

definition ErrRuntimeStarted :: error where "ErrRuntimeStarted = Errs ''mesa runtime already started''"
definition ErrReminderDBNotConfigured :: error where
  "ErrReminderDBNotConfigured = Errs ''reminder db is not configured''"
definition ErrReminderNotifierNotConfigured :: error where
  "ErrReminderNotifierNotConfigured = Errs ''reminder notifier is not configured''"
definition ErrEtcdNotConfigured :: error where "ErrEtcdNotConfigured = Errs ''etcd is not configured''"
definition ErrComponentNotFound :: error where "ErrComponentNotFound = Errs ''component not found''"
definition ErrComponentExists :: error where "ErrComponentExists = Errs ''component already registered''"

subsection \<open>The registry of components\<close>

definition normalizeComponentName :: "string \<Rightarrow> string" where
  "normalizeComponentName name = TrimSpace name"

interpretation component_norm: normaliser normalizeComponentName
  by unfold_locales (simp add: normalizeComponentName_def)

text \<open>The loop of \<open>RegisterComponent\<close>; a nil component is \<open>None\<close>.\<close>

fun register_items ::
  "('d, 'r, 'h) component option list \<Rightarrow> ('d, 'r, 'h) mesa \<Rightarrow> error option \<times> ('d, 'r, 'h) mesa" where
  "register_items [] m = (None, m)"
| "register_items (None # items) m = (Some (Errs ''component is nil''), m)"
| "register_items (Some c # items) m =
     (let name = normalizeComponentName (component_Name c) in
      if name = [] then (Some (Errs ''component name is empty''), m)
      else if m_componentIndex m name \<noteq> None then (Some (Wrap [] ErrComponentExists ('': '' @ name)), m)
      else register_items items
             (m\<lparr>m_components := m_components m @ [c],
                m_componentIndex := (m_componentIndex m)(name \<mapsto> c)\<rparr>))"

definition RegisterComponent ::
  "('d, 'r, 'h) component option list \<Rightarrow> ('d, 'r, 'h) mesa \<Rightarrow> error option \<times> ('d, 'r, 'h) mesa" where
  "RegisterComponent items m =
     (if m_state m \<noteq> StateUnset \<and> m_state m \<noteq> StateNew then (Some ErrRuntimeStarted, m)
      else register_items items m)"

definition GetComponent ::
  "('d, 'r, 'h) mesa option \<Rightarrow> string \<Rightarrow> ('d, 'r, 'h) component option" where
  "GetComponent m name =
     (case m of None \<Rightarrow> None | Some r \<Rightarrow> m_componentIndex r (normalizeComponentName name))"

text \<open>A panic is \<open>Inl\<close> its message.\<close>

definition MustGetComponent ::
  "('d, 'r, 'h) mesa option \<Rightarrow> string \<Rightarrow> string + ('d, 'r, 'h) component" where
  "MustGetComponent m name =
     (case GetComponent m name of
        None \<Rightarrow> Inl (Error ErrComponentNotFound @ '': '' @ name)
      | Some c \<Rightarrow> Inr c)"

text \<open>\<open>GetComponentAs[T]\<close>: \<open>as\<close> is the type assertion to \<open>T\<close>.\<close>

definition GetComponentAs ::
  "(('d, 'r, 'h) component \<Rightarrow> 't option) \<Rightarrow> ('d, 'r, 'h) mesa option \<Rightarrow> string \<Rightarrow> 't option" where
  "GetComponentAs as m name =
     (case m of
        None \<Rightarrow> None
      | Some _ \<Rightarrow> (case GetComponent m name of None \<Rightarrow> None | Some c \<Rightarrow> as c))"

text \<open>\<open>quote\<close> is what the verb \<open>%q\<close> prints.\<close>

definition MustGetComponentAs ::
  "(string \<Rightarrow> string) \<Rightarrow> (('d, 'r, 'h) component \<Rightarrow> 't option) \<Rightarrow> ('d, 'r, 'h) mesa option \<Rightarrow> string
     \<Rightarrow> string + 't" where
  "MustGetComponentAs quote as m name =
     (case GetComponentAs as m name of
        Some t \<Rightarrow> Inr t
      | None \<Rightarrow> Inl (''component '' @ quote name @ '' not found or has unexpected type''))"

fun as_pubsub :: "('d, 'r, 'h) component \<Rightarrow> ('r, 'h) pubsub_service option" where
  "as_pubsub (PubSubComponent s) = Some s"
| "as_pubsub _ = None"

fun as_reminder :: "('d, 'r, 'h) component \<Rightarrow> ('d, nat) reminder_service option" where
  "as_reminder (ReminderComponent s) = Some s"
| "as_reminder _ = None"

definition GetPubSub :: "('d, 'r, 'h) mesa option \<Rightarrow> ('r, 'h) pubsub_service option" where
  "GetPubSub m = GetComponentAs as_pubsub m ''pubsub''"

definition GetReminder :: "('d, 'r, 'h) mesa option \<Rightarrow> ('d, nat) reminder_service option" where
  "GetReminder m = GetComponentAs as_reminder m ''reminder''"

definition MustGetPubSub ::
  "(string \<Rightarrow> string) \<Rightarrow> ('d, 'r, 'h) mesa option \<Rightarrow> string + ('r, 'h) pubsub_service" where
  "MustGetPubSub quote m = MustGetComponentAs quote as_pubsub m ''pubsub''"

definition MustGetReminder ::
  "(string \<Rightarrow> string) \<Rightarrow> ('d, 'r, 'h) mesa option \<Rightarrow> string + ('d, nat) reminder_service" where
  "MustGetReminder quote m = MustGetComponentAs quote as_reminder m ''reminder''"

definition Components :: "('d, 'r, 'h) mesa option \<Rightarrow> ('d, 'r, 'h) component list" where
  "Components m = (case m of None \<Rightarrow> [] | Some r \<Rightarrow> m_components r)"

fun server_GetType :: "server \<Rightarrow> nat" where
  "server_GetType (HTTPServer ho) = ho_Type ho"
| "server_GetType (MicroServer scheme e) = MICRO_SERVER"
| "server_GetType (UserServer typ i) = typ"

definition GetServerByType :: "nat \<Rightarrow> ('d, 'r, 'h) mesa \<Rightarrow> server option" where
  "GetServerByType typ m = find (\<lambda>s. server_GetType s = typ) (m_servers m)"

end
