(* ===== verification/MesaNew.thy ===== *)
theory MesaNew
  imports MesaRuntime
begin

text \<open>
  \<open>New\<close> of mesa.go, in the phases the function has: the logger, telemetry, PostgreSQL, Redis,
  etcd, the servers and the default components.  A phase returns how \<open>New\<close> stops there, if it
  does, after closing what the code closes there.
\<close>

subsection \<open>Connections\<close>

text \<open>
  A DSN the driver cannot parse makes \<open>pgdriver.WithDSN\<close> panic, before there is a pool.  Opening the
  pool takes the resource; a failed ping closes it again.
\<close>

definition newDB :: "('d, 'r) mesa_env \<Rightarrow> string \<Rightarrow> resource multiset \<Rightarrow> (stop + 'd pg) \<times> resource multiset" where
  "newDB env dsn op0 =
     (case env_db env dsn of
        Inl (Panics msg) \<Rightarrow> (Inl (Panics msg), op0)
      | pinged \<Rightarrow>
          (let op1 = op0 + {#HDB#} in
           case pinged of
             Inl e \<Rightarrow> (Inl e, op1 - {#HDB#})
           | Inr pg \<Rightarrow> (Inr pg, op1)))"

definition newRedis ::
  "('d, 'r) mesa_env \<Rightarrow> redis_config \<Rightarrow> resource multiset \<Rightarrow> (error + 'r redis) \<times> resource multiset" where
  "newRedis env cfg op0 =
     (let op1 = op0 + {#HRedis#} in
      case env_redis env cfg of
        Inl e \<Rightarrow> (Inl e, op1 - {#HRedis#})
      | Inr rd \<Rightarrow> (Inr rd, op1))"

definition closeDB ::
  "('d, 'r) mesa_env \<Rightarrow> ('d, 'r, 'h) mesa \<Rightarrow> resource multiset \<Rightarrow> error option \<times> ('d, 'r, 'h) mesa \<times> resource multiset"
where
  "closeDB env m op0 =
     (if m_DB m \<noteq> None then (env_db_close env, m\<lparr>m_DB := None\<rparr>, op0 - {#HDB#}) else (None, m, op0))"

definition closeRedis ::
  "('d, 'r) mesa_env \<Rightarrow> ('d, 'r, 'h) mesa \<Rightarrow> resource multiset \<Rightarrow> error option \<times> ('d, 'r, 'h) mesa \<times> resource multiset"
where
  "closeRedis env m op0 =
     (if m_Redis m \<noteq> None then (env_redis_close env, m\<lparr>m_Redis := None\<rparr>, op0 - {#HRedis#}) else (None, m, op0))"

definition closeResources ::
  "('d, 'r) mesa_env \<Rightarrow> ('d, 'r, 'h) mesa \<Rightarrow> resource multiset \<Rightarrow> error option \<times> ('d, 'r, 'h) mesa \<times> resource multiset"
where
  "closeResources env m op0 =
     (let (m1, op1) = (if m_etcdCtl m then (m\<lparr>m_etcdCtl := False\<rparr>, op0 - {#HEtcd#}) else (m, op0));
          (e1, m2, op2) = closeRedis env m1 op1;
          (e2, m3, op3) = closeDB env m2 op2
      in (errors_Join e1 e2, m3, op3))"

definition shutdown_telemetry ::
  "('d, 'r) mesa_env \<Rightarrow> ('d, 'r, 'h) mesa \<Rightarrow> resource multiset \<Rightarrow> resource multiset" where
  "shutdown_telemetry env m op0 = snd (telemetry_Shutdown (env_tel_shutdown env) (m_Telemetry m) op0)"

subsection \<open>The phases\<close>

definition initLogger :: "mesa_options \<Rightarrow> ('d, 'r, 'h) process \<Rightarrow> ('d, 'r, 'h) process" where
  "initLogger mo p =
     (let (l, s1) = GetLogger (mo_profile mo) (p_log p)
      in p\<lparr>p_log := (case SetLevel l (mo_LogLevel mo) s1 of Some s2 \<Rightarrow> s2 | None \<Rightarrow> s1), p_logger := Some l\<rparr>)"

type_synonym ('d, 'r, 'h) phase =
  "('d, 'r, 'h) mesa \<Rightarrow> resource multiset \<Rightarrow> stop option \<times> ('d, 'r, 'h) mesa \<times> resource multiset"

definition connect_db :: "('d, 'r) mesa_env \<Rightarrow> ('d, 'r, 'h) phase" where
  "connect_db env m op0 =
     (if mo_dsn (m_opts m) \<noteq> []
      then (case newDB env (mo_dsn (m_opts m)) op0 of
              (Inl (Panics msg), op1) \<Rightarrow> (Some (Panics msg), m, op1)
            | (Inl (Fails e), op1) \<Rightarrow> (Some (Fails (Wrap ''connect postgres: '' e [])), m, shutdown_telemetry env m op1)
            | (Inr pg, op1) \<Rightarrow> (None, m\<lparr>m_DB := Some pg\<rparr>, op1))
      else (None, m, op0))"

definition connect_redis :: "('d, 'r) mesa_env \<Rightarrow> ('d, 'r, 'h) phase" where
  "connect_redis env m op0 =
     (if rc_Addr (mo_RedisConfig (m_opts m)) \<noteq> []
      then (case newRedis env (mo_RedisConfig (m_opts m)) op0 of
              (Inl e, op1) \<Rightarrow>
                (let (_, m1, op2) = closeDB env m op1
                 in (Some (Fails (Wrap ''connect redis: '' e [])), m1, shutdown_telemetry env m1 op2))
            | (Inr rd, op1) \<Rightarrow> (None, m\<lparr>m_Redis := Some rd\<rparr>, op1))
      else (None, m, op0))"

definition connect_etcd :: "('d, 'r) mesa_env \<Rightarrow> ('d, 'r, 'h) phase" where
  "connect_etcd env m op0 =
     (if length (ec_Endpoints (mo_EtcdConfig (m_opts m))) > 0
      then (case env_etcd env (mo_EtcdConfig (m_opts m)) of
              Some e \<Rightarrow>
                (let (_, m1, op1) = closeRedis env m op0;
                     (_, m2, op2) = closeDB env m1 op1
                 in (Some (Fails (Wrap ''connect etcd: '' e [])), m2, shutdown_telemetry env m2 op2))
            | None \<Rightarrow> (None, m\<lparr>m_etcdCtl := True\<rparr>, op0 + {#HEtcd#}))
      else (None, m, op0))"

definition http_server :: "mesa_options \<Rightarrow> server" where
  "http_server mo =
     (let hcfg = mo_HTTPConfig mo in
      HTTPServer (NewHTTPServer
        [H_WithHost (Some 0), H_WithPort (mo_HttpPort mo), H_WithType HTTP,
         H_WithTimeouts (hc_ReadHeaderTimeout hcfg) (hc_ReadTimeout hcfg) (hc_WriteTimeout hcfg) (hc_IdleTimeout hcfg),
         H_WithMaxHeaderBytes (hc_MaxHeaderBytes hcfg), H_WithMaxBodyBytes (hc_MaxBodyBytes hcfg),
         H_WithRequestTimeout (hc_RequestTimeout hcfg), H_WithTelemetry (Some 0) (Some 0)]))"

text \<open>
  The registry of the micro server is an etcd client of its own, apart from \<open>etcdCtl\<close>; nothing in
  the package closes it.
\<close>

definition NewEtcdRegistry :: "('d, 'r) mesa_env \<Rightarrow> etcd_config \<Rightarrow> resource multiset \<Rightarrow> resource multiset" where
  "NewEtcdRegistry env cfg op0 = (if env_registry env cfg then op0 + {#HRegistry#} else op0)"

definition make_servers :: "('d, 'r) mesa_env \<Rightarrow> ('d, 'r, 'h) phase" where
  "make_servers env m op0 =
     (let mo = m_opts m;
          m1 = (if mo_HttpPort mo > 0 then m\<lparr>m_servers := m_servers m @ [http_server mo]\<rparr> else m)
      in if ss_Name (mo_serviceScheme mo) \<noteq> []
         then (if length (ec_Endpoints (mo_EtcdConfig mo)) = 0
               then (let (_, m2, op1) = closeResources env m1 op0
                     in (Some (Fails ErrEtcdNotConfigured), m2, shutdown_telemetry env m2 op1))
               else (None, m1\<lparr>m_servers := m_servers m1 @ [MicroServer (mo_serviceScheme mo) (mo_EtcdConfig mo)]
                                             @ mo_Servers mo\<rparr>, NewEtcdRegistry env (mo_EtcdConfig mo) op0))
         else (None, m1\<lparr>m_servers := m_servers m1 @ mo_Servers mo\<rparr>, op0))"

text \<open>The registrars of default_components.go, which get loggers of the process.\<close>

definition construct_pubsub ::
  "('d, 'r) mesa_env \<Rightarrow> 'r redis option \<Rightarrow> pubsub_option list \<Rightarrow> log_state \<Rightarrow> ('r, 'h) pubsub_service \<times> log_state" where
  "construct_pubsub env rdb opts lg =
     (let o1 = fold apply_pubsub_option opts pubsub_defaultOptions
      in (pubsub_NewService (\<lambda>name. fst (GetLogger name lg)) (env_codec env) rdb opts,
          if po_logger o1 = None then snd (GetLogger (po_name o1) lg) else lg))"

definition register_pubsub ::
  "('d, 'r) mesa_env \<Rightarrow> ('d, 'r, 'h) mesa \<Rightarrow> log_state \<Rightarrow> error option \<times> ('d, 'r, 'h) mesa \<times> log_state" where
  "register_pubsub env m lg =
     (if m_Redis m = None then (Some ErrRedisNotConfigured, m, lg)
      else (let opts = build_pubsub_options (cc_PubSub (mo_components (m_opts m))) @ [P_WithTelemetry (Some 0) (Some 0)];
                (service, lg1) = construct_pubsub env (m_Redis m) opts lg;
                (e, m1) = RegisterComponent [Some (PubSubComponent service)] m
            in (e, m1, lg1)))"

definition construct_reminder ::
  "'d pg option \<Rightarrow> ptr \<Rightarrow> reminder_option list \<Rightarrow> log_state \<Rightarrow> ('d, nat) reminder_service \<times> log_state" where
  "construct_reminder db notifier opts lg =
     (let o1 = fold apply_reminder_option opts reminder_defaultOptions
      in (reminder_NewService (\<lambda>name. fst (GetLogger name lg)) db notifier opts,
          if ro_logger o1 = None then snd (GetLogger (ro_name o1) lg) else lg))"

definition register_reminder ::
  "('d, 'r, 'h) mesa \<Rightarrow> log_state \<Rightarrow> error option \<times> ('d, 'r, 'h) mesa \<times> log_state" where
  "register_reminder m lg =
     (let cfg = cc_Reminder (mo_components (m_opts m)) in
      if m_DB m = None then (Some ErrReminderDBNotConfigured, m, lg)
      else if rcf_Notifier cfg = None then (Some ErrReminderNotifierNotConfigured, m, lg)
      else (let opts = build_reminder_options cfg @ [R_WithTelemetry (Some 0) (Some 0)];
                (service, lg1) = construct_reminder (m_DB m) (rcf_Notifier cfg) opts lg;
                (e, m1) = RegisterComponent [Some (ReminderComponent service)] m
            in (e, m1, lg1)))"

definition registerDefaultComponents ::
  "('d, 'r) mesa_env \<Rightarrow> ('d, 'r, 'h) mesa \<Rightarrow> log_state \<Rightarrow> error option \<times> ('d, 'r, 'h) mesa \<times> log_state" where
  "registerDefaultComponents env m lg =
     (let cc = mo_components (m_opts m) in
      case (if pcf_Enabled (cc_PubSub cc) then register_pubsub env m lg else (None, m, lg)) of
        (Some e, m1, lg1) \<Rightarrow> (Some (Wrap ''register default component pubsub: '' e []), m1, lg1)
      | (None, m1, lg1) \<Rightarrow>
          (case (if rcf_Enabled (cc_Reminder cc) then register_reminder m1 lg1 else (None, m1, lg1)) of
             (Some e, m2, lg2) \<Rightarrow> (Some (Wrap ''register default component reminder: '' e []), m2, lg2)
           | (None, m2, lg2) \<Rightarrow> (None, m2, lg2)))"

subsection \<open>New\<close>

text \<open>Phases in a row: the first that stops ends them.\<close>

definition then_phase :: "('d, 'r, 'h) phase \<Rightarrow> ('d, 'r, 'h) phase \<Rightarrow> ('d, 'r, 'h) phase" where
  "then_phase f g m op0 =
     (case f m op0 of
        (Some e, m1, op1) \<Rightarrow> (Some e, m1, op1)
      | (None, m1, op1) \<Rightarrow> g m1 op1)"

definition connect_all :: "('d, 'r) mesa_env \<Rightarrow> ('d, 'r, 'h) phase" where
  "connect_all env =
     then_phase (connect_db env) (then_phase (connect_redis env) (then_phase (connect_etcd env) (make_servers env)))"

definition initial_mesa :: "mesa_options \<Rightarrow> telemetry_runtime \<Rightarrow> ('d, 'r, 'h) mesa" where
  "initial_mesa mo tr =
     \<lparr>m_opts = mo, m_etcdCtl = False, m_DB = None, m_Redis = None, m_Telemetry = tr, m_state = StateNew,
      m_components = [], m_componentIndex = Map.empty, m_servers = []\<rparr>"

definition named_telemetry :: "mesa_options \<Rightarrow> mesa_options" where
  "named_telemetry mo =
     (if tc_Enabled (mo_Telemetry mo) \<and> TrimSpace (tc_ServiceName (mo_Telemetry mo)) = []
      then mo\<lparr>mo_Telemetry := (mo_Telemetry mo)\<lparr>tc_ServiceName := TrimSpace (mo_profile mo)\<rparr>\<rparr>
      else mo)"

definition New ::
  "('d, 'r) mesa_env \<Rightarrow> mesa_option list \<Rightarrow> ('d, 'r, 'h) process
     \<Rightarrow> (stop + ('d, 'r, 'h) mesa) \<times> ('d, 'r, 'h) process" where
  "New env opts p =
     (let o0 = settings opts;
          p0 = initLogger o0 p;
          mo = named_telemetry o0
      in case telemetry_New (env_exporter env) (env_resource env) (mo_Telemetry mo) (p_open p0) of
           (Inl e, op1) \<Rightarrow> (Inl (Fails (Wrap ''initialize telemetry: '' e [])), p0\<lparr>p_open := op1\<rparr>)
         | (Inr tr, op1) \<Rightarrow>
             (case connect_all env (initial_mesa mo tr) op1 of
                (Some e, m, op2) \<Rightarrow> (Inl e, p0\<lparr>p_open := op2\<rparr>)
              | (None, m, op2) \<Rightarrow>
                  (case registerDefaultComponents env m (p_log p0) of
                     (Some e, m1, lg) \<Rightarrow>
                       (let (_, m2, op3) = closeResources env m1 op2
                        in (Inl (Fails e), p0\<lparr>p_open := shutdown_telemetry env m2 op3, p_log := lg\<rparr>))
                   | (None, m1, lg) \<Rightarrow>
                       (Inr m1, p0\<lparr>p_open := op2, p_log := lg, p_mesa := Some m1\<rparr>))))"


subsection \<open>Every phase releases what it must\<close>

text \<open>What a runtime holds open.\<close>

definition held :: "('d, 'r, 'h) mesa \<Rightarrow> resource multiset" where
  "held m =
     (if tr_tracerProvider (m_Telemetry m) then {#HExporter#} else {#})
     + (if m_DB m \<noteq> None then {#HDB#} else {#}) + (if m_Redis m \<noteq> None then {#HRedis#} else {#})
     + (if m_etcdCtl m then {#HEtcd#} else {#})"

lemma closeDB_held:
  "closeDB env m (base + held m) = (e, m1, op1) \<Longrightarrow>
     op1 = base + held m1 \<and> m1 = m\<lparr>m_DB := None\<rparr>"
  by (auto simp: closeDB_def held_def split: if_splits)

lemma closeRedis_held:
  "closeRedis env m (base + held m) = (e, m1, op1) \<Longrightarrow>
     op1 = base + held m1 \<and> m1 = m\<lparr>m_Redis := None\<rparr>"
  by (auto simp: closeRedis_def held_def split: if_splits)

lemma closeResources_held:
  assumes "closeResources env m (base + held m) = (e, m1, op1)"
  shows "op1 = base + held m1" and "m1 = m\<lparr>m_etcdCtl := False, m_Redis := None, m_DB := None\<rparr>"
proof -
  let ?m0 = "m\<lparr>m_etcdCtl := False\<rparr>"
  have e0: "(if m_etcdCtl m then (m\<lparr>m_etcdCtl := False\<rparr>, base + held m - {#HEtcd#}) else (m, base + held m))
      = (?m0, base + held ?m0)"
    by (simp add: held_def)
  obtain e1 m2 op2 where r: "closeRedis env ?m0 (base + held ?m0) = (e1, m2, op2)" by (rule prod_cases3)
  obtain e2 m3 op3 where d: "closeDB env m2 op2 = (e2, m3, op3)" by (rule prod_cases3)
  note r1 = closeRedis_held [OF r]
  with d have "closeDB env m2 (base + held m2) = (e2, m3, op3)" by simp
  note d1 = closeDB_held [OF this]
  have "closeResources env m (base + held m) = (errors_Join e1 e2, m3, op3)"
    unfolding closeResources_def e0 by (simp add: r d)
  with assms have "m1 = m3" "op1 = op3" by simp_all
  with d1 r1 show "op1 = base + held m1" and "m1 = m\<lparr>m_etcdCtl := False, m_Redis := None, m_DB := None\<rparr>"
    by (metis, simp)
qed

lemma shutdown_telemetry_held:
  "m_DB m = None \<Longrightarrow> m_Redis m = None \<Longrightarrow> \<not> m_etcdCtl m \<Longrightarrow> shutdown_telemetry env m (base + held m) = base"
  by (simp add: shutdown_telemetry_def telemetry_Shutdown_def held_def)

text \<open>What the servers hold that no field of the runtime has: the registry of the micro server.\<close>

definition registry_of :: "('d, 'r) mesa_env \<Rightarrow> mesa_options \<Rightarrow> resource multiset" where
  "registry_of env mo =
     (if ss_Name (mo_serviceScheme mo) \<noteq> [] \<and> env_registry env (mo_EtcdConfig mo) then {#HRegistry#} else {#})"

text \<open>
  The contract of a phase: it starts from a runtime that holds everything opened so far, and
  either goes on with such a runtime, holding \<open>more\<close> besides, or returns an error with everything
  closed.  \<open>pre\<close> is what it needs of the runtime and \<open>post\<close> what it leaves for the next phase.
\<close>

locale releasing_phase =
  fixes f :: "('d, 'r, 'h) phase" and pre post :: "('d, 'r, 'h) mesa \<Rightarrow> bool"
    and more :: "mesa_options \<Rightarrow> resource multiset"
  assumes goes_on: "pre m \<Longrightarrow> f m (base + held m) = (None, m1, op1) \<Longrightarrow>
      op1 = base + held m1 + more (m_opts m) \<and> m_opts m1 = m_opts m \<and> post m1"
    and stops: "pre m \<Longrightarrow> f m (base + held m) = (Some (Fails e), m1, op1) \<Longrightarrow> op1 = base"

locale two_phases = fst_phase: releasing_phase f pre mid "\<lambda>_. {#}" + snd_phase: releasing_phase g mid post more
  for f g :: "('d, 'r, 'h) phase" and pre mid post more
begin

lemma both_go_on:
  assumes "pre m" "then_phase f g m (base + held m) = (None, m1, op1)"
  shows "op1 = base + held m1 + more (m_opts m) \<and> m_opts m1 = m_opts m \<and> post m1"
proof -
  obtain e m0 op0 where f: "f m (base + held m) = (e, m0, op0)" by (rule prod_cases3)
  with assms(2) have e: "e = None" by (cases e) (auto simp: then_phase_def)
  with fst_phase.goes_on [OF assms(1)] f have "op0 = base + held m0" "m_opts m0 = m_opts m" "mid m0" by auto
  with snd_phase.goes_on [of m0 base m1 op1] assms(2) f e show ?thesis by (simp add: then_phase_def)
qed

lemma one_stops:
  assumes "pre m" "then_phase f g m (base + held m) = (Some (Fails e), m1, op1)"
  shows "op1 = base"
proof -
  obtain e0 m0 op0 where f: "f m (base + held m) = (e0, m0, op0)" by (rule prod_cases3)
  show ?thesis
  proof (cases e0)
    case None
    with fst_phase.goes_on [OF assms(1)] f have "op0 = base + held m0" "mid m0" by auto
    with snd_phase.stops [of m0 base e m1 op1] assms(2) f None show ?thesis by (simp add: then_phase_def)
  next
    case (Some x)
    with fst_phase.stops [OF assms(1)] f assms(2) show ?thesis by (auto simp: then_phase_def)
  qed
qed

end

sublocale two_phases \<subseteq> both: releasing_phase "then_phase f g" pre post more
  by unfold_locales (fact both_go_on, fact one_stops)

text \<open>The runtime before each connection: later ones are not open yet.\<close>

definition no_conn :: "('d, 'r, 'h) mesa \<Rightarrow> bool" where
  "no_conn m \<longleftrightarrow> m_DB m = None \<and> m_Redis m = None \<and> \<not> m_etcdCtl m"

definition no_redis :: "('d, 'r, 'h) mesa \<Rightarrow> bool" where
  "no_redis m \<longleftrightarrow> m_Redis m = None \<and> \<not> m_etcdCtl m"

definition no_etcd :: "('d, 'r, 'h) mesa \<Rightarrow> bool" where
  "no_etcd m \<longleftrightarrow> \<not> m_etcdCtl m"

lemma held_DB [simp]: "m_DB m = None \<Longrightarrow> held (m\<lparr>m_DB := Some x\<rparr>) = held m + {#HDB#}"
  and held_Redis [simp]: "m_Redis m = None \<Longrightarrow> held (m\<lparr>m_Redis := Some y\<rparr>) = held m + {#HRedis#}"
  and held_etcd [simp]: "\<not> m_etcdCtl m \<Longrightarrow> held (m\<lparr>m_etcdCtl := True\<rparr>) = held m + {#HEtcd#}"
  and held_servers [simp]: "held (m\<lparr>m_servers := ss\<rparr>) = held m"
  by (simp_all add: held_def)

interpretation db_phase: releasing_phase "connect_db env" no_conn no_redis "\<lambda>_. {#}"
  by unfold_locales
    (auto simp: connect_db_def newDB_def Let_def no_conn_def no_redis_def shutdown_telemetry_held
      split: if_splits sum.splits stop.splits)

interpretation redis_phase: releasing_phase "connect_redis env" no_redis no_etcd "\<lambda>_. {#}"
proof
  fix m m1 :: "('a, 'b, 'c) mesa" and base op1
  assume "no_redis m" "connect_redis env m (base + held m) = (None, m1, op1)"
  then show "op1 = base + held m1 + {#} \<and> m_opts m1 = m_opts m \<and> no_etcd m1"
    by (auto simp: connect_redis_def newRedis_def Let_def no_redis_def no_etcd_def split: if_splits sum.splits prod.splits)
next
  fix m m1 :: "('a, 'b, 'c) mesa" and base e op1
  assume nr: "no_redis m" and c: "connect_redis env m (base + held m) = (Some (Fails e), m1, op1)"
  obtain e2 m2 op2 where cl: "closeDB env m (base + held m) = (e2, m2, op2)" by (rule prod_cases3)
  from c cl have "op1 = shutdown_telemetry env m2 op2"
    by (auto simp: connect_redis_def newRedis_def Let_def split: if_splits sum.splits)
  with closeDB_held [OF cl] nr show "op1 = base" by (simp add: shutdown_telemetry_held no_redis_def)
qed

interpretation etcd_phase: releasing_phase "connect_etcd env" no_etcd "\<lambda>_. True" "\<lambda>_. {#}"
proof
  fix m m1 :: "('a, 'b, 'c) mesa" and base op1
  assume "no_etcd m" "connect_etcd env m (base + held m) = (None, m1, op1)"
  then show "op1 = base + held m1 + {#} \<and> m_opts m1 = m_opts m \<and> True"
    by (auto simp: connect_etcd_def Let_def no_etcd_def split: if_splits option.splits prod.splits)
next
  fix m m1 :: "('a, 'b, 'c) mesa" and base e op1
  assume ne: "no_etcd m" and c: "connect_etcd env m (base + held m) = (Some (Fails e), m1, op1)"
  obtain e2 m2 op2 where r: "closeRedis env m (base + held m) = (e2, m2, op2)" by (rule prod_cases3)
  obtain e3 m3 op3 where d: "closeDB env m2 op2 = (e3, m3, op3)" by (rule prod_cases3)
  from c r d have op1: "op1 = shutdown_telemetry env m3 op3"
    by (auto simp: connect_etcd_def Let_def split: if_splits option.splits)
  note r1 = closeRedis_held [OF r]
  with d have "closeDB env m2 (base + held m2) = (e3, m3, op3)" by simp
  from closeDB_held [OF this] r1 ne op1 show "op1 = base" by (simp add: shutdown_telemetry_held no_etcd_def)
qed

lemma close_all_released:
  assumes "closeResources env m (base + held m) = (e, m1, op1)"
  shows "shutdown_telemetry env m1 op1 = base"
  using closeResources_held [OF assms] by (simp add: shutdown_telemetry_held)

interpretation servers_phase: releasing_phase "make_servers env" "\<lambda>_. True" "\<lambda>_. True" "registry_of env"
proof
  fix m m1 :: "('a, 'b, 'c) mesa" and base op1
  assume "make_servers env m (base + held m) = (None, m1, op1)"
  then show "op1 = base + held m1 + registry_of env (m_opts m) \<and> m_opts m1 = m_opts m \<and> True"
    by (auto simp: make_servers_def NewEtcdRegistry_def registry_of_def Let_def split: if_splits prod.splits)
next
  fix m m1 :: "('a, 'b, 'c) mesa" and base e op1
  assume c: "make_servers env m (base + held m) = (Some (Fails e), m1, op1)"
  let ?m = "if mo_HttpPort (m_opts m) > 0 then m\<lparr>m_servers := m_servers m @ [http_server (m_opts m)]\<rparr> else m"
  have "held ?m = held m" by simp
  moreover obtain e2 m2 op2 where cl: "closeResources env ?m (base + held ?m) = (e2, m2, op2)" by (rule prod_cases3)
  ultimately have "op1 = shutdown_telemetry env m2 op2"
    using c by (auto simp: make_servers_def Let_def split: if_splits)
  with close_all_released [OF cl] show "op1 = base" by simp
qed

interpretation late_phases: two_phases "connect_etcd env" "make_servers env" no_etcd "\<lambda>_. True" "\<lambda>_. True"
  "registry_of env" ..

interpretation redis_on: two_phases "connect_redis env" "then_phase (connect_etcd env) (make_servers env)"
  no_redis no_etcd "\<lambda>_. True" "registry_of env" ..

interpretation db_on: two_phases "connect_db env"
  "then_phase (connect_redis env) (then_phase (connect_etcd env) (make_servers env))" no_conn no_redis "\<lambda>_. True"
  "registry_of env" ..

lemmas connect_all_goes_on = db_on.both_go_on [folded connect_all_def]
lemmas connect_all_stops = db_on.one_stops [folded connect_all_def]

text \<open>Only the driver of PostgreSQL panics, and then nothing is closed.\<close>

lemma connect_all_panics:
  assumes "connect_all env m op0 = (Some (Panics msg), m1, op1)"
  shows "mo_dsn (m_opts m) \<noteq> [] \<and> env_db env (mo_dsn (m_opts m)) = Inl (Panics msg) \<and> op1 = op0"
proof -
  have "connect_redis env m a \<noteq> (Some (Panics msg), m1, op1)" "connect_etcd env m a \<noteq> (Some (Panics msg), m1, op1)"
    "make_servers env m a \<noteq> (Some (Panics msg), m1, op1)" for m a
    by (auto simp: connect_redis_def connect_etcd_def make_servers_def Let_def
        split: if_splits sum.splits option.splits prod.splits)
  with assms have "connect_db env m op0 = (Some (Panics msg), m1, op1)"
    by (auto simp: connect_all_def then_phase_def split: prod.splits option.splits)
  then show ?thesis
    by (auto simp: connect_db_def newDB_def Let_def split: if_splits sum.splits stop.splits)
qed

end
