(* ===== verification/MesaNewProps.thy ===== *)
theory MesaNewProps
  imports MesaNew
begin

text \<open>
  What \<open>New\<close> and the registry of components guarantee: resources, the errors of an accepted
  configuration, and which components are found under which names.
\<close>

subsection \<open>The registry\<close>

text \<open>
  The index and the list of components agree: the index has exactly the components of the
  list, under their trimmed names, which are different and not empty.
\<close>

definition registry_inv :: "('d, 'r, 'h) mesa \<Rightarrow> bool" where
  "registry_inv m \<longleftrightarrow>
     m_componentIndex m = map_of (map (\<lambda>c. (normalizeComponentName (component_Name c), c)) (m_components m))
     \<and> distinct (map (\<lambda>c. normalizeComponentName (component_Name c)) (m_components m))
     \<and> (\<forall>c\<in>set (m_components m). normalizeComponentName (component_Name c) \<noteq> [])"

abbreviation cname :: "('d, 'r, 'h) component \<Rightarrow> string" where
  "cname c \<equiv> normalizeComponentName (component_Name c)"

lemma registry_inv_add:
  assumes "registry_inv m" "cname c \<noteq> []" "m_componentIndex m (cname c) = None"
  shows "registry_inv (m\<lparr>m_components := m_components m @ [c],
           m_componentIndex := (m_componentIndex m)(cname c \<mapsto> c)\<rparr>)"
proof -
  let ?f = "\<lambda>c. (cname c, c)"
  have idx: "m_componentIndex m = map_of (map ?f (m_components m))"
    and d: "distinct (map cname (m_components m))"
    using assms(1) by (simp_all add: registry_inv_def)
  have new: "cname c \<notin> set (map cname (m_components m))"
    using assms(3) unfolding idx map_of_eq_None_iff by (simp add: image_image)
  from assms(3) have none: "map_of (map ?f (m_components m)) (cname c) = None" by (simp only: idx)
  have "map_of (map ?f (m_components m @ [c])) = (map_of (map ?f (m_components m)))(cname c \<mapsto> c)"
  proof
    fix k
    show "map_of (map ?f (m_components m @ [c])) k = ((map_of (map ?f (m_components m)))(cname c \<mapsto> c)) k"
      using none by (cases "k = cname c") (auto simp: map_add_def split: option.splits)
  qed
  with assms(1,2) new d idx show ?thesis by (simp add: registry_inv_def)
qed


text \<open>The part of a list of items that \<open>RegisterComponent\<close> takes: up to the first it refuses.\<close>

fun accepted :: "string set \<Rightarrow> ('d, 'r, 'h) component option list \<Rightarrow> ('d, 'r, 'h) component list" where
  "accepted taken [] = []"
| "accepted taken (None # items) = []"
| "accepted taken (Some c # items) =
     (if cname c = [] \<or> cname c \<in> taken then [] else c # accepted (insert (cname c) taken) items)"

lemma register_items_accepted:
  assumes "registry_inv m" "register_items items m = (e, m1)"
  shows "registry_inv m1
    \<and> m1 = m\<lparr>m_components := m_components m @ accepted (dom (m_componentIndex m)) items,
             m_componentIndex := m_componentIndex m1\<rparr>
    \<and> (e = None \<longleftrightarrow> map Some (accepted (dom (m_componentIndex m)) items) = items)"
  using assms
proof (induction items m rule: register_items.induct)
  case (1 m)
  then show ?case by simp
next
  case (2 items m)
  then show ?case by auto
next
  case (3 c items m)
  let ?n = "cname c"
  let ?m = "m\<lparr>m_components := m_components m @ [c], m_componentIndex := (m_componentIndex m)(?n \<mapsto> c)\<rparr>"
  show ?case
  proof (cases "?n = [] \<or> m_componentIndex m ?n \<noteq> None")
    case True
    with 3(2,3) show ?thesis by (auto simp: Let_def split: if_splits)
  next
    case False
    then have r: "register_items items ?m = (e, m1)" using 3(3) by (simp add: Let_def)
    have "registry_inv ?m" using registry_inv_add [OF 3(2)] False by simp
    from 3(1) [OF refl _ _ this r] False
    have ih: "registry_inv m1"
      "m1 = ?m\<lparr>m_components := m_components ?m @ accepted (dom (m_componentIndex ?m)) items,
              m_componentIndex := m_componentIndex m1\<rparr>"
      "e = None \<longleftrightarrow> map Some (accepted (dom (m_componentIndex ?m)) items) = items"
      by blast+
    have acc: "accepted (dom (m_componentIndex m)) (Some c # items)
        = c # accepted (insert ?n (dom (m_componentIndex m))) items"
      using False by (auto simp: dom_def)
    have dm: "dom (m_componentIndex ?m) = insert ?n (dom (m_componentIndex m))" by simp
    from ih show ?thesis unfolding acc dm by simp
  qed
qed

lemma registry_lookup:
  assumes "registry_inv m"
  shows "m_componentIndex m k = find (\<lambda>c. cname c = k) (m_components m)"
proof -
  have "map_of (map (\<lambda>c. (cname c, c)) cs) k = find (\<lambda>c. cname c = k) cs" for cs :: "('a, 'b, 'c) component list"
    by (induction cs) auto
  with assms show ?thesis by (simp add: registry_inv_def)
qed

lemma registry_lookup_iff:
  assumes "registry_inv m"
  shows "m_componentIndex m k = Some c \<longleftrightarrow> c \<in> set (m_components m) \<and> cname c = k"
proof -
  have d: "distinct (map cname (m_components m))" using assms by (simp add: registry_inv_def)
  have "find (\<lambda>c. cname c = k) cs = Some c \<longleftrightarrow> c \<in> set cs \<and> cname c = k"
    if "distinct (map cname cs)" for cs :: "('a, 'b, 'c) component list"
    using that by (induction cs) auto
  from this [OF d] show ?thesis unfolding registry_lookup [OF assms] .
qed

text \<open>
  C28: before the runtime has started, \<open>RegisterComponent\<close> adds the items one by one up to the
  first it refuses (a nil one, one with a blank name, one whose name is taken), and it returns
  an error exactly when it refused one, keeping the components added before it; afterwards a
  component is found under every spelling of its name that trims to it, and nothing else is.
  After the start it refuses everything.
\<close>

theorem RegisterComponent_exact:
  assumes "registry_inv m" and "RegisterComponent items m = (e, m1)"
  shows "(if m_state m \<in> {StateUnset, StateNew}
          then m_components m1 = m_components m @ accepted (dom (m_componentIndex m)) items
            \<and> (e = None \<longleftrightarrow> map Some (accepted (dom (m_componentIndex m)) items) = items)
          else e = Some ErrRuntimeStarted \<and> m1 = m)
    \<and> registry_inv m1
    \<and> (GetComponent (Some m1) name = Some c \<longleftrightarrow>
         c \<in> set (m_components m1) \<and> normalizeComponentName (component_Name c) = normalizeComponentName name)"
proof (cases "m_state m \<in> {StateUnset, StateNew}")
  case True
  then have "register_items items m = (e, m1)" using assms(2) by (auto simp: RegisterComponent_def)
  from register_items_accepted [OF assms(1) this]
  have r: "registry_inv m1" "m_components m1 = m_components m @ accepted (dom (m_componentIndex m)) items"
    "e = None \<longleftrightarrow> map Some (accepted (dom (m_componentIndex m)) items) = items"
    by (simp, metis mesa.select_convs(7) mesa.surjective mesa.update_convs(7,8), blast)
  show ?thesis
    using True r registry_lookup_iff [OF r(1), of "normalizeComponentName name" c] by (simp add: GetComponent_def)
next
  case False
  with assms registry_lookup_iff [OF assms(1), of "normalizeComponentName name" c] show ?thesis
    by (auto simp: RegisterComponent_def GetComponent_def)
qed

text \<open>A list with a duplicate: the first two are registered, the fourth is not.\<close>

definition plain_mesa :: "(nat, nat, nat) mesa" where
  "plain_mesa = initial_mesa zero_options \<lparr>tr_tracerProvider = False, tr_ratio = Fin 0\<rparr>"

lemma RegisterComponent_exact_witness:
  "\<exists>e m1. RegisterComponent [Some (UserComponent ''a'' 1), Some (UserComponent ''b'' 2),
        Some (UserComponent '' a '' 3), Some (UserComponent ''c'' 4)] plain_mesa = (Some e, m1)
     \<and> m_components m1 = [UserComponent ''a'' 1, UserComponent ''b'' 2]"
proof -
  let ?items = "[Some (UserComponent ''a'' 1), Some (UserComponent ''b'' 2),
        Some (UserComponent '' a '' 3), Some (UserComponent ''c'' 4)] :: (nat, nat, nat) component option list"
  obtain e m1 where r: "RegisterComponent ?items plain_mesa = (e, m1)" by (rule prod.exhaust)
  have i: "registry_inv plain_mesa" by (simp add: registry_inv_def plain_mesa_def initial_mesa_def)
  have n: "normalizeComponentName ''a'' = ''a''" "normalizeComponentName ''b'' = ''b''"
    "normalizeComponentName '' a '' = ''a''" by code_simp+
  have acc: "accepted (dom (m_componentIndex plain_mesa)) ?items = [UserComponent ''a'' 1, UserComponent ''b'' 2]"
    by (simp add: plain_mesa_def initial_mesa_def n)
  have s: "m_state plain_mesa = StateNew" by (simp add: plain_mesa_def initial_mesa_def)
  have em: "m_components plain_mesa = []" by (simp add: plain_mesa_def initial_mesa_def)
  from RegisterComponent_exact [OF i r, of "''q''" "UserComponent ''a'' 1"]
  have "m_components m1 = [UserComponent ''a'' 1, UserComponent ''b'' 2]"
    and "e = None \<longleftrightarrow> map Some [UserComponent ''a'' 1, UserComponent ''b'' 2] = ?items"
    unfolding acc s em by auto
  then show ?thesis using r by (cases e) simp_all
qed


subsection \<open>Resources\<close>

lemma register_items_frame:
  "register_items items m = (e, m1) \<Longrightarrow>
     m1 = m\<lparr>m_components := m_components m1, m_componentIndex := m_componentIndex m1\<rparr>"
proof (induction items m arbitrary: m1 rule: register_items.induct)
  case (3 c items m)
  then show ?case by (auto simp: Let_def split: if_splits)
qed auto

lemma RegisterComponent_frame:
  "RegisterComponent items m = (e, m1) \<Longrightarrow>
     m1 = m\<lparr>m_components := m_components m1, m_componentIndex := m_componentIndex m1\<rparr>"
  by (auto simp: RegisterComponent_def dest: register_items_frame split: if_splits)

lemma held_components [simp]: "held (m\<lparr>m_components := cs, m_componentIndex := ix\<rparr>) = held m"
  by (simp add: held_def)

lemma register_pubsub_frame:
  assumes "register_pubsub env m lg = (e, m1, lg1)"
  shows "m1 = m\<lparr>m_components := m_components m1, m_componentIndex := m_componentIndex m1\<rparr>"
proof (cases "m_Redis m = None")
  case False
  obtain e0 m0 where "RegisterComponent [Some (PubSubComponent (fst (construct_pubsub env (m_Redis m)
      (build_pubsub_options (cc_PubSub (mo_components (m_opts m))) @ [P_WithTelemetry (Some 0) (Some 0)]) lg)))] m = (e0, m0)"
    by (rule prod.exhaust)
  with assms False RegisterComponent_frame [OF this] show ?thesis
    by (auto simp: register_pubsub_def Let_def split: prod.splits)
qed (use assms in \<open>simp add: register_pubsub_def\<close>)

lemma register_reminder_frame:
  assumes "register_reminder m lg = (e, m1, lg1)"
  shows "m1 = m\<lparr>m_components := m_components m1, m_componentIndex := m_componentIndex m1\<rparr>"
proof (cases "m_DB m = None \<or> rcf_Notifier (cc_Reminder (mo_components (m_opts m))) = None")
  case False
  obtain e0 m0 where "RegisterComponent [Some (ReminderComponent (fst (construct_reminder (m_DB m)
      (rcf_Notifier (cc_Reminder (mo_components (m_opts m))))
      (build_reminder_options (cc_Reminder (mo_components (m_opts m))) @ [R_WithTelemetry (Some 0) (Some 0)]) lg)))] m
      = (e0, m0)"
    by (rule prod.exhaust)
  with assms False RegisterComponent_frame [OF this] show ?thesis
    by (auto simp: register_reminder_def Let_def split: prod.splits)
qed (use assms in \<open>auto simp: register_reminder_def Let_def split: if_splits\<close>)

lemma registerDefault_frame:
  assumes "registerDefaultComponents env m lg = (e, m1, lg1)"
  shows "m1 = m\<lparr>m_components := m_components m1, m_componentIndex := m_componentIndex m1\<rparr>"
proof -
  let ?cc = "mo_components (m_opts m)"
  obtain e0 m0 l0 where p: "(if pcf_Enabled (cc_PubSub ?cc) then register_pubsub env m lg else (None, m, lg)) = (e0, m0, l0)"
    by (rule prod_cases3)
  then have m0: "m0 = m\<lparr>m_components := m_components m0, m_componentIndex := m_componentIndex m0\<rparr>"
    by (auto split: if_splits dest: register_pubsub_frame)
  obtain e2 m2 l2 where r: "(if rcf_Enabled (cc_Reminder ?cc) then register_reminder m0 l0 else (None, m0, l0)) = (e2, m2, l2)"
    by (rule prod_cases3)
  then have m2: "m2 = m0\<lparr>m_components := m_components m2, m_componentIndex := m_componentIndex m2\<rparr>"
    by (auto split: if_splits dest: register_reminder_frame)
  have "m1 = m0 \<or> m1 = m2"
    using assms p r by (auto simp: registerDefaultComponents_def Let_def split: option.splits)
  then show ?thesis
  proof
    assume "m1 = m0"
    with m0 show ?thesis by simp
  next
    assume "m1 = m2"
    from m2 have "m2 = (m\<lparr>m_components := m_components m0, m_componentIndex := m_componentIndex m0\<rparr>)
        \<lparr>m_components := m_components m2, m_componentIndex := m_componentIndex m2\<rparr>"
      using m0 by metis
    with \<open>m1 = m2\<close> show ?thesis by simp
  qed
qed

text \<open>The path of \<open>telemetry.New\<close> that leaves the exporter of OpenTelemetry open.\<close>

definition exporter_left :: "('d, 'r) mesa_env \<Rightarrow> mesa_options \<Rightarrow> bool" where
  "exporter_left env mo \<longleftrightarrow>
     tc_Enabled (mo_Telemetry mo) \<and> telemetry_complete (mo_Telemetry mo)
     \<and> env_exporter env = None \<and> env_resource env \<noteq> None"

lemma telemetry_New_left:
  "telemetry_New (env_exporter env) (env_resource env) (mo_Telemetry mo) h = (Inl e, h') \<Longrightarrow>
   h' = h + (if exporter_left env mo then {#HExporter#} else {#})"
  by (auto simp: telemetry_New_def exporter_left_def telemetry_complete_def Let_def split: if_splits option.splits)

lemma telemetry_New_not_left:
  "telemetry_New (env_exporter env) (env_resource env) (mo_Telemetry mo) h = (Inr tr, h') \<Longrightarrow> \<not> exporter_left env mo"
  by (auto simp: telemetry_New_def exporter_left_def telemetry_complete_def Let_def split: if_splits option.splits)

lemma initLogger_frame [simp]: "p_open (initLogger mo p) = p_open p" "p_mesa (initLogger mo p) = p_mesa p"
  by (simp_all add: initLogger_def split: prod.splits)

text \<open>The errors of the registration of the default components.\<close>

definition registering :: "error \<Rightarrow> bool" where
  "registering e \<longleftrightarrow>
     (\<exists>x. e = Wrap ''register default component pubsub: '' x [] \<or> e = Wrap ''register default component reminder: '' x [])"

lemma connect_all_registering:
  "connect_all env m op0 = (Some (Fails e), m1, op1) \<Longrightarrow> \<not> registering e"
  by (auto simp: connect_all_def then_phase_def connect_db_def connect_redis_def connect_etcd_def make_servers_def
      registering_def ErrEtcdNotConfigured_def Let_def split: if_splits sum.splits option.splits prod.splits stop.splits)

lemma registerDefault_registering:
  "registerDefaultComponents env m lg = (Some e, m1, lg1) \<Longrightarrow> registering e"
  by (auto simp: registerDefaultComponents_def registering_def Let_def split: option.splits prod.splits)

text \<open>
  C26: what \<open>New\<close> leaves open.  When it succeeds, the process holds in addition exactly what the
  new runtime has a field for and the registry client of its micro server, and the runtime is the
  global one.  When it returns an error, at whatever step, everything it had opened is closed again
  and the global runtime is the one of before, with two exceptions: a failure of \<open>resource.New\<close> in
  \<open>telemetry.New\<close> leaves the exporter open, and when a default component cannot be registered the
  registry client stays open.  It panics only where the driver panics on the DSN, and then the exporter
  stays open if telemetry is on.
\<close>

theorem New_releases:
  "let mo = named_telemetry (settings opts) in
   case New env opts p of
     (Inr m, p') \<Rightarrow> p_open p' = p_open p + held m + registry_of env mo \<and> p_mesa p' = Some m
   | (Inl (Fails e), p') \<Rightarrow>
       p_open p' = p_open p + (if exporter_left env mo then {#HExporter#} else {#})
         + (if registering e then registry_of env mo else {#})
       \<and> p_mesa p' = p_mesa p
   | (Inl (Panics msg), p') \<Rightarrow>
       mo_dsn mo \<noteq> [] \<and> env_db env (mo_dsn mo) = Inl (Panics msg)
       \<and> p_open p' = p_open p + (if tc_Enabled (mo_Telemetry mo) then {#HExporter#} else {#})
       \<and> p_mesa p' = p_mesa p"
proof -
  let ?mo = "named_telemetry (settings opts)" and ?p = "initLogger (settings opts) p"
  obtain t op1 where t: "telemetry_New (env_exporter env) (env_resource env) (mo_Telemetry ?mo) (p_open p) = (t, op1)"
    by (rule prod.exhaust)
  show ?thesis
  proof (cases t)
    case (Inl e)
    have "\<not> registering (Wrap ''initialize telemetry: '' e [])" by (simp add: registering_def)
    with t telemetry_New_left [OF t [unfolded Inl]] Inl show ?thesis by (simp add: New_def Let_def)
  next
    case (Inr tr)
    let ?m0 = "initial_mesa ?mo tr :: ('a, 'b, 'c) mesa"
    have nl: "\<not> exporter_left env ?mo" by (rule telemetry_New_not_left [OF t [unfolded Inr]])
    have op1: "op1 = p_open p + held ?m0"
      using telemetry_New_Inr(1) [OF t [unfolded Inr]] by (simp add: held_def initial_mesa_def)
    have tel: "held ?m0 = (if tc_Enabled (mo_Telemetry ?mo) then {#HExporter#} else {#})"
      using t Inr by (auto simp: held_def initial_mesa_def telemetry_New_def Let_def split: if_splits option.splits)
    have mo: "m_opts ?m0 = ?mo" by (simp add: initial_mesa_def)
    obtain e m op2 where c: "connect_all env ?m0 op1 = (e, m, op2)" by (rule prod_cases3)
    have pre: "no_conn ?m0" by (simp add: no_conn_def initial_mesa_def)
    consider (fails) x where "e = Some (Fails x)" | (panics) msg where "e = Some (Panics msg)" | (none) "e = None"
      by (metis option.exhaust stop.exhaust)
    then show ?thesis
    proof cases
      case fails
      with connect_all_stops [OF pre] c op1 have "op2 = p_open p" by blast
      with t Inr c fails nl connect_all_registering [OF c [unfolded fails]] show ?thesis by (simp add: New_def Let_def)
    next
      case panics
      from connect_all_panics [OF c [unfolded panics]] t Inr c panics op1 tel mo show ?thesis by (simp add: New_def Let_def)
    next
      case none
      with connect_all_goes_on [OF pre, of env "p_open p" m op2] c op1 mo
      have "op2 = p_open p + held m + registry_of env ?mo" by simp
      then have op2: "op2 = p_open p + registry_of env ?mo + held m" by (simp only: ac_simps)
      obtain e1 m1 lg where r: "registerDefaultComponents env m (p_log ?p) = (e1, m1, lg)" by (rule prod_cases3)
      have hm: "held m1 = held m" using registerDefault_frame [OF r] held_components by metis
      obtain e2 m2 op3 where cl: "closeResources env m1 op2 = (e2, m2, op3)" by (rule prod_cases3)
      then have "closeResources env m1 (p_open p + registry_of env ?mo + held m1) = (e2, m2, op3)" unfolding op2 hm .
      then have "shutdown_telemetry env m2 op3 = p_open p + registry_of env ?mo" by (rule close_all_released)
      moreover have "registering x" if "e1 = Some x" for x by (rule registerDefault_registering [OF r [unfolded that]])
      ultimately show ?thesis using t Inr c none r cl nl hm op2
        by (cases e1) (simp_all add: New_def Let_def)
    qed
  qed
qed

end
