(* ===== verification/MesaAccepted.thy ===== *)
theory MesaAccepted
  imports MesaNewProps
begin

text \<open>
  From an accepted configuration to a runtime: the chain \<open>Validate\<close>, \<open>Options\<close>, \<open>New\<close> and
  the constructors of the default components, when everything can be reached.
\<close>

subsection \<open>Names of the default components\<close>

definition pubsub_name :: "components_config \<Rightarrow> string" where
  "pubsub_name cc = po_name (fold apply_pubsub_option (build_pubsub_options (cc_PubSub cc)) pubsub_defaultOptions)"

definition reminder_name :: "components_config \<Rightarrow> string" where
  "reminder_name cc = ro_name (fold apply_reminder_option (build_reminder_options (cc_Reminder cc)) reminder_defaultOptions)"

text \<open>The registered names of the enabled default components, in order.\<close>

definition default_names :: "components_config \<Rightarrow> string list" where
  "default_names cc =
     (if pcf_Enabled (cc_PubSub cc) then [normalizeComponentName (pubsub_name cc)] else [])
     @ (if rcf_Enabled (cc_Reminder cc) then [normalizeComponentName (reminder_name cc)] else [])"

text \<open>Names of pub/sub services are trimmed and not empty; those of reminder services need not be.\<close>

definition name_trimmed :: "pubsub_options \<Rightarrow> bool" where
  "name_trimmed po \<longleftrightarrow> po_name po \<noteq> [] \<and> TrimSpace (po_name po) = po_name po"

lemma name_trimmed_step: "name_trimmed po \<Longrightarrow> name_trimmed (apply_pubsub_option p po)"
  by (cases p) (auto simp: name_trimmed_def split: option.splits)

interpretation pubsub_naming: option_family apply_pubsub_option name_trimmed
  by unfold_locales (rule name_trimmed_step)

lemma pubsub_name_ok: "normalizeComponentName (pubsub_name cc) = pubsub_name cc" "pubsub_name cc \<noteq> []"
proof -
  have "TrimSpace ''pubsub'' = ''pubsub''" by code_simp
  then have "name_trimmed pubsub_defaultOptions" by (simp add: name_trimmed_def pubsub_defaultOptions_def)
  then have "name_trimmed (fold apply_pubsub_option (build_pubsub_options (cc_PubSub cc)) pubsub_defaultOptions)"
    by (rule pubsub_naming.apply_all_good)
  then show "normalizeComponentName (pubsub_name cc) = pubsub_name cc" "pubsub_name cc \<noteq> []"
    by (simp_all add: pubsub_name_def name_trimmed_def normalizeComponentName_def)
qed

lemma construct_pubsub_name:
  "construct_pubsub env rdb (build_pubsub_options (cc_PubSub cc) @ [P_WithTelemetry t ms]) lg = (svc, lg1) \<Longrightarrow>
   component_Name (PubSubComponent svc) = pubsub_name cc"
  by (auto simp: construct_pubsub_def Let_def pubsub_NewService_def pubsub_name_def)

lemma construct_reminder_name:
  "construct_reminder db n (build_reminder_options (cc_Reminder cc) @ [R_WithTelemetry t ms]) lg = (svc, lg1) \<Longrightarrow>
   component_Name (ReminderComponent svc) = reminder_name cc"
  by (auto simp: construct_reminder_def Let_def reminder_NewService_def reminder_name_def)

subsection \<open>Registering them\<close>

text \<open>Registering one component, by its name.\<close>

lemma RegisterComponent_one:
  assumes "m_state m = StateNew"
  shows "RegisterComponent [Some c] m =
    (if cname c = [] then (Some (Errs ''component name is empty''), m)
     else if m_componentIndex m (cname c) \<noteq> None then (Some (Wrap [] ErrComponentExists ('': '' @ cname c)), m)
     else (None, m\<lparr>m_components := m_components m @ [c], m_componentIndex := (m_componentIndex m)(cname c \<mapsto> c)\<rparr>))"
  using assms by (simp add: RegisterComponent_def Let_def)

text \<open>What a failed registration says about the names.\<close>

definition name_error :: "error \<Rightarrow> bool" where
  "name_error e \<longleftrightarrow> errors_Is e ErrComponentExists \<or> errors_Is e (Errs ''component name is empty'')"

lemma pubsub_registered:
  fixes m m1 :: "('d, 'r, 'h) mesa"
  assumes m: "m_state m = StateNew" "m_components m = []" "m_componentIndex m = Map.empty"
    and cc: "mo_components (m_opts m) = cc"
    and ps: "pcf_Enabled (cc_PubSub cc) \<Longrightarrow> m_Redis m \<noteq> None"
    and p: "(if pcf_Enabled (cc_PubSub cc) then register_pubsub env m lg else (None, m, lg)) = (e1, m1, lg1)"
  shows "e1 = None" "map cname (m_components m1) = (if pcf_Enabled (cc_PubSub cc) then [pubsub_name cc] else [])"
    "dom (m_componentIndex m1) = (if pcf_Enabled (cc_PubSub cc) then {pubsub_name cc} else {})"
    "m_state m1 = StateNew" "m_DB m1 = m_DB m" "m_opts m1 = m_opts m"
proof -
  obtain svc :: "('r, 'h) pubsub_service" and lg' where c: "construct_pubsub env (m_Redis m) (build_pubsub_options (cc_PubSub cc) @ [P_WithTelemetry (Some 0) (Some 0)]) lg
      = (svc, lg')" by (rule prod.exhaust)
  from construct_pubsub_name [OF c] pubsub_name_ok [of cc]
  have n: "cname (PubSubComponent svc :: ('d, 'r, 'h) component) = pubsub_name cc" by simp
  have "register_pubsub env m lg = (None, m\<lparr>m_components := [PubSubComponent svc],
      m_componentIndex := [pubsub_name cc \<mapsto> PubSubComponent svc]\<rparr>, lg')" if "pcf_Enabled (cc_PubSub cc)"
    unfolding register_pubsub_def Let_def cc c case_prod_conv RegisterComponent_one [OF m(1)] n
    using ps [OF that] pubsub_name_ok(2) [of cc] m by simp
  with p n m show "e1 = None" "map cname (m_components m1) = (if pcf_Enabled (cc_PubSub cc) then [pubsub_name cc] else [])"
    "dom (m_componentIndex m1) = (if pcf_Enabled (cc_PubSub cc) then {pubsub_name cc} else {})"
    "m_state m1 = StateNew" "m_DB m1 = m_DB m" "m_opts m1 = m_opts m"
    by (auto split: if_splits)
qed

lemma reminder_registered:
  fixes m1 m3 :: "('d, 'r, 'h) mesa"
  assumes m1: "m_state m1 = StateNew" and ds: "m_DB m1 = m_DB m" "mo_components (m_opts m1) = cc"
    and rm: "rcf_Enabled (cc_Reminder cc) \<Longrightarrow> m_DB m \<noteq> None \<and> rcf_Notifier (cc_Reminder cc) \<noteq> None"
    and rr: "(if rcf_Enabled (cc_Reminder cc) then register_reminder m1 lg1 else (None, m1, lg1)) = (e3, m3, lg3)"
  defines "rn \<equiv> normalizeComponentName (reminder_name cc)"
  shows "if rcf_Enabled (cc_Reminder cc) \<and> (rn = [] \<or> rn \<in> dom (m_componentIndex m1))
      then \<exists>x. e3 = Some x \<and> name_error x
      else e3 = None \<and> map cname (m_components m3)
        = map cname (m_components m1) @ (if rcf_Enabled (cc_Reminder cc) then [rn] else [])"
proof -
  obtain svc :: "('d, nat) reminder_service" and lg' where c: "construct_reminder (m_DB m) (rcf_Notifier (cc_Reminder cc))
      (build_reminder_options (cc_Reminder cc) @ [R_WithTelemetry (Some 0) (Some 0)]) lg1 = (svc, lg')"
    by (rule prod.exhaust)
  from construct_reminder_name [OF c]
  have n: "component_Name (ReminderComponent svc :: ('d, 'r, 'h) component) = reminder_name cc" by simp
  have "register_reminder m1 lg1 =
      (if rn = [] then (Some (Errs ''component name is empty''), m1, lg')
       else if rn \<in> dom (m_componentIndex m1) then (Some (Wrap [] ErrComponentExists ('': '' @ rn)), m1, lg')
       else (None, m1\<lparr>m_components := m_components m1 @ [ReminderComponent svc],
               m_componentIndex := (m_componentIndex m1)(rn \<mapsto> ReminderComponent svc)\<rparr>, lg'))"
    if "rcf_Enabled (cc_Reminder cc)"
    unfolding rn_def register_reminder_def Let_def ds c case_prod_conv RegisterComponent_one [OF m1] n
    using rm [OF that] by auto
  then show ?thesis
    using rr n by (auto simp: rn_def name_error_def split: if_splits)
qed

lemma registerDefault_names:
  fixes m m2 :: "('d, 'r, 'h) mesa"
  assumes m: "m_state m = StateNew" "m_components m = []" "m_componentIndex m = Map.empty"
    and cc: "mo_components (m_opts m) = cc"
    and ps: "pcf_Enabled (cc_PubSub cc) \<Longrightarrow> m_Redis m \<noteq> None"
    and rm: "rcf_Enabled (cc_Reminder cc) \<Longrightarrow> m_DB m \<noteq> None \<and> rcf_Notifier (cc_Reminder cc) \<noteq> None"
    and r: "registerDefaultComponents env m lg = (e, m2, lg2)"
  shows "if distinct (default_names cc) \<and> [] \<notin> set (default_names cc)
         then e = None \<and> map cname (m_components m2) = default_names cc
         else \<exists>x. e = Some x \<and> name_error x"
proof -
  let ?pn = "pubsub_name cc" and ?rn = "normalizeComponentName (reminder_name cc)"
  obtain e1 m1 lg1 where p: "(if pcf_Enabled (cc_PubSub cc) then register_pubsub env m lg else (None, m, lg)) = (e1, m1, lg1)"
    by (rule prod_cases3)
  obtain e3 m3 lg3 where rr: "(if rcf_Enabled (cc_Reminder cc) then register_reminder m1 lg1 else (None, m1, lg1)) = (e3, m3, lg3)"
    by (rule prod_cases3)
  note first = pubsub_registered [OF m cc ps p]
  have second: "if rcf_Enabled (cc_Reminder cc) \<and> (?rn = [] \<or> ?rn \<in> dom (m_componentIndex m1))
      then \<exists>x. e3 = Some x \<and> name_error x
      else e3 = None \<and> map cname (m_components m3)
        = map cname (m_components m1) @ (if rcf_Enabled (cc_Reminder cc) then [?rn] else [])"
    using first(6) cc by (intro reminder_registered [OF first(4,5) _ rm rr]) simp_all
  have r': "registerDefaultComponents env m lg =
      (case e3 of None \<Rightarrow> (None, m3, lg3) | Some x \<Rightarrow> (Some (Wrap ''register default component reminder: '' x []), m3, lg3))"
    using p rr first(1) by (simp add: registerDefaultComponents_def Let_def cc split: option.splits)
  have dn: "distinct (default_names cc) \<and> [] \<notin> set (default_names cc) \<longleftrightarrow>
      \<not> (rcf_Enabled (cc_Reminder cc) \<and> (?rn = [] \<or> ?rn \<in> dom (m_componentIndex m1)))"
    using pubsub_name_ok [of cc] first(3) by (auto simp: default_names_def)
  have wrap: "name_error (Wrap a x b)" if "name_error x" for a x b
    using that by (auto simp: name_error_def)
  have names: "default_names cc = map cname (m_components m1) @ (if rcf_Enabled (cc_Reminder cc) then [?rn] else [])"
    using first(2) by (simp add: default_names_def pubsub_name_ok(1))
  show ?thesis
  proof (cases "rcf_Enabled (cc_Reminder cc) \<and> (?rn = [] \<or> ?rn \<in> dom (m_componentIndex m1))")
    case True
    with second obtain x where "e3 = Some x" "name_error x" by auto
    with r r' wrap have "\<exists>x. e = Some x \<and> name_error x" by auto
    with True dn show ?thesis by metis
  next
    case False
    with second have "e3 = None" "map cname (m_components m3) = default_names cc" unfolding names by auto
    with r r' have "e = None \<and> map cname (m_components m2) = default_names cc" by simp
    with False dn show ?thesis by metis
  qed
qed


subsection \<open>The whole chain\<close>

text \<open>The runtime \<open>connect_all\<close> makes when everything answers.\<close>

definition connected :: "mesa_options \<Rightarrow> telemetry_runtime \<Rightarrow> 'd pg \<Rightarrow> 'r redis \<Rightarrow> ('d, 'r, 'h) mesa" where
  "connected mo tr pg rd =
     (initial_mesa mo tr)
     \<lparr>m_DB := (if mo_dsn mo \<noteq> [] then Some pg else None),
      m_Redis := (if rc_Addr (mo_RedisConfig mo) \<noteq> [] then Some rd else None),
      m_etcdCtl := (ec_Endpoints (mo_EtcdConfig mo) \<noteq> []),
      m_servers := (if mo_HttpPort mo > 0 then [http_server mo] else []) @ mo_Servers mo\<rparr>"

lemma then_phase_None: "f m op0 = (None, m1, op1) \<Longrightarrow> then_phase f g m op0 = g m1 op1"
  by (simp add: then_phase_def)

lemma connect_all_ok:
  fixes env :: "('d, 'r) mesa_env"
  assumes "env_db env (mo_dsn mo) = Inr pg" "env_redis env (mo_RedisConfig mo) = Inr rd"
    "env_etcd env (mo_EtcdConfig mo) = None" "ss_Name (mo_serviceScheme mo) = []"
  shows "\<exists>op2. connect_all env (initial_mesa mo tr) op1 = (None, connected mo tr pg rd :: ('d, 'r, 'h) mesa, op2)"
proof -
  let ?m = "initial_mesa mo tr :: ('d, 'r, 'h) mesa"
  let ?m1 = "?m\<lparr>m_DB := (if mo_dsn mo \<noteq> [] then Some pg else None)\<rparr>"
  let ?m2 = "?m1\<lparr>m_Redis := (if rc_Addr (mo_RedisConfig mo) \<noteq> [] then Some rd else None)\<rparr>"
  let ?m3 = "?m2\<lparr>m_etcdCtl := (ec_Endpoints (mo_EtcdConfig mo) \<noteq> [])\<rparr>"
  have "\<exists>op2. connect_db env ?m op1 = (None, ?m1, op2)" for op1
    using assms(1) by (simp add: connect_db_def newDB_def initial_mesa_def Let_def)
  then obtain o1 where 1: "connect_db env ?m op1 = (None, ?m1, o1)" by blast
  have "\<exists>op2. connect_redis env ?m1 op1 = (None, ?m2, op2)" for op1
    using assms(2) by (simp add: connect_redis_def newRedis_def initial_mesa_def Let_def)
  then obtain o2 where 2: "connect_redis env ?m1 o1 = (None, ?m2, o2)" by blast
  have "\<exists>op2. connect_etcd env ?m2 op1 = (None, ?m3, op2)" for op1
    using assms(3) by (simp add: connect_etcd_def initial_mesa_def Let_def)
  then obtain o3 where 3: "connect_etcd env ?m2 o2 = (None, ?m3, o3)" by blast
  have "make_servers env ?m3 o3 = (None, connected mo tr pg rd, o3)"
    using assms(4) by (simp add: make_servers_def initial_mesa_def connected_def Let_def)
  then show ?thesis
    unfolding connect_all_def then_phase_None [of "connect_db env", OF 1] then_phase_None [of "connect_redis env", OF 2]
      then_phase_None [of "connect_etcd env", OF 3] by blast
qed

lemma named_telemetry_frame:
  "mo_dsn (named_telemetry mo) = mo_dsn mo" "mo_RedisConfig (named_telemetry mo) = mo_RedisConfig mo"
  "mo_EtcdConfig (named_telemetry mo) = mo_EtcdConfig mo" "mo_serviceScheme (named_telemetry mo) = mo_serviceScheme mo"
  "mo_components (named_telemetry mo) = mo_components mo" "mo_HttpPort (named_telemetry mo) = mo_HttpPort mo"
  "mo_Servers (named_telemetry mo) = mo_Servers mo"
  "telemetry_complete (mo_Telemetry mo) \<Longrightarrow> named_telemetry mo = mo"
  by (auto simp: named_telemetry_def telemetry_complete_def)

lemma http_server_limits: "http_server mo = HTTPServer ho \<Longrightarrow> http_limits_ok ho"
  using NewHTTPServer_ok by (auto simp: http_server_def Let_def)

text \<open>
  C27: from a configuration that \<open>Validate\<close> accepts, when every service can be reached (and the
  driver can parse the DSN, which \<open>Validate\<close> does not look at), \<open>New\<close>
  makes a runtime with exactly the enabled default components, under their names, with the
  connections that are configured, and with at most the HTTP server, whose limits are all
  positive: no missing dependency can show up after validation.  Only the names of the default
  components are not validated: \<open>New\<close> fails exactly when they clash or the one of the reminder
  service is blank, with the error that says so.
\<close>

theorem accepted_config_starts:
  fixes p :: "('d, 'r, 'h) process"
  assumes "range_order (timeouts (cf_HTTP c)) ord" "config_Options hostport ord c = Inr ps"
    and "env_exporter env = None" "env_resource env = None" "env_db env (cf_PostgresDSN c) = Inr pg"
    and "env_redis env (cf_Redis c) = Inr rd" "env_etcd env (cf_Etcd c) = None"
    and "names = default_names (mergeComponents zero_components (cf_Components c))"
  shows "case New env ps p of
      (Inr m, p') \<Rightarrow>
        distinct names \<and> [] \<notin> set names
        \<and> map (\<lambda>x. normalizeComponentName (component_Name x)) (m_components m) = names
        \<and> m_DB m = (if cf_PostgresDSN c \<noteq> [] then Some pg else None)
        \<and> m_Redis m = (if rc_Addr (cf_Redis c) \<noteq> [] then Some rd else None)
        \<and> (if 0 < hc_Port (cf_HTTP c) then \<exists>ho. m_servers m = [HTTPServer ho] \<and> http_limits_ok ho
           else m_servers m = [])
    | (Inl (Fails e), p') \<Rightarrow> \<not> (distinct names \<and> [] \<notin> set names) \<and> name_error e
    | (Inl (Panics msg), p') \<Rightarrow> False"
proof -
  note st = config_Options_Inr [OF assms(1,2)]
  let ?mo = "settings ps" and ?p = "initLogger (settings ps) p"
  have tc: "telemetry_complete (mo_Telemetry ?mo)" using st(1) by (simp add: startable_def)
  have nt: "named_telemetry ?mo = ?mo" by (rule named_telemetry_frame(8) [OF tc])
  obtain tr op1 where t: "telemetry_New (env_exporter env) (env_resource env) (mo_Telemetry ?mo) (p_open p) = (Inr tr, op1)"
    using telemetry_New_ok [of "mo_Telemetry ?mo" "p_open p"] tc assms(3,4) by auto
  obtain op2 where c: "connect_all env (initial_mesa ?mo tr :: ('d, 'r, 'h) mesa) op1 = (None, connected ?mo tr pg rd, op2)"
    using connect_all_ok [of env ?mo pg rd tr op1] assms(5-7) st by auto
  let ?m = "connected ?mo tr pg rd :: ('d, 'r, 'h) mesa"
  obtain e m2 lg where r: "registerDefaultComponents env ?m (p_log ?p) = (e, m2, lg)" by (rule prod_cases3)
  note fr = registerDefault_frame [OF r]
  have cc: "mo_components (m_opts ?m) = mo_components ?mo" by (simp add: connected_def initial_mesa_def)
  have "if distinct (default_names (mo_components ?mo)) \<and> [] \<notin> set (default_names (mo_components ?mo))
         then e = None \<and> map (\<lambda>x. normalizeComponentName (component_Name x)) (m_components m2) = default_names (mo_components ?mo)
         else \<exists>x. e = Some x \<and> name_error x"
    by (rule registerDefault_names [OF _ _ _ cc _ _ r])
      (use st in \<open>auto simp: connected_def initial_mesa_def startable_def\<close>)
  then have names: "if distinct names \<and> [] \<notin> set names
         then e = None \<and> map (\<lambda>x. normalizeComponentName (component_Name x)) (m_components m2) = names
         else \<exists>x. e = Some x \<and> name_error x"
    unfolding st assms(8) .
  obtain ho where ho: "http_server ?mo = HTTPServer ho" by (simp add: http_server_def Let_def)
  have db: "m_DB m2 = (if cf_PostgresDSN c \<noteq> [] then Some pg else None)"
    and rd: "m_Redis m2 = (if rc_Addr (cf_Redis c) \<noteq> [] then Some rd else None)"
    and sv: "m_servers m2 = (if hc_Port (cf_HTTP c) > 0 then [HTTPServer ho] else [])"
    by (subst fr, simp add: connected_def initial_mesa_def st ho)+
  have "fst (New env ps p) = (case e of Some x \<Rightarrow> Inl (Fails x) | None \<Rightarrow> Inr m2)"
    by (simp add: New_def Let_def nt t c r split: option.splits prod.splits)
  then obtain p' where new: "New env ps p = (case e of Some x \<Rightarrow> Inl (Fails x) | None \<Rightarrow> Inr m2, p')"
    by (cases "New env ps p") simp
  show ?thesis
  proof (cases e)
    case None
    with names have "distinct names \<and> [] \<notin> set names" "map (\<lambda>x. normalizeComponentName (component_Name x)) (m_components m2) = names"
      by (auto split: if_splits)
    with None db rd sv http_server_limits [OF ho] show ?thesis by (simp add: new)
  next
    case (Some x)
    with names have "\<not> (distinct names \<and> [] \<notin> set names)" "name_error x" by (auto split: if_splits)
    with Some show ?thesis by (simp add: new)
  qed
qed


text \<open>A configuration with both components and an HTTP server; PostgreSQL and Redis are the in-memory ones.\<close>

definition shop_config :: mesa_config where
  "shop_config = sample_config
     \<lparr>cf_PostgresDSN := ''postgres://db/shop'', cf_Redis := zero_redis\<lparr>rc_Addr := ''redis:6379''\<rparr>,
      cf_Components := \<lparr>cc_PubSub = zero_pubsub\<lparr>pcf_Enabled := True, pcf_Name := '' events ''\<rparr>,
                        cc_Reminder = zero_reminder\<lparr>rcf_Enabled := True, rcf_Notifier := Some 7\<rparr>\<rparr>\<rparr>"

definition mem_env :: "(memdb, memredis) mesa_env" where
  "mem_env =
     \<lparr>env_exporter = None, env_resource = None, env_tel_shutdown = None, env_db = (\<lambda>_. Inr mem_pg), env_db_close = None,
      env_redis = (\<lambda>_. Inr mem_redis), env_redis_close = None, env_etcd = (\<lambda>_. None),
      env_registry = (\<lambda>_. True), env_codec = mem_pc\<rparr>"

definition empty_process :: "('d, 'r, 'h) process" where
  "empty_process = \<lparr>p_open = {#}, p_log = \<lparr>lg_heap = [], lg_registry = Map.empty\<rparr>, p_logger = None, p_mesa = None\<rparr>"

lemma shop_config_accepted: "Validate (\<lambda>a. CHR '':'' \<in> set a) timeout_order shop_config = None"
proof -
  have "set timeout_order = dom (timeouts (cf_HTTP shop_config))"
    using timeout_order_ok by (simp add: range_order_def)
  note f = fields_filter [OF this, of "\<lambda>a. CHR '':'' \<in> set a"]
  have "filter (at_fault (\<lambda>a. CHR '':'' \<in> set a) shop_config) timeout_order = []"
    by (simp add: timeout_order_def at_fault_timeout dom_timeouts bad_timeout_def timeouts_def zero_http_def
        shop_config_def sample_config_def)
  moreover have "TrimSpace ''postgres://db/shop'' \<noteq> []" by code_simp
  ultimately have "fields_of (Validate (\<lambda>a. CHR '':'' \<in> set a) timeout_order shop_config) = []"
    unfolding f
    by (simp add: checked_fields_def at_fault_literals shop_config_def sample_config_def zero_telemetry_def ratio_bad_def
        zero_http_def zero_redis_def zero_etcd_def zero_pubsub_def zero_reminder_def)
  then show ?thesis using Validate_clean unfolding clean_def by blast
qed

lemma accepted_config_starts_witness:
  "\<exists>ps m p'. config_Options (\<lambda>a. CHR '':'' \<in> set a) timeout_order shop_config = Inr ps
     \<and> New mem_env ps (empty_process :: (memdb, memredis, nat) process) = (Inr m, p')
     \<and> map (\<lambda>x. normalizeComponentName (component_Name x)) (m_components m) = [''events'', ''reminder'']
     \<and> length (m_servers m) = 1"
proof -
  obtain ps where ps: "config_Options (\<lambda>a. CHR '':'' \<in> set a) timeout_order shop_config = Inr ps"
    using shop_config_accepted by (simp add: config_Options_def Let_def)
  let ?cc = "mergeComponents zero_components (cf_Components shop_config)"
  have n: "default_names ?cc = [''events'', ''reminder'']"
    unfolding shop_config_def sample_config_def by code_simp
  have db: "env_db mem_env (cf_PostgresDSN shop_config) = Inr mem_pg"
    and rd: "env_redis mem_env (cf_Redis shop_config) = Inr mem_redis"
    and others: "env_exporter mem_env = None" "env_resource mem_env = None"
      "env_etcd mem_env (cf_Etcd shop_config) = None"
    by (simp_all add: mem_env_def)
  have port: "hc_Port (cf_HTTP shop_config) = 8080" by (simp add: shop_config_def sample_config_def)
  obtain res p' where r: "New mem_env ps (empty_process :: (memdb, memredis, nat) process) = (res, p')"
    by (rule prod.exhaust)
  note t = accepted_config_starts [OF timeout_order_ok ps others(1,2) db rd others(3) refl,
      where p = "empty_process :: (memdb, memredis, nat) process"]
  from t obtain m where m: "res = Inr m" unfolding r n by (cases res) (auto split: stop.splits)
  with t have "map (\<lambda>x. normalizeComponentName (component_Name x)) (m_components m) = [''events'', ''reminder'']"
    and "length (m_servers m) = 1"
    unfolding r n port by auto
  with ps r [unfolded m] show ?thesis
    by (intro exI [of _ ps] exI [of _ m] exI [of _ p'] conjI)
qed

end
