(* ===== verification/MesaLifecycle.thy ===== *)
theory MesaLifecycle
  imports MesaRuntime
begin

text \<open>
  \<open>Run\<close>, \<open>Shutdown\<close> and the health checks of mesa.go.  Any number of goroutines call \<open>Run\<close> and
  \<open>Shutdown\<close>; each is a program counter, a critical section under \<open>runtimeMu\<close> is one step, and
  so is every call of a server, a component or a client.  What these calls return is the choice
  of the step.  Servers and components are of a type \<open>'i\<close>; \<open>stops x\<close> says whether \<open>x\<close> implements
  \<open>Stop\<close> and \<open>label x\<close> is its type or name as error messages print it.
\<close>

subsection \<open>State\<close>

text \<open>
  Where a goroutine is.  The flag of \<open>Shutdown\<close> says that its context is \<open>Background\<close>, which is
  never done.  \<open>Panicked\<close> is the panic of closing a closed channel.
\<close>

datatype 'i pc =
    Idle
  | RStart "'i list" "'i list" "'i list"
  | RRollback "'i list" error
  | RFinish error
  | RClose error
  | RWait
  | SEnter bool
  | SStop bool "'i list" "error option"
  | SClose "error option"
  | STel "error option"
  | SFinal "error option"
  | SWait bool
  | Returned "error option"
  | Panicked

text \<open>
  The runtime: its state, its servers and components, \<open>runtimeCancel\<close> (whether it is set, and
  whether the context is done), whether \<open>shutdownDone\<close> is closed, \<open>shutdownErr\<close>, and whether its
  clients and its telemetry are open.  For the statements only: the items started and those
  stopped, in order, whether a start failed, and whether a \<open>Shutdown\<close> gave up because its context
  was done.
\<close>

record 'i life =
  lf_state :: runtime_state
  lf_servers :: "'i list"
  lf_comps :: "'i list"
  lf_cancel :: "bool option"
  lf_done :: bool
  lf_err :: "error option"
  lf_conns :: bool
  lf_tel :: bool
  lf_pc :: "nat \<Rightarrow> 'i pc"
  lf_started :: "'i list"
  lf_stopped :: "'i list"
  lf_failed :: bool
  lf_gaveup :: bool

definition goto :: "nat \<Rightarrow> 'i pc \<Rightarrow> 'i life \<Rightarrow> 'i life" where
  "goto i p s = s\<lparr>lf_pc := (lf_pc s)(i := p)\<rparr>"

definition cancelled :: "'i life \<Rightarrow> bool option" where
  "cancelled s = (case lf_cancel s of None \<Rightarrow> None | Some _ \<Rightarrow> Some True)"

text \<open>The items of \<open>Shutdown\<close>: components, then servers, the last first.\<close>

definition shutdown_items :: "'i life \<Rightarrow> 'i list" where
  "shutdown_items s = rev (lf_comps s) @ rev (lf_servers s)"

subsection \<open>Steps\<close>

datatype life_event = LvRegister | LvCancel | LvStep nat | LvEarly nat

inductive life_step :: "('i \<Rightarrow> bool) \<Rightarrow> ('i \<Rightarrow> string) \<Rightarrow> 'i life \<Rightarrow> life_event \<Rightarrow> 'i life \<Rightarrow> bool"
  for stops label where
  register: "lf_state s \<in> {StateUnset, StateNew} \<Longrightarrow>
     life_step stops label s LvRegister (s\<lparr>lf_comps := lf_comps s @ [x]\<rparr>)"
| ctx_done: "lf_cancel s = Some False \<Longrightarrow>
     life_step stops label s LvCancel (s\<lparr>lf_cancel := Some True\<rparr>)"
| run_refused: "lf_pc s i = Idle \<Longrightarrow> lf_state s \<notin> {StateUnset, StateNew} \<Longrightarrow>
     life_step stops label s (LvStep i) (goto i (Returned (Some ErrRuntimeStarted)) s)"
| run_begin: "lf_pc s i = Idle \<Longrightarrow> lf_state s \<in> {StateUnset, StateNew} \<Longrightarrow>
     life_step stops label s (LvStep i)
       (goto i (RStart (lf_servers s) (lf_comps s) []) (s\<lparr>lf_state := StateStarting, lf_cancel := Some False\<rparr>))"
| server_ok: "lf_pc s i = RStart (x # ss) cs started \<Longrightarrow>
     life_step stops label s (LvStep i)
       (goto i (RStart ss cs (started @ [x])) (s\<lparr>lf_started := lf_started s @ [x]\<rparr>))"
| server_failed: "lf_pc s i = RStart (x # ss) cs started \<Longrightarrow>
     life_step stops label s (LvStep i)
       (goto i (RRollback started (Wrap (''start server type '' @ label x @ '': '') e []))
          (s\<lparr>lf_cancel := cancelled s, lf_failed := True\<rparr>))"
| comp_ok: "lf_pc s i = RStart [] (x # cs) started \<Longrightarrow>
     life_step stops label s (LvStep i)
       (goto i (RStart [] cs (started @ [x])) (s\<lparr>lf_started := lf_started s @ [x]\<rparr>))"
| comp_failed: "lf_pc s i = RStart [] (x # cs) started \<Longrightarrow>
     life_step stops label s (LvStep i)
       (goto i (RRollback started (Wrap (''start component '' @ label x @ '': '') e []))
          (s\<lparr>lf_cancel := cancelled s, lf_failed := True\<rparr>))"
| running: "lf_pc s i = RStart [] [] started \<Longrightarrow>
     life_step stops label s (LvStep i) (goto i RWait (s\<lparr>lf_state := StateRunning\<rparr>))"
| rollback: "lf_pc s i = RRollback (x # xs) e \<Longrightarrow>
     life_step stops label s (LvStep i)
       (goto i (RRollback xs e) (if stops x then s\<lparr>lf_stopped := lf_stopped s @ [x]\<rparr> else s))"
| rolled_back: "lf_pc s i = RRollback [] e \<Longrightarrow> life_step stops label s (LvStep i) (goto i (RFinish e) s)"
| finish_stopped: "lf_pc s i = RFinish e \<Longrightarrow>
     life_step stops label s (LvStep i) (goto i (RClose e) (s\<lparr>lf_state := StateStopped, lf_done := True\<rparr>))"
| run_failed: "lf_pc s i = RClose e \<Longrightarrow>
     life_step stops label s (LvStep i) (goto i (Returned (Some e)) (s\<lparr>lf_conns := False\<rparr>))"
| run_woken: "lf_pc s i = RWait \<Longrightarrow> lf_cancel s = Some True \<Longrightarrow>
     life_step stops label s (LvStep i) (goto i (SEnter True) s)"
| shutdown_call: "lf_pc s i = Idle \<Longrightarrow> life_step stops label s (LvStep i) (goto i (SEnter background) s)"
| shutdown_again: "lf_pc s i = SEnter background \<Longrightarrow> lf_state s = StateStopped \<Longrightarrow>
     life_step stops label s (LvStep i) (goto i (Returned (lf_err s)) s)"
| shutdown_joins: "lf_pc s i = SEnter background \<Longrightarrow> lf_state s = StateStopping \<Longrightarrow>
     life_step stops label s (LvStep i) (goto i (SWait background) s)"
| shutdown_begin: "lf_pc s i = SEnter background \<Longrightarrow> lf_state s \<notin> {StateStopped, StateStopping} \<Longrightarrow>
     life_step stops label s (if lf_state s = StateStarting then LvEarly i else LvStep i)
       (goto i (SStop background (shutdown_items s) None)
          (s\<lparr>lf_state := StateStopping, lf_cancel := cancelled s\<rparr>))"
| joined: "lf_pc s i = SWait background \<Longrightarrow> lf_done s \<Longrightarrow>
     life_step stops label s (LvStep i) (goto i (Returned (lf_err s)) s)"
| join_gave_up: "lf_pc s i = SWait False \<Longrightarrow>
     life_step stops label s (LvStep i) (goto i (Returned (Some e)) s)"
| stop_gave_up: "lf_pc s i = SStop False (x # xs) r \<Longrightarrow>
     life_step stops label s (LvStep i) (goto i (SClose (errors_Join r (Some e))) (s\<lparr>lf_gaveup := True\<rparr>))"
| stop_item: "lf_pc s i = SStop background (x # xs) r \<Longrightarrow> stops x \<Longrightarrow>
     life_step stops label s (LvStep i)
       (goto i (SStop background xs (errors_Join r res)) (s\<lparr>lf_stopped := lf_stopped s @ [x]\<rparr>))"
| skip_item: "lf_pc s i = SStop background (x # xs) r \<Longrightarrow> \<not> stops x \<Longrightarrow>
     life_step stops label s (LvStep i) (goto i (SStop background xs r) s)"
| all_stopped: "lf_pc s i = SStop background [] r \<Longrightarrow> life_step stops label s (LvStep i) (goto i (SClose r) s)"
| close_conns: "lf_pc s i = SClose r \<Longrightarrow>
     life_step stops label s (LvStep i) (goto i (STel (errors_Join r res)) (s\<lparr>lf_conns := False\<rparr>))"
| close_telemetry: "lf_pc s i = STel r \<Longrightarrow>
     life_step stops label s (LvStep i) (goto i (SFinal (errors_Join r res)) (s\<lparr>lf_tel := False\<rparr>))"
| shutdown_done: "lf_pc s i = SFinal r \<Longrightarrow> \<not> lf_done s \<Longrightarrow>
     life_step stops label s (LvStep i)
       (goto i (Returned r) (s\<lparr>lf_err := r, lf_state := StateStopped, lf_done := True\<rparr>))"
| shutdown_panics: "lf_pc s i = SFinal r \<Longrightarrow> lf_done s \<Longrightarrow>
     life_step stops label s (LvStep i) (goto i Panicked (s\<lparr>lf_err := r, lf_state := StateStopped\<rparr>))"

inductive_cases life_stepE: "life_step stops label s e t"

definition life_init :: "'i life \<Rightarrow> bool" where
  "life_init s \<longleftrightarrow>
     lf_state s = StateNew \<and> lf_cancel s = None \<and> \<not> lf_done s \<and> lf_err s = None
     \<and> lf_pc s = (\<lambda>_. Idle) \<and> lf_started s = [] \<and> lf_stopped s = [] \<and> \<not> lf_failed s \<and> \<not> lf_gaveup s"

text \<open>
  No \<open>Shutdown\<close> enters while \<open>Run\<close> is starting.  The code does not prevent it; see
  \<open>early_shutdown_panics\<close>.
\<close>

fun not_early :: "life_event \<Rightarrow> bool" where
  "not_early (LvEarly i) = False"
| "not_early e = True"

subsection \<open>Invariants\<close>

fun starting :: "'i pc \<Rightarrow> bool" where
  "starting (RStart ss cs st) = True"
| "starting (RRollback xs e) = True"
| "starting (RFinish e) = True"
| "starting p = False"

fun stopping :: "'i pc \<Rightarrow> bool" where
  "stopping (SStop b xs r) = True"
| "stopping (SClose r) = True"
| "stopping (STel r) = True"
| "stopping (SFinal r) = True"
| "stopping p = False"

text \<open>
  One goroutine at most works on the runtime, and which kind of work it does is the state: the
  one \<open>Run\<close> that starts, or the one \<open>Shutdown\<close> that stops.
\<close>

definition owner :: "('i pc \<Rightarrow> bool) \<Rightarrow> 'i life \<Rightarrow> bool \<Rightarrow> bool" where
  "owner busy s on \<longleftrightarrow>
     (if on then \<exists>i. busy (lf_pc s i) \<and> (\<forall>j. busy (lf_pc s j) \<longrightarrow> j = i) else \<forall>j. \<not> busy (lf_pc s j))"

definition owned :: "'i life \<Rightarrow> bool" where
  "owned s \<longleftrightarrow>
     owner starting s (lf_state s = StateStarting) \<and> owner stopping s (lf_state s = StateStopping)
     \<and> (lf_done s \<longleftrightarrow> lf_state s = StateStopped) \<and> (\<forall>i. lf_pc s i \<noteq> Panicked)"

lemma goto_simps [simp]:
  "lf_pc (goto i p s) = (lf_pc s)(i := p)" "lf_state (goto i p s) = lf_state s"
  "lf_servers (goto i p s) = lf_servers s" "lf_comps (goto i p s) = lf_comps s"
  "lf_cancel (goto i p s) = lf_cancel s" "lf_done (goto i p s) = lf_done s" "lf_err (goto i p s) = lf_err s"
  "lf_conns (goto i p s) = lf_conns s" "lf_tel (goto i p s) = lf_tel s" "lf_started (goto i p s) = lf_started s"
  "lf_stopped (goto i p s) = lf_stopped s" "lf_failed (goto i p s) = lf_failed s" "lf_gaveup (goto i p s) = lf_gaveup s"
  by (simp_all add: goto_def)

text \<open>
  How a move of one goroutine acts on ownership: the mover takes the work if its new place is busy,
  gives it up if its old place was, and else leaves it with whoever had it.
\<close>

lemma owner_iff:
  "owner busy s True \<longleftrightarrow> (\<exists>i. busy (lf_pc s i) \<and> (\<forall>j. busy (lf_pc s j) \<longrightarrow> j = i))"
  "owner busy s False \<longleftrightarrow> (\<forall>j. \<not> busy (lf_pc s j))"
  by (simp_all add: owner_def)

lemma owner_move:
  assumes o: "owner busy s on" and t: "lf_pc t = (lf_pc s)(i := p)" and e: "busy p \<Longrightarrow> on \<Longrightarrow> busy (lf_pc s i)"
  shows "owner busy t (busy p \<or> on \<and> \<not> busy (lf_pc s i))"
proof -
  have pcs: "lf_pc t j = (if j = i then p else lf_pc s j)" for j by (simp add: t)
  consider (busy) "busy p" "\<And>j. j \<noteq> i \<Longrightarrow> \<not> busy (lf_pc s j)"
    | (free) "\<not> busy p" "\<And>j. j \<noteq> i \<Longrightarrow> \<not> busy (lf_pc s j)" "\<not> (on \<and> \<not> busy (lf_pc s i))"
    | (other) k where "\<not> busy p" "on" "\<not> busy (lf_pc s i)" "busy (lf_pc s k)" "\<And>j. busy (lf_pc s j) \<Longrightarrow> j = k"
    using o e by (cases on) (simp_all only: owner_iff, metis+)
  then show ?thesis
  proof cases
    case busy
    then have "owner busy t True" unfolding owner_iff pcs by (intro exI [of _ i]) simp
    with busy(1) show ?thesis by simp
  next
    case free
    then have "owner busy t False" unfolding owner_iff pcs by simp
    moreover have eq: "(busy p \<or> on \<and> \<not> busy (lf_pc s i)) = False" using free(1,3) by blast
    ultimately show ?thesis unfolding eq by blast
  next
    case other
    have "k \<noteq> i" using other(3,4) by blast
    then have "busy (lf_pc t k)" unfolding pcs using other(4) by simp
    moreover have "j = k" if "busy (lf_pc t j)" for j
      using that other(1) other(5) [of j] unfolding pcs by (cases "j = i") simp_all
    ultimately have "owner busy t True" unfolding owner_iff by blast
    with other(2,3) show ?thesis by simp
  qed
qed

lemma owner_on: "owner busy s on \<Longrightarrow> busy (lf_pc s i) \<Longrightarrow> on"
  unfolding owner_def by (auto split: if_splits)

lemma owned_change:
  assumes "owned s" "lf_pc t = (lf_pc s)(i := p)" "p \<noteq> Panicked" "lf_done t \<longleftrightarrow> lf_state t = StateStopped"
    and "starting p \<Longrightarrow> lf_state s = StateStarting \<Longrightarrow> starting (lf_pc s i)"
    and "stopping p \<Longrightarrow> lf_state s = StateStopping \<Longrightarrow> stopping (lf_pc s i)"
    and "lf_state t = StateStarting \<longleftrightarrow> starting p \<or> lf_state s = StateStarting \<and> \<not> starting (lf_pc s i)"
    and "lf_state t = StateStopping \<longleftrightarrow> stopping p \<or> lf_state s = StateStopping \<and> \<not> stopping (lf_pc s i)"
  shows "owned t"
proof -
  have "owner starting s (lf_state s = StateStarting)" "owner stopping s (lf_state s = StateStopping)"
    "\<forall>j. lf_pc s j \<noteq> Panicked"
    using assms(1) by (simp_all add: owned_def)
  with owner_move [where busy = starting, OF _ assms(2)] owner_move [where busy = stopping, OF _ assms(2)] assms(2-8)
  show ?thesis by (simp add: owned_def)
qed

lemma owned_same:
  "owned s \<Longrightarrow> lf_state t = lf_state s \<Longrightarrow> lf_done t = lf_done s \<Longrightarrow> lf_pc t = lf_pc s \<Longrightarrow> owned t"
  by (simp add: owned_def owner_def)

lemma owned_state:
  assumes "owned s" "starting (lf_pc s i)"
  shows "lf_state s = StateStarting"
  using assms owner_on [of starting s "lf_state s = StateStarting" i] by (simp add: owned_def)

lemma owned_stopping:
  assumes "owned s" "stopping (lf_pc s i)"
  shows "lf_state s = StateStopping"
  using assms owner_on [of stopping s "lf_state s = StateStopping" i] by (simp add: owned_def)

text \<open>A move that keeps the state and both kinds of work.\<close>

lemma owned_goto:
  assumes "owned s" "lf_state t = lf_state s" "lf_done t = lf_done s" "lf_pc t = lf_pc s"
    "starting p \<longleftrightarrow> starting (lf_pc s i)" "stopping p \<longleftrightarrow> stopping (lf_pc s i)" "p \<noteq> Panicked"
  shows "owned (goto i p t)"
proof (rule owned_change [OF assms(1), where i = i and p = p])
  show "lf_state (goto i p t) = StateStarting \<longleftrightarrow> starting p \<or> lf_state s = StateStarting \<and> \<not> starting (lf_pc s i)"
    using owned_state [OF assms(1), of i] assms(2,5) by auto
  show "lf_state (goto i p t) = StateStopping \<longleftrightarrow> stopping p \<or> lf_state s = StateStopping \<and> \<not> stopping (lf_pc s i)"
    using owned_stopping [OF assms(1), of i] assms(2,6) by auto
qed (use assms in \<open>auto simp: owned_def\<close>)

lemma owned_step: "life_step stops label s e t \<Longrightarrow> owned s \<Longrightarrow> not_early e \<Longrightarrow> owned t"
proof (induction rule: life_step.induct)
  case (run_begin s i)
  then show ?case by (intro owned_change [OF run_begin(3), where i = i]) (auto simp: owned_def)
next
  case (running s i started)
  then show ?case using owned_state [OF running(2), of i]
    by (intro owned_change [OF running(2), where i = i]) (auto simp: owned_def)
next
  case (finish_stopped s i e)
  then show ?case using owned_state [OF finish_stopped(2), of i]
    by (intro owned_change [OF finish_stopped(2), where i = i]) auto
next
  case (shutdown_begin s i background)
  then show ?case
    by (intro owned_change [OF shutdown_begin(3), where i = i]) (auto simp: owned_def split: if_splits)
next
  case (shutdown_done s i r)
  then show ?case using owned_stopping [OF shutdown_done(3), of i]
    by (intro owned_change [OF shutdown_done(3), where i = i]) auto
next
  case (shutdown_panics s i r)
  have "lf_state s = StateStopping" using shutdown_panics owned_stopping [of s i] by simp
  with shutdown_panics show ?case by (simp add: owned_def)
qed ((erule owned_goto; simp) | (erule owned_same; simp))+

interpretation lifecycle: invariant_steps "life_step stops label" not_early owned
  by unfold_locales (rule owned_step)

lemma life_init_owned: "life_init s \<Longrightarrow> owned s"
  by (simp add: life_init_def owned_def owner_def)

end
