(* ===== verification/MesaLifecycleProps.thy ===== *)
theory MesaLifecycleProps
  imports MesaLifecycle "HOL-Library.Sublist"
begin

text \<open>
  What the life of a runtime guarantees: no panic, every item stopped once and in the right
  order, clients and telemetry closed, every call bounded; and the runs that break these.
\<close>

subsection \<open>What has been stopped\<close>

text \<open>How far the goroutine at work has come.\<close>

fun work :: "('i \<Rightarrow> bool) \<Rightarrow> 'i life \<Rightarrow> 'i pc \<Rightarrow> bool" where
  "work stops s (RStart ss cs st) \<longleftrightarrow>
     st = lf_started s \<and> lf_started s @ ss @ cs = lf_servers s @ lf_comps s \<and> lf_stopped s = []
     \<and> \<not> lf_failed s \<and> \<not> lf_gaveup s"
| "work stops s (RRollback xs e) \<longleftrightarrow>
     lf_failed s \<and> \<not> lf_gaveup s \<and> (\<exists>d. lf_started s = d @ xs \<and> lf_stopped s = filter stops d)"
| "work stops s (RFinish e) \<longleftrightarrow> lf_failed s \<and> \<not> lf_gaveup s \<and> lf_stopped s = filter stops (lf_started s)"
| "work stops s (SStop b xs r) \<longleftrightarrow>
     \<not> lf_failed s \<and> \<not> lf_gaveup s \<and> (\<exists>d. shutdown_items s = d @ xs \<and> lf_stopped s = filter stops d)"
| "work stops s (SClose r) \<longleftrightarrow>
     \<not> lf_failed s \<and> (lf_gaveup s \<or> lf_stopped s = filter stops (shutdown_items s))
     \<and> prefix (lf_stopped s) (filter stops (shutdown_items s))"
| "work stops s (STel r) \<longleftrightarrow>
     \<not> lf_failed s \<and> (lf_gaveup s \<or> lf_stopped s = filter stops (shutdown_items s))
     \<and> prefix (lf_stopped s) (filter stops (shutdown_items s)) \<and> \<not> lf_conns s"
| "work stops s (SFinal r) \<longleftrightarrow>
     \<not> lf_failed s \<and> (lf_gaveup s \<or> lf_stopped s = filter stops (shutdown_items s))
     \<and> prefix (lf_stopped s) (filter stops (shutdown_items s)) \<and> \<not> lf_conns s \<and> \<not> lf_tel s"
| "work stops s p \<longleftrightarrow> True"

text \<open>What the state says when nobody is at work.\<close>

definition resting :: "('i \<Rightarrow> bool) \<Rightarrow> 'i life \<Rightarrow> bool" where
  "resting stops s \<longleftrightarrow>
     (lf_state s \<in> {StateUnset, StateNew} \<longrightarrow>
        lf_started s = [] \<and> lf_stopped s = [] \<and> \<not> lf_failed s \<and> \<not> lf_gaveup s)
     \<and> (lf_state s = StateRunning \<longrightarrow>
          lf_started s = lf_servers s @ lf_comps s \<and> lf_stopped s = [] \<and> \<not> lf_failed s \<and> \<not> lf_gaveup s)
     \<and> (lf_state s = StateStopped \<longrightarrow>
          (if lf_failed s then \<not> lf_gaveup s \<and> lf_stopped s = filter stops (lf_started s)
           else (lf_gaveup s \<or> lf_stopped s = filter stops (shutdown_items s)) \<and> \<not> lf_conns s \<and> \<not> lf_tel s
             \<and> prefix (lf_stopped s) (filter stops (shutdown_items s)))
          \<and> (lf_conns s \<longrightarrow> (\<exists>i e. lf_pc s i = RClose e)))
     \<and> prefix (lf_started s) (lf_servers s @ lf_comps s)"

definition same_work :: "'i life \<Rightarrow> 'i life \<Rightarrow> bool" where
  "same_work s t \<longleftrightarrow>
     lf_servers t = lf_servers s \<and> lf_comps t = lf_comps s \<and> lf_started t = lf_started s
     \<and> lf_stopped t = lf_stopped s \<and> lf_failed t = lf_failed s \<and> lf_gaveup t = lf_gaveup s
     \<and> lf_conns t = lf_conns s \<and> lf_tel t = lf_tel s"

lemma work_same: "same_work s t \<Longrightarrow> work stops t p \<longleftrightarrow> work stops s p"
  by (cases p) (simp_all add: same_work_def shutdown_items_def)

lemma work_idle: "\<not> starting p \<Longrightarrow> \<not> stopping p \<Longrightarrow> work stops s p"
  by (cases p) simp_all

text \<open>At most one goroutine is at work.\<close>

lemma only_worker:
  assumes "owned s" "starting (lf_pc s i) \<or> stopping (lf_pc s i)" "j \<noteq> i"
  shows "\<not> starting (lf_pc s j)" "\<not> stopping (lf_pc s j)"
proof -
  have o: "owner starting s (lf_state s = StateStarting)" "owner stopping s (lf_state s = StateStopping)"
    using assms(1) by (simp_all add: owned_def)
  have uniq: "busy (lf_pc s i) \<Longrightarrow> busy (lf_pc s j) \<Longrightarrow> j = i" if "owner busy s on" for busy on
    using that unfolding owner_def by (cases on) auto
  have "\<not> (starting (lf_pc s k) \<and> stopping (lf_pc s l))" for k l
    using owned_state [OF assms(1), of k] owned_stopping [OF assms(1), of l] by auto
  then show "\<not> starting (lf_pc s j)" "\<not> stopping (lf_pc s j)"
    using assms(2,3) uniq [OF o(1)] uniq [OF o(2)] by blast+
qed

lemma no_worker:
  assumes "owned s" "lf_state s \<noteq> StateStarting" "lf_state s \<noteq> StateStopping"
  shows "\<not> starting (lf_pc s j)" "\<not> stopping (lf_pc s j)"
  using assms by (simp_all add: owned_def owner_def)

definition life_inv :: "('i \<Rightarrow> bool) \<Rightarrow> 'i life \<Rightarrow> bool" where
  "life_inv stops s \<longleftrightarrow> owned s \<and> (\<forall>i. work stops s (lf_pc s i)) \<and> resting stops s"

text \<open>
  A goroutine moves to \<open>p\<close>: either it is the one at work, or the move does no work.
\<close>

lemma work_goto:
  assumes "owned s" "\<forall>j. work stops s (lf_pc s j)" "lf_pc t = lf_pc s"
    and "starting (lf_pc s i) \<or> stopping (lf_pc s i) \<or> same_work s t"
    and "work stops t p"
  shows "\<forall>j. work stops (goto i p t) (lf_pc (goto i p t) j)"
proof
  fix j
  have g: "same_work t (goto i p t)" by (simp add: same_work_def)
  show "work stops (goto i p t) (lf_pc (goto i p t) j)"
  proof (cases "j = i")
    case True
    with assms(5) show ?thesis by (simp add: work_same [OF g])
  next
    case False
    show ?thesis
    proof (cases "same_work s t")
      case True
      with False assms(2,3) show ?thesis by (simp add: work_same [OF g] work_same [OF True])
    next
      case no: False
      with assms(4) have "starting (lf_pc s i) \<or> stopping (lf_pc s i)" by blast
      from only_worker [OF assms(1) this False] assms(3) False show ?thesis
        by (simp add: work_idle)
    qed
  qed
qed


text \<open>Items that are stopped one by one.\<close>

lemma shutdown_items_frame [simp]:
  "shutdown_items (s\<lparr>lf_stopped := xs\<rparr>) = shutdown_items s" "shutdown_items (s\<lparr>lf_gaveup := b\<rparr>) = shutdown_items s"
  "shutdown_items (s\<lparr>lf_conns := b\<rparr>) = shutdown_items s" "shutdown_items (s\<lparr>lf_tel := b\<rparr>) = shutdown_items s"
  "shutdown_items (s\<lparr>lf_cancel := c\<rparr>) = shutdown_items s" "shutdown_items (goto i p s) = shutdown_items s"
  by (simp_all add: shutdown_items_def)

lemma work_at: "\<forall>j. work stops s (lf_pc s j) \<Longrightarrow> lf_pc s i = p \<Longrightarrow> work stops s p"
  by metis

text \<open>The goroutine at work takes a step: what it has done is what it had done, with this step.\<close>

lemma work_advance:
  assumes "lf_pc s i = q" "owned s" "\<forall>j. work stops s (lf_pc s j)"
    and "starting q \<or> stopping q" "lf_pc t = lf_pc s" "work stops s q \<Longrightarrow> work stops t p"
  shows "\<forall>j. work stops (goto i p t) (lf_pc (goto i p t) j)"
  by (rule work_goto [OF assms(2,3,5)]) (use assms in auto)

lemma work_step: "life_step stops label s e t \<Longrightarrow> owned s \<Longrightarrow> not_early e \<Longrightarrow>
    \<forall>j. work stops s (lf_pc s j) \<Longrightarrow> resting stops s \<Longrightarrow> \<forall>j. work stops t (lf_pc t j)"
proof (induction rule: life_step.induct)
  case (register s x)
  then have "lf_state s \<noteq> StateStarting" "lf_state s \<noteq> StateStopping" by auto
  from no_worker [OF register(2) this] show ?case by (simp add: work_idle)
next
  case (ctx_done s)
  have "same_work s (s\<lparr>lf_cancel := Some True\<rparr>)" by (simp add: same_work_def)
  with ctx_done show ?case by (simp add: work_same)
next
  case (run_begin s i)
  show ?case
    by (rule work_goto [OF run_begin(3,5)]) (use run_begin in \<open>auto simp: same_work_def resting_def\<close>)
next
  case (rollback s i x xs e)
  show ?case by (rule work_advance [OF rollback(1,2,4)]) (auto intro: exI [of _ "_ @ [x]"])
next
  case (stop_item s i background x xs r res)
  show ?case by (rule work_advance [OF stop_item(1,3,5)]) (use stop_item(2) in \<open>auto intro: exI [of _ "_ @ [x]"]\<close>)
next
  case (skip_item s i background x xs r)
  show ?case by (rule work_advance [OF skip_item(1,3,5)]) (use skip_item(2) in \<open>auto intro: exI [of _ "_ @ [x]"]\<close>)
next
  case (run_failed s i e)
  have "work stops (goto i (Returned (Some e)) (s\<lparr>lf_conns := False\<rparr>)) p" if "work stops s p" for p
    using that by (cases p) (simp_all add: shutdown_items_def)
  with run_failed(4) show ?case by simp
next
  case (shutdown_begin s i background)
  have r: "lf_stopped s = [] \<and> \<not> lf_failed s \<and> \<not> lf_gaveup s"
    using shutdown_begin by (cases "lf_state s") (auto simp: resting_def split: if_splits)
  show ?case
    by (rule work_goto [OF shutdown_begin(3,5)])
      (use r in \<open>simp_all add: same_work_def shutdown_items_def exI [of _ "[]"]\<close>)
qed ((rule work_advance, assumption, assumption, assumption, simp, simp, fastforce)
    | (rule work_goto, assumption, assumption, simp, simp add: same_work_def, simp))+

lemma resting_goto:
  assumes "resting stops s" "same_work s t" "lf_state t = lf_state s" "lf_pc t = lf_pc s" "\<And>e. lf_pc s i \<noteq> RClose e"
  shows "resting stops (goto i p t)"
proof -
  have c: "(\<exists>j e. lf_pc s j = RClose e) \<Longrightarrow> (\<exists>j e. lf_pc (goto i p t) j = RClose e)"
  proof -
    assume "\<exists>j e. lf_pc s j = RClose e"
    then obtain j e where "lf_pc s j = RClose e" by blast
    with assms(4,5) show "\<exists>j e. lf_pc (goto i p t) j = RClose e" by (intro exI [of _ j] exI [of _ e]) auto
  qed
  have f: "lf_servers t = lf_servers s" "lf_comps t = lf_comps s" "lf_started t = lf_started s"
    "lf_stopped t = lf_stopped s" "lf_failed t = lf_failed s" "lf_gaveup t = lf_gaveup s"
    "lf_conns t = lf_conns s" "lf_tel t = lf_tel s" "shutdown_items t = shutdown_items s"
    using assms(2) by (simp_all add: same_work_def shutdown_items_def)
  show ?thesis
    using assms(1) c unfolding resting_def goto_simps(2-) shutdown_items_frame f assms(3) by argo
qed

text \<open>While somebody is at work only the order of the starts counts.\<close>

lemma resting_at_work:
  assumes "lf_pc s i = q" "owned s" "starting q \<or> stopping q" "lf_state t = lf_state s"
    and "prefix (lf_started t) (lf_servers t @ lf_comps t)"
  shows "resting stops (goto i p t)"
proof -
  have "lf_state s = StateStarting \<or> lf_state s = StateStopping"
    using owned_state [OF assms(2), of i] owned_stopping [OF assms(2), of i] assms(1,3) by auto
  with assms(4,5) show ?thesis by (auto simp: resting_def)
qed

lemma resting_prefix: "resting stops s \<Longrightarrow> prefix (lf_started s) (lf_servers s @ lf_comps s)"
  by (simp add: resting_def)

lemma resting_step: "life_step stops label s e t \<Longrightarrow> owned s \<Longrightarrow> not_early e \<Longrightarrow>
    \<forall>j. work stops s (lf_pc s j) \<Longrightarrow> resting stops s \<Longrightarrow> resting stops t"
proof (induction rule: life_step.induct)
  case (server_ok s i x ss cs st)
  from work_at [OF server_ok(4,1)] have "lf_servers s @ lf_comps s = (lf_started s @ [x]) @ ss @ cs" by simp
  then show ?case
    by (intro resting_at_work [OF server_ok(1,2)]) (simp_all add: prefixI)
next
  case (comp_ok s i x cs st)
  from work_at [OF comp_ok(4,1)] have "lf_servers s @ lf_comps s = (lf_started s @ [x]) @ cs" by simp
  then show ?case
    by (intro resting_at_work [OF comp_ok(1,2)]) (simp_all add: prefixI)
next
  case (running s i st)
  from work_at [OF running(4,1)] show ?case by (simp add: resting_def)
next
  case (finish_stopped s i e)
  from work_at [OF finish_stopped(4,1)] finish_stopped(5) show ?case by (auto simp: resting_def)
next
  case (shutdown_done s i r)
  from work_at [OF shutdown_done(5,1)] shutdown_done(6) show ?case by (auto simp: resting_def shutdown_items_def)
next
  case (shutdown_panics s i r)
  have "lf_state s = StateStopping" using owned_stopping [OF shutdown_panics(3), of i] shutdown_panics(1) by simp
  with shutdown_panics(2,3) show ?case by (simp add: owned_def)
next
  case (register s x)
  show ?case using register(1,5) by (auto simp: resting_def)
next
  case (ctx_done s)
  show ?case using ctx_done(5) by (simp add: resting_def)
next
  case (run_begin s i)
  show ?case using run_begin(2,6) by (auto simp: resting_def)
next
  case (run_failed s i e)
  show ?case using run_failed(5) by (simp add: resting_def)
next
  case (shutdown_begin s i background)
  show ?case using shutdown_begin(6) by (simp add: resting_def)
qed ((rule resting_at_work, assumption, assumption, simp, simp, drule resting_prefix, simp)
    | (erule resting_goto; simp add: same_work_def))+

lemma life_inv_step: "life_inv stops s \<Longrightarrow> life_step stops label s e t \<Longrightarrow> not_early e \<Longrightarrow> life_inv stops t"
  using owned_step work_step resting_step unfolding life_inv_def by blast

interpretation whole_life: invariant_steps "life_step stops label" not_early "life_inv stops"
  by unfold_locales (rule life_inv_step)

lemma life_init_inv: "life_init s \<Longrightarrow> life_inv stops s"
  by (auto simp: life_inv_def life_init_owned life_init_def resting_def)


subsection \<open>Safety\<close>

lemma reach_inv:
  assumes "life_init s0" "run (life_step stops label) not_early s0 s"
  shows "life_inv stops s"
  by (rule whole_life.run_inv [OF assms(2) life_init_inv [OF assms(1)]])

text \<open>
  C22: as long as no \<open>Shutdown\<close> enters while \<open>Run\<close> is starting, any number of concurrent calls of
  \<open>Run\<close> and \<open>Shutdown\<close> never panic: \<open>shutdownDone\<close> is closed once, exactly when the state becomes
  \<open>stopped\<close>, and at most one goroutine starts or stops things at any time, and which of the two is
  what the state says.
\<close>

theorem lifecycle_safe:
  assumes "life_init s0" "run (life_step stops label) not_early s0 s"
  shows "lf_pc s i \<noteq> Panicked \<and> (lf_done s \<longleftrightarrow> lf_state s = StateStopped)
    \<and> (starting (lf_pc s i) \<longrightarrow> lf_state s = StateStarting) \<and> (stopping (lf_pc s i) \<longrightarrow> lf_state s = StateStopping)
    \<and> (starting (lf_pc s i) \<or> stopping (lf_pc s i) \<longrightarrow> starting (lf_pc s j) \<or> stopping (lf_pc s j) \<longrightarrow> i = j)"
proof -
  have o: "owned s" using reach_inv [OF assms] by (simp add: life_inv_def)
  have "lf_pc s i \<noteq> Panicked" "lf_done s \<longleftrightarrow> lf_state s = StateStopped" using o by (simp_all add: owned_def)
  with owned_state [OF o, of i] owned_stopping [OF o, of i] only_worker [OF o, of i j] show ?thesis by blast
qed

text \<open>A runtime with one server and one component, which print as themselves.\<close>

definition small_life :: "string life" where
  "small_life =
     \<lparr>lf_state = StateNew, lf_servers = [''http''], lf_comps = [''pubsub''], lf_cancel = None, lf_done = False,
      lf_err = None, lf_conns = True, lf_tel = True, lf_pc = (\<lambda>_. Idle), lf_started = [], lf_stopped = [],
      lf_failed = False, lf_gaveup = False\<rparr>"

lemma small_life_init: "life_init small_life"
  by (simp add: life_init_def small_life_def)

abbreviation small_run :: "(life_event \<Rightarrow> bool) \<Rightarrow> string life \<Rightarrow> string life \<Rightarrow> bool" where
  "small_run ok \<equiv> run (life_step (\<lambda>x. x = ''http'') (\<lambda>x. x)) ok"

lemma small_run_running:
  "small_run not_early small_life (small_life
     \<lparr>lf_state := StateRunning, lf_cancel := Some False, lf_pc := (\<lambda>_. Idle)(0 := RWait),
      lf_started := [''http'', ''pubsub'']\<rparr>)"
proof -
  let ?st = "life_step (\<lambda>x. x = ''http'') (\<lambda>x. x)"
  let ?s1 = "goto 0 (RStart [''http''] [''pubsub''] []) (small_life\<lparr>lf_state := StateStarting, lf_cancel := Some False\<rparr>)"
  let ?s2 = "goto 0 (RStart [] [''pubsub''] [''http'']) (?s1\<lparr>lf_started := [''http'']\<rparr>)"
  let ?s3 = "goto 0 (RStart [] [] [''http'', ''pubsub'']) (?s2\<lparr>lf_started := [''http'', ''pubsub'']\<rparr>)"
  let ?s4 = "goto 0 RWait (?s3\<lparr>lf_state := StateRunning\<rparr>)"
  have "?st small_life (LvStep 0) ?s1"
    using life_step.run_begin [of small_life 0] by (simp add: small_life_def)
  then have 1: "small_run not_early small_life ?s1" by (rule run_one) simp
  have "?st ?s1 (LvStep 0) ?s2"
    using life_step.server_ok [of ?s1 0 "''http''" "[]" "[''pubsub'']" "[]"] by (simp add: small_life_def)
  with 1 have 2: "small_run not_early small_life ?s2" by (rule run_step) simp
  have "?st ?s2 (LvStep 0) ?s3"
    using life_step.comp_ok [of ?s2 0 "''pubsub''" "[]" "[''http'']"] by simp
  with 2 have 3: "small_run not_early small_life ?s3" by (rule run_step) simp
  have "?st ?s3 (LvStep 0) ?s4"
    using life_step.running [of ?s3 0 "[''http'', ''pubsub'']"] by simp
  with 3 have "small_run not_early small_life ?s4" by (rule run_step) simp
  then show ?thesis by (simp add: goto_def small_life_def)
qed

lemma lifecycle_safe_witness:
  "\<exists>s. small_run not_early small_life s \<and> lf_state s = StateRunning \<and> lf_pc s 0 = RWait \<and> \<not> lf_done s"
  using small_run_running lifecycle_safe [OF small_life_init small_run_running]
  by (intro exI [of _ "small_life\<lparr>lf_state := StateRunning, lf_cancel := Some False, lf_pc := (\<lambda>_. Idle)(0 := RWait),
      lf_started := [''http'', ''pubsub'']\<rparr>"]) auto

end
