(* ===== verification/MesaLifecycleMore.thy ===== *)
theory MesaLifecycleMore
  imports MesaLifecycleProps
begin

text \<open>
  More on the life of a runtime: what is stopped and in which order, how long the calls take,
  and the run in which an early \<open>Shutdown\<close> leads to a panic; then the health checks.
\<close>

subsection \<open>Stopping\<close>

text \<open>
  C23: when no \<open>Shutdown\<close> was entered while \<open>Run\<close> was starting (\<open>not_early\<close>; such a call can stop
  items twice, see C25), the runtime is stopped and no \<open>Shutdown\<close> gave up because its context was
  done, then every server and component that can be stopped has been stopped exactly once, components
  before servers and the last of each first, and clients and telemetry are closed.  If it is
  stopped because a start failed, those that had been started, and they alone, have been
  stopped once, but in the order of the start; the clients are closed or \<open>Run\<close> is about to
  close them with its next step; telemetry stays on.
\<close>

theorem lifecycle_stops_all:
  assumes "life_init s0" "run (life_step stops label) not_early s0 s"
    and "lf_state s = StateStopped" "\<not> lf_gaveup s"
  shows "if lf_failed s
         then lf_stopped s = filter stops (lf_started s) \<and> prefix (lf_started s) (lf_servers s @ lf_comps s)
           \<and> (lf_conns s \<longrightarrow> (\<exists>i e. lf_pc s i = RClose e))
         else lf_stopped s = filter stops (rev (lf_comps s) @ rev (lf_servers s)) \<and> \<not> lf_conns s \<and> \<not> lf_tel s"
proof -
  have "resting stops s" using reach_inv [OF assms(1,2)] by (simp add: life_inv_def)
  with assms(3,4) show ?thesis unfolding resting_def shutdown_items_def by presburger
qed

text \<open>
  A component that fails to start: the server is stopped and the clients are closed, but
  telemetry is not shut down.
\<close>

lemma lifecycle_stops_all_witness:
  "\<exists>s. small_run not_early small_life s \<and> lf_stopped s = [''http''] \<and> \<not> lf_conns s \<and> lf_tel s
     \<and> lf_pc s 0 = Returned (Some (Wrap ''start component pubsub: '' Canceled []))"
proof -
  let ?e = "Wrap ''start component pubsub: '' Canceled []"
  let ?st = "life_step (\<lambda>x. x = ''http'') (\<lambda>x. x)"
  let ?s1 = "goto 0 (RStart [''http''] [''pubsub''] []) (small_life\<lparr>lf_state := StateStarting, lf_cancel := Some False\<rparr>)"
  let ?s2 = "goto 0 (RStart [] [''pubsub''] [''http'']) (?s1\<lparr>lf_started := [''http'']\<rparr>)"
  let ?s3 = "goto 0 (RRollback [''http''] ?e) (?s2\<lparr>lf_cancel := Some True, lf_failed := True\<rparr>)"
  let ?s4 = "goto 0 (RRollback [] ?e) (?s3\<lparr>lf_stopped := [''http'']\<rparr>)"
  let ?s5 = "goto 0 (RFinish ?e) ?s4"
  let ?s6 = "goto 0 (RClose ?e) (?s5\<lparr>lf_state := StateStopped, lf_done := True\<rparr>)"
  let ?s7 = "goto 0 (Returned (Some ?e)) (?s6\<lparr>lf_conns := False\<rparr>)"
  have "?st small_life (LvStep 0) ?s1"
    using life_step.run_begin [of small_life 0] by (simp add: small_life_def)
  then have 1: "small_run not_early small_life ?s1" by (rule run_one) simp
  have "?st ?s1 (LvStep 0) ?s2"
    using life_step.server_ok [of ?s1 0 "''http''" "[]" "[''pubsub'']" "[]"] by (simp add: small_life_def)
  with 1 have 2: "small_run not_early small_life ?s2" by (rule run_step) simp
  have "?st ?s2 (LvStep 0) ?s3"
    using life_step.comp_failed [of ?s2 0 "''pubsub''" "[]" "[''http'']" "\<lambda>x. x = ''http''" "\<lambda>x. x" Canceled]
    by (simp add: cancelled_def)
  with 2 have 3: "small_run not_early small_life ?s3" by (rule run_step) simp
  have "?st ?s3 (LvStep 0) ?s4"
    using life_step.rollback [of ?s3 0 "''http''" "[]" ?e "\<lambda>x. x = ''http''"] by (simp add: small_life_def)
  with 3 have 4: "small_run not_early small_life ?s4" by (rule run_step) simp
  have "?st ?s4 (LvStep 0) ?s5" by (rule life_step.rolled_back) simp
  with 4 have 5: "small_run not_early small_life ?s5" by (rule run_step) simp
  have "?st ?s5 (LvStep 0) ?s6" by (rule life_step.finish_stopped) simp
  with 5 have 6: "small_run not_early small_life ?s6" by (rule run_step) simp
  have "?st ?s6 (LvStep 0) ?s7" by (rule life_step.run_failed) simp
  with 6 have 7: "small_run not_early small_life ?s7" by (rule run_step) simp
  have "lf_stopped ?s7 = [''http'']"
    using lifecycle_stops_all [OF small_life_init 7] by (simp add: small_life_def)
  moreover have "\<not> lf_conns ?s7" by simp
  moreover have "lf_tel ?s7" by (simp add: small_life_def)
  moreover have "lf_pc ?s7 0 = Returned (Some ?e)" by simp
  ultimately show ?thesis using 7 by blast
qed

subsection \<open>How long the calls take\<close>

text \<open>An upper bound for the steps a goroutine still makes, with \<open>k\<close> servers and components.\<close>

fun steps_left :: "nat \<Rightarrow> 'i pc \<Rightarrow> nat" where
  "steps_left k Idle = 3 * k + 12"
| "steps_left k (RStart ss cs st) = 2 * (length ss + length cs) + length st + k + 8"
| "steps_left k (RRollback xs e) = length xs + 3"
| "steps_left k (RFinish e) = 2"
| "steps_left k (RClose e) = 1"
| "steps_left k RWait = k + 7"
| "steps_left k (SEnter b) = k + 6"
| "steps_left k (SStop b xs r) = length xs + 4"
| "steps_left k (SClose r) = 3"
| "steps_left k (STel r) = 2"
| "steps_left k (SFinal r) = 1"
| "steps_left k (SWait b) = 1"
| "steps_left k (Returned r) = 0"
| "steps_left k Panicked = 0"


definition life_size :: "'i life \<Rightarrow> nat" where
  "life_size s = length (lf_servers s) + length (lf_comps s)"

fun mover :: "life_event \<Rightarrow> nat option" where
  "mover (LvStep i) = Some i"
| "mover (LvEarly i) = Some i"
| "mover LvRegister = None"
| "mover LvCancel = None"

lemma step_decreases:
  assumes "life_step stops label s e t" "mover e = Some i"
  shows "steps_left (life_size s) (lf_pc t i) < steps_left (life_size s) (lf_pc s i)
    \<and> (\<forall>j. j \<noteq> i \<longrightarrow> lf_pc t j = lf_pc s j) \<and> life_size t = life_size s"
  using assms
  by (induction rule: life_step.induct)
    (auto simp: life_size_def shutdown_items_def split: if_splits)

text \<open>A goroutine that has started waits for a context that exists.\<close>

definition has_context :: "'i life \<Rightarrow> bool" where
  "has_context s \<longleftrightarrow> (lf_cancel s = None \<longrightarrow> (\<forall>i. lf_pc s i \<noteq> RWait \<and> \<not> starting (lf_pc s i)))"

lemma has_context_goto:
  "has_context s \<Longrightarrow> lf_pc t = lf_pc s \<Longrightarrow> (lf_cancel t = None \<Longrightarrow> lf_cancel s = None) \<Longrightarrow>
   (p = RWait \<or> starting p \<Longrightarrow> lf_cancel t = None \<Longrightarrow> lf_pc s i = RWait \<or> starting (lf_pc s i)) \<Longrightarrow>
   has_context (goto i p t)"
  unfolding has_context_def by auto

lemma cancelled_None [simp]: "cancelled s = None \<longleftrightarrow> lf_cancel s = None" "None = cancelled s \<longleftrightarrow> lf_cancel s = None"
  by (auto simp: cancelled_def split: option.splits)

lemma has_context_step: "life_step stops label s e t \<Longrightarrow> has_context s \<Longrightarrow> has_context t"
proof (induction rule: life_step.induct)
  case (run_begin s i)
  show ?case by (simp add: has_context_def)
next
  case (register s x)
  then show ?case by (simp add: has_context_def)
next
  case (ctx_done s)
  then show ?case by (simp add: has_context_def)
qed (erule has_context_goto; auto split: if_splits)+

interpretation contexts: invariant_steps "life_step stops label" "\<lambda>e. not_early e" has_context
  by unfold_locales (rule has_context_step)

lemma reach_context: "life_init s0 \<Longrightarrow> run (life_step stops label) not_early s0 s \<Longrightarrow> has_context s"
  by (erule contexts.run_inv) (simp add: life_init_def has_context_def)

text \<open>A goroutine under way can step unless it waits.\<close>

lemma worker_steps:
  assumes "starting (lf_pc s i) \<or> stopping (lf_pc s i)"
  shows "\<exists>t. life_step stops label s (LvStep i) t"
proof (cases "lf_pc s i")
  case (RStart ss cs st)
  then show ?thesis
    by (cases ss; cases cs) (auto intro: life_step.server_ok life_step.comp_ok life_step.running)
next
  case (RRollback xs e)
  then show ?thesis by (cases xs) (auto intro: life_step.rollback life_step.rolled_back)
next
  case (SStop b xs r)
  then show ?thesis
  proof (cases xs)
    case (Cons x ys)
    with SStop show ?thesis
      by (cases "stops x") (auto intro: life_step.stop_item life_step.skip_item)
  qed (auto intro: life_step.all_stopped)
next
  case (SFinal r)
  then show ?thesis by (cases "lf_done s") (auto intro: life_step.shutdown_done life_step.shutdown_panics)
qed (use assms in \<open>auto intro: life_step.finish_stopped life_step.close_conns life_step.close_telemetry\<close>)

text \<open>A \<open>Shutdown\<close> that waits for another one has somebody to wait for.\<close>

definition joins_ok :: "'i life \<Rightarrow> bool" where
  "joins_ok s \<longleftrightarrow> ((\<exists>i b. lf_pc s i = SWait b) \<longrightarrow> lf_state s \<in> {StateStopping, StateStopped})"

lemma joins_ok_goto:
  "joins_ok s \<Longrightarrow> lf_pc t = lf_pc s \<Longrightarrow>
   (lf_state s \<in> {StateStopping, StateStopped} \<Longrightarrow> lf_state t \<in> {StateStopping, StateStopped}) \<Longrightarrow>
   (\<And>b. p = SWait b \<Longrightarrow> lf_state t \<in> {StateStopping, StateStopped}) \<Longrightarrow> joins_ok (goto i p t)"
  unfolding joins_ok_def by (auto split: if_splits)

lemma joins_ok_step:
  "life_step stops label s e t \<Longrightarrow> owned s \<Longrightarrow> joins_ok s \<Longrightarrow> joins_ok t"
proof (induction rule: life_step.induct)
  case (register s x)
  then show ?case by (simp add: joins_ok_def)
next
  case (ctx_done s)
  then show ?case by (simp add: joins_ok_def)
next
  case (running s i st)
  have "lf_state s = StateStarting" using owned_state [OF running(2), of i] running(1) by simp
  then show ?case by (intro joins_ok_goto [OF running(3)]) simp_all
qed (erule joins_ok_goto; auto split: if_splits)+

interpretation joining: invariant_steps "life_step stops label" "\<lambda>e. not_early e" "\<lambda>s. owned s \<and> joins_ok s"
  by unfold_locales (auto intro: owned_step joins_ok_step)

lemma reach_joins: "life_init s0 \<Longrightarrow> run (life_step stops label) not_early s0 s \<Longrightarrow> joins_ok s"
  using joining.run_inv [of stops label s0 s] by (simp add: life_init_owned life_init_def joins_ok_def)

lemma steps_bounded: "life_inv stops s \<Longrightarrow> steps_left (life_size s) (lf_pc s i) \<le> 3 * life_size s + 12"
proof -
  assume inv: "life_inv stops s"
  then have w: "work stops s p" if "lf_pc s i = p" for p using that by (auto simp: life_inv_def)
  have pre: "length (lf_started s) \<le> life_size s"
    using inv prefix_length_le [of "lf_started s" "lf_servers s @ lf_comps s"]
    by (auto simp: life_inv_def resting_def life_size_def)
  show ?thesis
  proof (cases "lf_pc s i")
    case (RStart ss cs st)
    have "length (lf_started s @ ss @ cs) = life_size s" and "st = lf_started s"
      using w [OF RStart] by (simp_all add: life_size_def)
    with RStart show ?thesis by simp
  next
    case (RRollback xs e)
    from w [OF RRollback] obtain d where "lf_started s = d @ xs" by auto
    with RRollback pre show ?thesis by simp
  next
    case (SStop b xs r)
    from w [OF SStop] obtain d where "shutdown_items s = d @ xs" by auto
    then have "length (shutdown_items s) = length d + length xs" by (simp only: length_append)
    then have "length xs \<le> life_size s" by (simp add: shutdown_items_def life_size_def)
    with SStop show ?thesis by simp
  qed simp_all
qed

text \<open>A \<open>Shutdown\<close> that joins another one returns, or the other one can make a step.\<close>

lemma join_not_stuck:
  assumes "life_init s0" "run (life_step stops label) not_early s0 s" "lf_pc s i = SWait b"
  shows "(\<exists>t. life_step stops label s (LvStep i) t) \<or> (\<exists>k t. stopping (lf_pc s k) \<and> life_step stops label s (LvStep k) t)"
proof -
  have o: "owned s" using reach_inv [OF assms(1,2)] by (simp add: life_inv_def)
  from reach_joins [OF assms(1,2)] assms(3) consider "lf_state s = StateStopping" | "lf_state s = StateStopped"
    by (auto simp: joins_ok_def)
  then show ?thesis
  proof cases
    case 1
    with o obtain k where "stopping (lf_pc s k)" by (auto simp: owned_def owner_def)
    with worker_steps [of s k] show ?thesis by blast
  next
    case 2
    with o have "lf_done s" by (simp add: owned_def)
    with life_step.joined [OF assms(3)] show ?thesis by blast
  qed
qed

lemma enter_not_stuck:
  assumes "lf_pc s i = SEnter b"
  shows "\<exists>e t. mover e = Some i \<and> life_step stops label s e t"
proof (cases "lf_state s \<in> {StateStopped, StateStopping}")
  case True
  with life_step.shutdown_again [OF assms] life_step.shutdown_joins [OF assms] obtain t where
    "life_step stops label s (LvStep i) t" by blast
  then show ?thesis by (intro exI [of _ "LvStep i"] exI [of _ t]) simp
next
  case False
  have "mover (if lf_state s = StateStarting then LvEarly i else LvStep i) = Some i" by simp
  with life_step.shutdown_begin [OF assms False] show ?thesis by blast
qed

lemma not_stuck:
  assumes "life_init s0" "run (life_step stops label) not_early s0 s"
  shows "lf_pc s i = Idle \<or> (\<exists>r. lf_pc s i = Returned r)
      \<or> (\<exists>e t. mover e = Some i \<and> life_step stops label s e t)
      \<or> (lf_pc s i = RWait \<and> lf_cancel s = Some False)
      \<or> (\<exists>b k t. lf_pc s i = SWait b \<and> stopping (lf_pc s k) \<and> life_step stops label s (LvStep k) t)"
proof -
  have mv: "\<exists>e t. mover e = Some i \<and> life_step stops label s e t" if "life_step stops label s (LvStep i) t" for t
    using that by (intro exI [of _ "LvStep i"] exI [of _ t]) simp
  show ?thesis
  proof (cases "starting (lf_pc s i) \<or> stopping (lf_pc s i)")
    case True
    from worker_steps [OF True] mv show ?thesis by blast
  next
    case False
    show ?thesis
    proof (cases "lf_pc s i")
      case RWait
      with reach_context [OF assms] have "lf_cancel s = Some True \<or> lf_cancel s = Some False"
        by (auto simp: has_context_def)
      with RWait show ?thesis using mv life_step.run_woken [OF RWait] by blast
    next
      case (SEnter b)
      from enter_not_stuck [OF this] show ?thesis by blast
    next
      case (SWait b)
      from join_not_stuck [OF assms this] mv SWait show ?thesis by blast
    next
      case Panicked
      with reach_inv [OF assms] show ?thesis by (simp add: life_inv_def owned_def)
    next
      case (RClose e)
      with mv life_step.run_failed [OF RClose] show ?thesis by blast
    qed (use False in simp_all)
  qed
qed

text \<open>
  C24: every call ends.  A step of a goroutine brings its call closer to its end, and no step of
  another one takes it away from it, so a call of \<open>Run\<close> or \<open>Shutdown\<close> makes at most three steps
  for each server and component and twelve more.  And no call is stuck: in every state that can
  be reached without an early \<open>Shutdown\<close>, a goroutine under way can make a step, or it waits in
  \<open>Run\<close> for a context that is not done yet, or it waits in \<open>Shutdown\<close> for another goroutine
  that stops the runtime and can make a step.
\<close>

theorem lifecycle_terminates:
  assumes "life_init s0" "run (life_step stops label) not_early s0 s"
  shows "steps_left (life_size s) (lf_pc s i) \<le> 3 * life_size s + 12
    \<and> (life_step stops label s e t \<and> mover e = Some i \<longrightarrow>
        steps_left (life_size t) (lf_pc t i) < steps_left (life_size s) (lf_pc s i)
        \<and> (j \<noteq> i \<longrightarrow> steps_left (life_size t) (lf_pc t j) = steps_left (life_size s) (lf_pc s j)))
    \<and> (lf_pc s i = Idle \<or> (\<exists>r. lf_pc s i = Returned r)
      \<or> (\<exists>e t. mover e = Some i \<and> life_step stops label s e t)
      \<or> (lf_pc s i = RWait \<and> lf_cancel s = Some False)
      \<or> (\<exists>b k t. lf_pc s i = SWait b \<and> stopping (lf_pc s k) \<and> life_step stops label s (LvStep k) t))"
proof (intro conjI)
  show "steps_left (life_size s) (lf_pc s i) \<le> 3 * life_size s + 12" by (rule steps_bounded [OF reach_inv [OF assms]])
  show "life_step stops label s e t \<and> mover e = Some i \<longrightarrow>
        steps_left (life_size t) (lf_pc t i) < steps_left (life_size s) (lf_pc s i)
        \<and> (j \<noteq> i \<longrightarrow> steps_left (life_size t) (lf_pc t j) = steps_left (life_size s) (lf_pc s j))"
    using step_decreases [of stops label s e t i] by auto
qed (rule not_stuck [OF assms])

text \<open>A running runtime whose context is not done, and its one \<open>Shutdown\<close> to come.\<close>

lemma lifecycle_terminates_witness:
  "\<exists>s. small_run not_early small_life s \<and> lf_state s = StateRunning
     \<and> steps_left (life_size s) (lf_pc s 0) \<le> 18 \<and> lf_pc s 0 = RWait \<and> lf_cancel s = Some False"
proof -
  let ?s = "small_life\<lparr>lf_state := StateRunning, lf_cancel := Some False, lf_pc := (\<lambda>_. Idle)(0 := RWait),
      lf_started := [''http'', ''pubsub'']\<rparr>"
  have "life_size ?s = 2" by (simp add: life_size_def small_life_def)
  with lifecycle_terminates [OF small_life_init small_run_running, of 0] have "steps_left (life_size ?s) (lf_pc ?s 0) \<le> 18"
    by simp
  with small_run_running show ?thesis by (intro exI [of _ ?s]) simp
qed


subsection \<open>An early Shutdown\<close>

abbreviation any_run :: "('i \<Rightarrow> bool) \<Rightarrow> ('i \<Rightarrow> string) \<Rightarrow> 'i life \<Rightarrow> 'i life \<Rightarrow> bool" where
  "any_run stops label \<equiv> run (life_step stops label) (\<lambda>_. True)"

lemma run_one_any: "life_step stops label s e t \<Longrightarrow> any_run stops label s t"
  by (rule run_one [where e = e]) simp_all

lemma run_step_any: "any_run stops label s t \<Longrightarrow> life_step stops label t e u \<Longrightarrow> any_run stops label s u"
  by (rule run_step [where e = e]) simp_all

text \<open>A goroutine left alone starts everything, or stops everything.\<close>

lemma starts_alone:
  "lf_pc s i = RStart ss cs st \<Longrightarrow>
   \<exists>st' sd. any_run stops label s (goto i (RStart [] [] st') (s\<lparr>lf_started := sd\<rparr>))"
proof (induction "length ss + length cs" arbitrary: s ss cs st)
  case 0
  then have "goto i (RStart [] [] st) (s\<lparr>lf_started := lf_started s\<rparr>) = s"
    by (auto simp: goto_def intro!: life.equality)
  then show ?case using run_refl [of "life_step stops label" "\<lambda>_. True" s] by metis
next
  case (Suc n)
  obtain x ss' cs' where step: "life_step stops label s (LvStep i)
      (goto i (RStart ss' cs' (st @ [x])) (s\<lparr>lf_started := lf_started s @ [x]\<rparr>))" and n: "n = length ss' + length cs'"
  proof (cases ss)
    case Nil
    with Suc(2) obtain x cs' where cs: "cs = x # cs'" by (cases cs) auto
    show ?thesis
      by (rule that [of "[]" cs' x]) (use life_step.comp_ok Suc(2,3) Nil cs in auto)
  next
    case (Cons x ss')
    show ?thesis
      by (rule that [of ss' cs x]) (use life_step.server_ok Suc(2,3) Cons in auto)
  qed
  let ?t = "goto i (RStart ss' cs' (st @ [x])) (s\<lparr>lf_started := lf_started s @ [x]\<rparr>)"
  obtain st' sd where r: "any_run stops label ?t (goto i (RStart [] [] st') (?t\<lparr>lf_started := sd\<rparr>))"
    using Suc(1) [OF n, of ?t "st @ [x]"] by auto
  have "goto i (RStart [] [] st') (?t\<lparr>lf_started := sd\<rparr>) = goto i (RStart [] [] st') (s\<lparr>lf_started := sd\<rparr>)"
    by (simp add: goto_def)
  with run_trans [OF r run_one_any [OF step]] show ?case by auto
qed

lemma stops_alone:
  "lf_pc s i = SStop True xs r \<Longrightarrow>
   \<exists>r' sd. any_run stops label s
      (goto i (SFinal r') (s\<lparr>lf_stopped := sd, lf_conns := False, lf_tel := False\<rparr>))"
proof (induction xs arbitrary: s r)
  case Nil
  let ?a = "goto i (SClose r) s"
  have 1: "any_run stops label s ?a" by (rule run_one_any [OF life_step.all_stopped [OF Nil]])
  obtain r1 where "life_step stops label ?a (LvStep i) (goto i (STel r1) (?a\<lparr>lf_conns := False\<rparr>))"
    using life_step.close_conns [of ?a i r] by auto
  with 1 have 2: "any_run stops label s (goto i (STel r1) (?a\<lparr>lf_conns := False\<rparr>))" by (rule run_step_any)
  let ?b = "goto i (STel r1) (?a\<lparr>lf_conns := False\<rparr>)"
  obtain r2 where "life_step stops label ?b (LvStep i) (goto i (SFinal r2) (?b\<lparr>lf_tel := False\<rparr>))"
    using life_step.close_telemetry [of ?b i r1] by auto
  with 2 have 3: "any_run stops label s (goto i (SFinal r2) (?b\<lparr>lf_tel := False\<rparr>))" by (rule run_step_any)
  have "goto i (SFinal r2) (?b\<lparr>lf_tel := False\<rparr>)
      = goto i (SFinal r2) (s\<lparr>lf_stopped := lf_stopped s, lf_conns := False, lf_tel := False\<rparr>)"
    by (simp add: goto_def)
  with 3 show ?case by metis
next
  case (Cons x xs)
  obtain r1 sd where step: "life_step stops label s (LvStep i) (goto i (SStop True xs r1) (s\<lparr>lf_stopped := sd\<rparr>))"
  proof (cases "stops x")
    case True
    with life_step.stop_item [OF Cons.prems] that show ?thesis by blast
  next
    case False
    have "goto i (SStop True xs r) s = goto i (SStop True xs r) (s\<lparr>lf_stopped := lf_stopped s\<rparr>)" by simp
    with life_step.skip_item [where label = label, OF Cons.prems, of stops] False that show ?thesis by metis
  qed
  let ?t = "goto i (SStop True xs r1) (s\<lparr>lf_stopped := sd\<rparr>)"
  obtain r' sd' where r: "any_run stops label ?t
      (goto i (SFinal r') (?t\<lparr>lf_stopped := sd', lf_conns := False, lf_tel := False\<rparr>))"
    using Cons.IH [of ?t r1] by auto
  have "goto i (SFinal r') (?t\<lparr>lf_stopped := sd', lf_conns := False, lf_tel := False\<rparr>)
      = goto i (SFinal r') (s\<lparr>lf_stopped := sd', lf_conns := False, lf_tel := False\<rparr>)"
    by (simp add: goto_def)
  with run_trans [OF r run_one_any [OF step]] show ?case by auto
qed

text \<open>
  C25: every runtime has a run in which a \<open>Shutdown\<close> that enters while \<open>Run\<close> is starting makes \<open>Run\<close>
  panic: it stops the runtime, \<open>Run\<close> then sets the state to \<open>running\<close> all the same, finds its
  context done and calls \<open>Shutdown\<close>, which closes \<open>shutdownDone\<close> a second time.
\<close>

theorem early_shutdown_panics:
  assumes "life_init s"
  shows "\<exists>t. any_run stops label s t \<and> lf_pc t 0 = Panicked"
proof -
  have goto_pc: "lf_pc (goto i p u) i = p" for i p and u :: "'a life" by simp
  let ?R = "any_run stops label"
  let ?s1 = "goto 0 (RStart (lf_servers s) (lf_comps s) []) (s\<lparr>lf_state := StateStarting, lf_cancel := Some False\<rparr>)"
  let ?s2 = "goto 1 (SEnter True) ?s1"
  let ?s3 = "goto 1 (SStop True (shutdown_items ?s2) None) (?s2\<lparr>lf_state := StateStopping, lf_cancel := Some True\<rparr>)"
  have "life_step stops label s (LvStep 0) ?s1"
    using life_step.run_begin [of s 0] assms by (simp add: life_init_def)
  then have 1: "?R s ?s1" by (rule run_one_any)
  have "life_step stops label ?s1 (LvStep 1) ?s2"
    using life_step.shutdown_call [of ?s1 1] assms by (simp add: life_init_def)
  with 1 have 2: "?R s ?s2" by (rule run_step_any)
  have "life_step stops label ?s2 (LvEarly 1) ?s3"
    using life_step.shutdown_begin [of ?s2 1 True] by (simp add: cancelled_def)
  with 2 have 3: "?R s ?s3" by (rule run_step_any)
  obtain r4 sd4 where "?R ?s3 (goto 1 (SFinal r4) (?s3\<lparr>lf_stopped := sd4, lf_conns := False, lf_tel := False\<rparr>))"
    using stops_alone [of ?s3 1 "shutdown_items ?s2" None stops label] goto_pc by blast
  from run_trans [OF this 3]
  have 4: "?R s (goto 1 (SFinal r4) (?s3\<lparr>lf_stopped := sd4, lf_conns := False, lf_tel := False\<rparr>))" .
  let ?s4 = "goto 1 (SFinal r4) (?s3\<lparr>lf_stopped := sd4, lf_conns := False, lf_tel := False\<rparr>)"
  let ?s5 = "goto 1 (Returned r4) (?s4\<lparr>lf_err := r4, lf_state := StateStopped, lf_done := True\<rparr>)"
  have "life_step stops label ?s4 (LvStep 1) ?s5"
    using life_step.shutdown_done [of ?s4 1 r4] assms by (simp add: life_init_def)
  with 4 have 5: "?R s ?s5" by (rule run_step_any)
  have "lf_pc ?s5 0 = RStart (lf_servers s) (lf_comps s) []" by simp
  from starts_alone [OF this]
  obtain st6 sd6 where "?R ?s5 (goto 0 (RStart [] [] st6) (?s5\<lparr>lf_started := sd6\<rparr>))"
    by blast
  from run_trans [OF this 5] have 6: "?R s (goto 0 (RStart [] [] st6) (?s5\<lparr>lf_started := sd6\<rparr>))" .
  let ?s6 = "goto 0 (RStart [] [] st6) (?s5\<lparr>lf_started := sd6\<rparr>)"
  let ?s7 = "goto 0 RWait (?s6\<lparr>lf_state := StateRunning\<rparr>)"
  have "life_step stops label ?s6 (LvStep 0) ?s7" by (rule life_step.running) simp
  with 6 have 7: "?R s ?s7" by (rule run_step_any)
  let ?s8 = "goto 0 (SEnter True) ?s7"
  have "life_step stops label ?s7 (LvStep 0) ?s8" by (rule life_step.run_woken) simp_all
  with 7 have 8: "?R s ?s8" by (rule run_step_any)
  let ?s9 = "goto 0 (SStop True (shutdown_items ?s8) None) (?s8\<lparr>lf_state := StateStopping, lf_cancel := cancelled ?s8\<rparr>)"
  have "life_step stops label ?s8 (LvStep 0) ?s9"
    using life_step.shutdown_begin [of ?s8 0 True] by simp
  with 8 have 9: "?R s ?s9" by (rule run_step_any)
  obtain r10 sd10 where "?R ?s9 (goto 0 (SFinal r10) (?s9\<lparr>lf_stopped := sd10, lf_conns := False, lf_tel := False\<rparr>))"
    using stops_alone [of ?s9 0 "shutdown_items ?s8" None stops label] goto_pc by blast
  from run_trans [OF this 9]
  have 10: "?R s (goto 0 (SFinal r10) (?s9\<lparr>lf_stopped := sd10, lf_conns := False, lf_tel := False\<rparr>))" .
  let ?s10 = "goto 0 (SFinal r10) (?s9\<lparr>lf_stopped := sd10, lf_conns := False, lf_tel := False\<rparr>)"
  have "life_step stops label ?s10 (LvStep 0) (goto 0 Panicked (?s10\<lparr>lf_err := r10, lf_state := StateStopped\<rparr>))"
    by (rule life_step.shutdown_panics) simp_all
  with 10 have "?R s (goto 0 Panicked (?s10\<lparr>lf_err := r10, lf_state := StateStopped\<rparr>))" by (rule run_step_any)
  then show ?thesis by (intro exI conjI) (assumption, simp)
qed


lemma early_shutdown_panics_witness:
  "\<exists>t. any_run (\<lambda>x. x = ''http'') (\<lambda>x. x) small_life t \<and> lf_pc t 0 = Panicked"
  by (rule early_shutdown_panics [OF small_life_init])

end
