(* ===== verification/MesaHealth.thy ===== *)
theory MesaHealth
  imports MesaLifecycleProps
begin

text \<open>
  The health checks of mesa.go and the answers of the routes \<open>/livez\<close> and \<open>/readyz\<close>.  What a ping
  of a client returns is an argument: \<open>None\<close> for a client that is nil, else the error if any.
\<close>

subsection \<open>Checks\<close>

record health_check =
  hk_OK :: bool
  hk_Error :: string

record health_status =
  hs_OK :: bool
  hs_State :: runtime_state
  hs_Checks :: "string \<rightharpoonup> health_check"

definition Liveness :: "runtime_state \<Rightarrow> health_status" where
  "Liveness state = \<lparr>hs_OK = (state \<noteq> StateStopping \<and> state \<noteq> StateStopped), hs_State = state, hs_Checks = Map.empty\<rparr>"

text \<open>The closure \<open>check\<close> of \<open>Readiness\<close>.\<close>

definition add_check :: "string \<Rightarrow> error option \<Rightarrow> health_status \<Rightarrow> health_status" where
  "add_check name err status =
     (let item = \<lparr>hk_OK = (err = None), hk_Error = (case err of None \<Rightarrow> [] | Some e \<Rightarrow> Error e)\<rparr>;
          status1 = (if err \<noteq> None then status\<lparr>hs_OK := False\<rparr> else status)
      in status1\<lparr>hs_Checks := (hs_Checks status1)(name \<mapsto> item)\<rparr>)"

definition check_if :: "string \<Rightarrow> error option option \<Rightarrow> health_status \<Rightarrow> health_status" where
  "check_if name ping status = (case ping of None \<Rightarrow> status | Some err \<Rightarrow> add_check name err status)"

definition Readiness ::
  "runtime_state \<Rightarrow> error option option \<Rightarrow> error option option \<Rightarrow> error option option \<Rightarrow> health_status" where
  "Readiness state db rdb etcd =
     check_if ''etcd'' etcd
       (check_if ''redis'' rdb
         (check_if ''postgres'' db \<lparr>hs_OK = (state = StateRunning), hs_State = state, hs_Checks = Map.empty\<rparr>))"

text \<open>The status code of the two routes.\<close>

definition health_code :: "health_status \<Rightarrow> nat" where
  "health_code status = (if \<not> hs_OK status then 503 else 200)"

lemma check_if_simps [simp]:
  "hs_OK (check_if n p st) \<longleftrightarrow> hs_OK st \<and> p \<notin> Some ` (Some ` UNIV)"
  "hs_State (check_if n p st) = hs_State st"
  "hs_Checks (check_if n p st) =
     (case p of None \<Rightarrow> hs_Checks st
      | Some err \<Rightarrow> (hs_Checks st)(n \<mapsto> \<lparr>hk_OK = (err = None), hk_Error = (case err of None \<Rightarrow> [] | Some e \<Rightarrow> Error e)\<rparr>))"
  by (auto simp: check_if_def add_check_def Let_def split: option.splits)

subsection \<open>What an answer means\<close>

text \<open>
  C30: in a runtime on which no \<open>Shutdown\<close> entered while it was starting, \<open>/readyz\<close> answers 200
  exactly when the state is \<open>running\<close> and every client there is answers its ping; then every
  server and component has been started and none has been stopped, and \<open>/livez\<close> answers 200 too.
  The checks reported are those of the clients there are, each with its own result.
\<close>

theorem ready_means_started:
  assumes "life_init s0" "run (life_step stops label) not_early s0 s"
  shows "(health_code (Readiness (lf_state s) db rdb etcd) = 200 \<longleftrightarrow>
        lf_state s = StateRunning \<and> (\<forall>p\<in>{db, rdb, etcd}. p = None \<or> p = Some None))
    \<and> (health_code (Readiness (lf_state s) db rdb etcd) = 200 \<longrightarrow>
        lf_started s = lf_servers s @ lf_comps s \<and> lf_stopped s = []
        \<and> health_code (Liveness (lf_state s)) = 200)
    \<and> (\<forall>n. map_option hk_OK (hs_Checks (Readiness (lf_state s) db rdb etcd) n) =
        map_option (\<lambda>err. err = None)
          (if n = ''postgres'' then db else if n = ''redis'' then rdb else if n = ''etcd'' then etcd else None))"
proof -
  have ok: "p \<notin> Some ` (Some ` UNIV) \<longleftrightarrow> p = None \<or> p = Some None" for p :: "error option option"
    by (cases p; cases "the p") auto
  have code: "health_code st = 200 \<longleftrightarrow> hs_OK st" for st by (simp add: health_code_def)
  have 1: "health_code (Readiness (lf_state s) db rdb etcd) = 200 \<longleftrightarrow>
        lf_state s = StateRunning \<and> (\<forall>p\<in>{db, rdb, etcd}. p = None \<or> p = Some None)"
    unfolding code Readiness_def check_if_simps ok by auto
  have "resting stops s" using reach_inv [OF assms] by (simp add: life_inv_def)
  then have 2: "lf_state s = StateRunning \<Longrightarrow> lf_started s = lf_servers s @ lf_comps s \<and> lf_stopped s = []"
    by (simp add: resting_def)
  have 3: "lf_state s = StateRunning \<Longrightarrow> health_code (Liveness (lf_state s)) = 200"
    by (simp add: code Liveness_def)
  have 4: "map_option hk_OK (hs_Checks (Readiness (lf_state s) db rdb etcd) n) =
        map_option (\<lambda>err. err = None)
          (if n = ''postgres'' then db else if n = ''redis'' then rdb else if n = ''etcd'' then etcd else None)" for n
    by (cases db; cases rdb; cases etcd) (simp_all add: Readiness_def)
  from 1 2 3 4 show ?thesis by blast
qed

text \<open>A running runtime whose Redis does not answer.\<close>

lemma ready_means_started_witness:
  "health_code (Readiness StateRunning (Some None) (Some (Some DeadlineExceeded)) None) = 503
   \<and> health_code (Readiness StateRunning (Some None) (Some None) None) = 200
   \<and> health_code (Liveness StateRunning) = 200"
proof -
  have r: "lf_state (small_life\<lparr>lf_state := StateRunning, lf_cancel := Some False, lf_pc := (\<lambda>_. Idle)(0 := RWait),
      lf_started := [''http'', ''pubsub'']\<rparr>) = StateRunning" by simp
  note t = ready_means_started [OF small_life_init small_run_running, unfolded r]
  from t [of "Some None" "Some (Some DeadlineExceeded)" None] t [of "Some None" "Some None" None]
  show ?thesis by (auto simp: health_code_def)
qed

end
