(* ===== verification/MicroSelector.thy ===== *)
theory MicroSelector
  imports Prelude "HOL-Library.Word"
begin

text \<open>
  selector.go of package \<open>transport/micro\<close>: the choice of the node for a request.  A request
  with a user id goes to the node of highest random weight, where the weight is the 64-bit
  FNV-1a hash of the id, a zero byte and the id of the node; other requests go to the strategy
  of go-micro.  Registry, cache, filters and strategy are go-micro's: what the cache answers,
  the filters and the error values are arguments.
\<close>

unbundle bit_operations_syntax

subsection \<open>FNV-1a\<close>

type_synonym u64 = "64 word"

definition fnv_offset :: u64 where "fnv_offset = 14695981039346656037"
definition fnv_prime :: u64 where "fnv_prime = 1099511628211"

text \<open>\<open>Write\<close> of \<open>hash/fnv\<close>'s \<open>New64a\<close>.\<close>

definition fnv_Write :: "string \<Rightarrow> u64 \<Rightarrow> u64" where
  "fnv_Write data h = fold (\<lambda>c h. (h XOR of_nat (of_char c)) * fnv_prime) data h"

lemma fnv_Write_append: "fnv_Write (xs @ ys) h = fnv_Write ys (fnv_Write xs h)"
  by (simp add: fnv_Write_def)

subsection \<open>The node of highest random weight\<close>

text \<open>A node is a pointer; its address tells nodes of one id apart.\<close>

record node =
  nd_Id :: string
  nd_addr :: nat

definition score :: "string \<Rightarrow> node \<Rightarrow> u64" where
  "score key n = fnv_Write (nd_Id n) (fnv_Write [CHR 0x00] (fnv_Write key fnv_offset))"

fun hrw_loop :: "string \<Rightarrow> node option \<Rightarrow> u64 \<Rightarrow> node list \<Rightarrow> node option" where
  "hrw_loop key best bestScore [] = best"
| "hrw_loop key best bestScore (n # ns) =
     (let s = score key n in
      if best = None \<or> s > bestScore then hrw_loop key (Some n) s ns
      else hrw_loop key best bestScore ns)"

definition hrwPick :: "string \<Rightarrow> node list \<Rightarrow> node option" where
  "hrwPick key nodes = hrw_loop key None 0 nodes"

subsection \<open>Select\<close>

fun firstNonEmpty :: "string list \<Rightarrow> string" where
  "firstNonEmpty [] = []"
| "firstNonEmpty (v # vals) = (if v \<noteq> [] then v else firstNonEmpty vals)"

record micro_service =
  ms_Nodes :: "node list"

text \<open>The function \<open>Next\<close> that \<open>Select\<close> returns: always one node, or the strategy on the services.\<close>

datatype next_node = Sticky node | Strategy "micro_service list"

record selector_errors =
  se_registry_ErrNotFound :: error
  se_ErrNotFound :: error
  se_ErrNoneAvailable :: error

text \<open>A missing key of the metadata reads as the empty string, and so does no metadata at all.\<close>

definition md_get :: "(string \<rightharpoonup> string) option \<Rightarrow> string \<Rightarrow> string" where
  "md_get md k = (case md of None \<Rightarrow> [] | Some m \<Rightarrow> (case m k of None \<Rightarrow> [] | Some v \<Rightarrow> v))"

definition Select ::
  "selector_errors \<Rightarrow> error + micro_service list \<Rightarrow> (micro_service list \<Rightarrow> micro_service list) list
     \<Rightarrow> (string \<rightharpoonup> string) option \<Rightarrow> error + next_node" where
  "Select se found filters md =
     (case found of
        Inl err \<Rightarrow>
          (if errors_Is err (se_registry_ErrNotFound se) then Inl (se_ErrNotFound se) else Inl err)
      | Inr services0 \<Rightarrow>
          (let services = fold (\<lambda>f s. f s) filters services0 in
           if length services = 0 then Inl (se_ErrNoneAvailable se)
           else
             (let nodes = concat (map ms_Nodes services);
                  key = firstNonEmpty [md_get md ''uid'', md_get md ''Uid'', md_get md ''user-id'', md_get md ''x-uid'']
              in if key \<noteq> [] \<and> length nodes > 0
                 then (case hrwPick key nodes of
                         None \<Rightarrow> Inl (se_ErrNoneAvailable se)
                       | Some chosen \<Rightarrow> Inr (Sticky chosen))
                 else Inr (Strategy services))))"

subsection \<open>The choice is the maximum\<close>

text \<open>The specification: the first node whose weight no other node exceeds.\<close>

definition heaviest :: "string \<Rightarrow> node list \<Rightarrow> node option" where
  "heaviest key nodes = find (\<lambda>n. \<forall>m\<in>set nodes. score key m \<le> score key n) nodes"

lemma heaviest_Cons:
  "heaviest key (n # ns) = (if \<forall>m\<in>set ns. score key m \<le> score key n then Some n else heaviest key ns)"
proof (cases "\<forall>m\<in>set ns. score key m \<le> score key n")
  case True
  then show ?thesis by (simp add: heaviest_def)
next
  case False
  then obtain m where m: "m \<in> set ns" "score key n < score key m" by (auto simp: not_le)
  have "(\<forall>k\<in>set (n # ns). score key k \<le> score key x) = (\<forall>k\<in>set ns. score key k \<le> score key x)" for x
    using m by auto
  with False show ?thesis by (auto simp: heaviest_def)
qed

lemma hrw_loop_Some:
  "hrw_loop key (Some b) (score key b) ns =
     (if \<exists>n\<in>set ns. score key b < score key n then heaviest key ns else Some b)"
proof (induction ns arbitrary: b)
  case Nil
  then show ?case by simp
next
  case (Cons n ns)
  note hv = heaviest_Cons [of key n ns]
  show ?case
  proof (cases "score key b < score key n")
    case True
    then have "hrw_loop key (Some b) (score key b) (n # ns) = hrw_loop key (Some n) (score key n) ns"
      by (simp add: Let_def)
    also have "\<dots> = heaviest key (n # ns)"
      unfolding Cons.IH hv by (auto simp: not_le)
    finally show ?thesis using True by auto
  next
    case False
    then have "hrw_loop key (Some b) (score key b) (n # ns) = hrw_loop key (Some b) (score key b) ns"
      by (simp add: Let_def)
    also have "\<dots> = (if \<exists>x\<in>set (n # ns). score key b < score key x then heaviest key (n # ns) else Some b)"
    proof (cases "\<exists>x\<in>set ns. score key b < score key x")
      case True
      then obtain x where x: "x \<in> set ns" "score key b < score key x" by blast
      with False have "score key n < score key x" by simp
      with x have "\<not> (\<forall>m\<in>set ns. score key m \<le> score key n)" by (auto simp: not_le)
      with hv have "heaviest key (n # ns) = heaviest key ns" by simp
      with True Cons.IH [of b] show ?thesis by auto
    next
      case no: False
      with False Cons.IH [of b] show ?thesis by auto
    qed
    finally show ?thesis .
  qed
qed

lemma hrwPick_heaviest: "hrwPick key nodes = heaviest key nodes"
proof (cases nodes)
  case Nil
  then show ?thesis by (simp add: hrwPick_def heaviest_def)
next
  case (Cons n ns)
  then have "hrwPick key nodes = hrw_loop key (Some n) (score key n) ns" by (simp add: hrwPick_def Let_def)
  also have "\<dots> = heaviest key (n # ns)"
    unfolding hrw_loop_Some heaviest_Cons by (auto simp: not_le)
  finally show ?thesis using Cons by simp
qed

lemma heaviest_ex: "nodes \<noteq> [] \<Longrightarrow> \<exists>n\<in>set nodes. \<forall>m\<in>set nodes. score key m \<le> score key n"
proof (induction nodes)
  case Nil
  then show ?case by simp
next
  case (Cons n ns)
  show ?case
  proof (cases "ns = []")
    case False
    with Cons.IH obtain x where x: "x \<in> set ns" "\<forall>m\<in>set ns. score key m \<le> score key x" by blast
    show ?thesis
    proof (cases "score key n \<le> score key x")
      case True
      with x show ?thesis by auto
    next
      case False
      with x have "\<forall>m\<in>set (n # ns). score key m \<le> score key n" by (auto intro: order_trans less_imp_le)
      then show ?thesis by auto
    qed
  qed simp
qed

lemma find_Some_filter:
  assumes "find Q xs = Some x" "P x" "\<And>y. y \<in> set xs \<Longrightarrow> P y \<Longrightarrow> R y \<longleftrightarrow> Q y"
  shows "find R (filter P xs) = Some x"
  using assms by (induction xs) (auto split: if_splits)


text \<open>Two published values of FNV-1a.\<close>

lemma fnv_examples:
  "fnv_Write ''a'' fnv_offset = 0xaf63dc4c8601ec8c" "fnv_Write ''foobar'' fnv_offset = 0x85944171f73967e8"
  by (simp_all add: fnv_Write_def fnv_offset_def fnv_prime_def)

lemma heaviest_mem:
  "heaviest key nodes = Some n \<Longrightarrow> n \<in> set nodes \<and> (\<forall>m\<in>set nodes. score key m \<le> score key n)"
  by (auto simp: heaviest_def find_Some_iff)

lemma heaviest_filter:
  assumes "heaviest key nodes = Some n" "P n"
  shows "heaviest key (filter P nodes) = Some n"
proof -
  have n: "n \<in> set nodes" "\<forall>m\<in>set nodes. score key m \<le> score key n"
    using assms(1) by (auto simp: heaviest_def find_Some_iff)
  show ?thesis unfolding heaviest_def
  proof (rule find_Some_filter [where P = P, OF assms(1) [unfolded heaviest_def] assms(2)])
    fix y
    assume y: "y \<in> set nodes" "P y"
    show "(\<forall>m\<in>set (filter P nodes). score key m \<le> score key y) \<longleftrightarrow> (\<forall>m\<in>set nodes. score key m \<le> score key y)"
    proof
      assume "\<forall>m\<in>set (filter P nodes). score key m \<le> score key y"
      with n(1) assms(2) have "score key n \<le> score key y" by simp
      with n(2) show "\<forall>m\<in>set nodes. score key m \<le> score key y" by (blast intro: order_trans)
    qed simp
  qed
qed

lemma heaviest_None: "heaviest key nodes = None \<longleftrightarrow> nodes = []"
proof -
  have "heaviest key nodes = None \<longleftrightarrow> \<not> (\<exists>n\<in>set nodes. \<forall>m\<in>set nodes. score key m \<le> score key n)"
    by (auto simp: heaviest_def find_None_iff)
  with heaviest_ex [of nodes key] show ?thesis by auto
qed

text \<open>The nodes a request can go to, and its user id.\<close>

definition candidates :: "(micro_service list \<Rightarrow> micro_service list) list \<Rightarrow> micro_service list \<Rightarrow> node list" where
  "candidates filters services = concat (map ms_Nodes (fold (\<lambda>f s. f s) filters services))"

definition user_id :: "(string \<rightharpoonup> string) option \<Rightarrow> string" where
  "user_id md = firstNonEmpty [md_get md ''uid'', md_get md ''Uid'', md_get md ''user-id'', md_get md ''x-uid'']"

lemma Select_Sticky_iff:
  "Select se (Inr services) filters md = Inr (Sticky n) \<longleftrightarrow>
     user_id md \<noteq> [] \<and> heaviest (user_id md) (candidates filters services) = Some n"
proof -
  let ?s = "fold (\<lambda>f s. f s) filters services" and ?k = "user_id md"
  have "Select se (Inr services) filters md =
      (if length ?s = 0 then Inl (se_ErrNoneAvailable se)
       else if ?k \<noteq> [] \<and> length (candidates filters services) > 0
         then (case heaviest ?k (candidates filters services) of
                 None \<Rightarrow> Inl (se_ErrNoneAvailable se) | Some chosen \<Rightarrow> Inr (Sticky chosen))
       else Inr (Strategy ?s))"
    by (simp only: Select_def sum.case Let_def hrwPick_heaviest candidates_def user_id_def)
  moreover have "?s = [] \<Longrightarrow> candidates filters services = []" by (simp add: candidates_def)
  moreover have "candidates filters services = [] \<Longrightarrow> heaviest ?k (candidates filters services) = None"
    by (simp add: heaviest_None)
  ultimately show ?thesis by (auto split: option.splits)
qed

text \<open>The first of the nodes of greatest weight, by its position.\<close>

lemma heaviest_nth:
  "heaviest key nodes = Some n \<Longrightarrow>
     \<exists>p<length nodes. n = nodes ! p \<and> (\<forall>q<length nodes. score key (nodes ! q) \<le> score key (nodes ! p))
       \<and> (\<forall>q<p. score key (nodes ! q) < score key (nodes ! p))"
proof -
  assume "heaviest key nodes = Some n"
  then obtain p where p: "p < length nodes" "n = nodes ! p"
      "\<forall>m\<in>set nodes. score key m \<le> score key (nodes ! p)"
      "\<forall>q<p. \<not> (\<forall>m\<in>set nodes. score key m \<le> score key (nodes ! q))"
    by (auto simp: heaviest_def find_Some_iff)
  have "score key (nodes ! q) < score key (nodes ! p)" if "q < p" for q
  proof -
    from p(4) that obtain m where "m \<in> set nodes" "score key (nodes ! q) < score key m" by (auto simp: not_le)
    with p(3) show ?thesis by (auto intro: less_le_trans)
  qed
  with p show ?thesis by auto
qed

lemma user_id_first:
  assumes "i < 4" "key = md_get md ([''uid'', ''Uid'', ''user-id'', ''x-uid''] ! i)" "key \<noteq> []"
    and "\<forall>j<i. md_get md ([''uid'', ''Uid'', ''user-id'', ''x-uid''] ! j) = []"
  shows "user_id md = key"
proof -
  have "i = 0 \<or> i = 1 \<or> i = 2 \<or> i = 3" using assms(1) by arith
  then show ?thesis using assms(2-4)
    by (elim disjE) (simp_all add: user_id_def numeral_2_eq_2 numeral_3_eq_3 All_less_Suc)
qed

text \<open>Nodes leave and others come: who keeps the node.\<close>

lemma heaviest_keeps:
  assumes h: "heaviest key c = Some n"
    and f: "filter old c' = filter stays c" and "stays n" "old n"
    and w: "\<forall>m\<in>set c'. \<not> old m \<longrightarrow> score key m < score key n"
  shows "heaviest key c' = Some n"
proof -
  have o: "heaviest key (filter old c') = Some n"
    unfolding f by (rule heaviest_filter [where P = stays, OF h \<open>stays n\<close>])
  have n: "n \<in> set c'" using heaviest_mem [OF o] by auto
  then obtain x where x: "heaviest key c' = Some x" using heaviest_None [of key c'] by auto
  have xm: "x \<in> set c'" "\<forall>m\<in>set c'. score key m \<le> score key x" using heaviest_mem [OF x] by auto
  have "old x"
  proof (rule ccontr)
    assume "\<not> old x"
    with w xm n show False by (auto simp: not_less [symmetric])
  qed
  from heaviest_filter [where P = old, OF x this] o have "x = n" by simp
  with x show ?thesis by simp
qed

text \<open>
  C40: a request whose metadata names a user, under \<open>uid\<close>, \<open>Uid\<close>, \<open>user-id\<close> or \<open>x-uid\<close>, of
  which the first that is not empty counts, goes to a node as soon as the filters leave one:
  to the one of greatest weight for this user, the first of several.  When nodes leave and
  others come, in any positions and under any filters, a user whose node stays and is not
  reached by the weight of a new one keeps it: only the users of the nodes that leave, and
  those the new nodes win, are moved.
\<close>

theorem Select_sticky:
  assumes "i < 4" "key = md_get md ([''uid'', ''Uid'', ''user-id'', ''x-uid''] ! i)" "key \<noteq> []"
    and "\<forall>j<i. md_get md ([''uid'', ''Uid'', ''user-id'', ''x-uid''] ! j) = []"
    and "nodes = candidates filters services" "nodes \<noteq> []"
    and "nodes' = candidates filters' services'" "filter old nodes' = filter stays nodes"
  shows "\<exists>p<length nodes.
      Select se (Inr services) filters md = Inr (Sticky (nodes ! p))
    \<and> (\<forall>q<length nodes. score key (nodes ! q) \<le> score key (nodes ! p))
    \<and> (\<forall>q<p. score key (nodes ! q) < score key (nodes ! p))
    \<and> (stays (nodes ! p) \<and> old (nodes ! p)
        \<and> (\<forall>m\<in>set nodes'. \<not> old m \<longrightarrow> score key m < score key (nodes ! p))
       \<longrightarrow> Select se' (Inr services') filters' md = Inr (Sticky (nodes ! p)))"
proof -
  have u: "user_id md = key" by (rule user_id_first [OF assms(1-4)])
  from assms(6) heaviest_None [of key nodes] obtain n where n: "heaviest key nodes = Some n" by auto
  from heaviest_nth [OF this] obtain p where p: "p < length nodes" "n = nodes ! p"
      "\<forall>q<length nodes. score key (nodes ! q) \<le> score key (nodes ! p)"
      "\<forall>q<p. score key (nodes ! q) < score key (nodes ! p)" by blast
  have "Select se (Inr services) filters md = Inr (Sticky (nodes ! p))"
    using n p(2) u assms(3,5) by (simp add: Select_Sticky_iff)
  moreover have "Select se' (Inr services') filters' md = Inr (Sticky (nodes ! p))"
    if "stays (nodes ! p)" "old (nodes ! p)" "\<forall>m\<in>set nodes'. \<not> old m \<longrightarrow> score key m < score key (nodes ! p)"
    using heaviest_keeps [OF n assms(8)] that p(2) u assms(3,7) by (simp add: Select_Sticky_iff)
  ultimately show ?thesis using p by blast
qed

text \<open>Three nodes, of which one leaves while another one comes; the user keeps the node.\<close>

definition sample_nodes :: "node list" where
  "sample_nodes = [\<lparr>nd_Id = ''n1'', nd_addr = 11\<rparr>, \<lparr>nd_Id = ''n2'', nd_addr = 12\<rparr>, \<lparr>nd_Id = ''n3'', nd_addr = 13\<rparr>]"


definition sample_errors :: selector_errors where
  "sample_errors = \<lparr>se_registry_ErrNotFound = Errs ''service not found'', se_ErrNotFound = Errs ''not found'',
     se_ErrNoneAvailable = Errs ''none available''\<rparr>"

text \<open>The user is named under the third key, and the first is there but empty.\<close>

lemma Select_sticky_witness:
  "Select sample_errors (Inr [\<lparr>ms_Nodes = sample_nodes\<rparr>]) [] (Some [''uid'' \<mapsto> [], ''user-id'' \<mapsto> ''u1''])
     = Inr (Sticky (sample_nodes ! 1))
   \<and> Select sample_errors (Inr [\<lparr>ms_Nodes = tl sample_nodes\<rparr>, \<lparr>ms_Nodes = [\<lparr>nd_Id = ''n4'', nd_addr = 14\<rparr>]\<rparr>]) []
       (Some [''uid'' \<mapsto> [], ''user-id'' \<mapsto> ''u1'']) = Inr (Sticky (sample_nodes ! 1))"
proof -
  let ?n = "\<lparr>nd_Id = ''n2'', nd_addr = 12\<rparr>" and ?md = "Some [''uid'' \<mapsto> [], ''user-id'' \<mapsto> ''u1'']"
    and ?new = "\<lparr>nd_Id = ''n4'', nd_addr = 14\<rparr>"
  let ?old = "\<lambda>m. nd_addr m \<noteq> 14" and ?stays = "\<lambda>m. nd_addr m \<noteq> 11"
  have sc: "score ''u1'' \<lparr>nd_Id = ''n1'', nd_addr = 11\<rparr> = 0xa5c9c5745c8a16bc" "score ''u1'' ?n = 0xa5c9c8745c8a1bd5"
    "score ''u1'' \<lparr>nd_Id = ''n3'', nd_addr = 13\<rparr> = 0xa5c9c7745c8a1a22" "score ''u1'' ?new = 0xa5c9c2745c8a11a3"
    by (simp_all add: score_def fnv_Write_def fnv_offset_def fnv_prime_def)
  have c: "candidates [] [\<lparr>ms_Nodes = sample_nodes\<rparr>] = sample_nodes"
    "candidates [] [\<lparr>ms_Nodes = tl sample_nodes\<rparr>, \<lparr>ms_Nodes = [?new]\<rparr>] = tl sample_nodes @ [?new]"
    by (simp_all add: candidates_def)
  have f: "filter ?old (tl sample_nodes @ [?new]) = filter ?stays sample_nodes"
    and w: "\<forall>m\<in>set (tl sample_nodes @ [?new]). \<not> ?old m \<longrightarrow> score ''u1'' m < score ''u1'' (sample_nodes ! 1)"
    and o: "?stays (sample_nodes ! 1)" "?old (sample_nodes ! 1)"
    using sc by (simp_all add: sample_nodes_def)
  from f have f': "filter ?old (tl sample_nodes) = filter ?stays sample_nodes" by simp
  have len: "length sample_nodes = 3" "sample_nodes \<noteq> []" by (simp_all add: sample_nodes_def)
  have first: "p = 1" if "p < 3" "\<forall>q<3. score ''u1'' (sample_nodes ! q) \<le> score ''u1'' (sample_nodes ! p)" for p
  proof -
    from that(1) have "p = 0 \<or> p = 1 \<or> p = 2" by arith
    with that(2) [rule_format, of 1] sc show ?thesis
      by (auto simp: sample_nodes_def word_le_nat_alt)
  qed
  have "\<exists>p<length sample_nodes.
      Select sample_errors (Inr [\<lparr>ms_Nodes = sample_nodes\<rparr>]) [] ?md = Inr (Sticky (sample_nodes ! p))
    \<and> (\<forall>q<length sample_nodes. score ''u1'' (sample_nodes ! q) \<le> score ''u1'' (sample_nodes ! p))
    \<and> (\<forall>q<p. score ''u1'' (sample_nodes ! q) < score ''u1'' (sample_nodes ! p))
    \<and> (?stays (sample_nodes ! p) \<and> ?old (sample_nodes ! p)
        \<and> (\<forall>m\<in>set (tl sample_nodes @ [?new]). \<not> ?old m \<longrightarrow> score ''u1'' m < score ''u1'' (sample_nodes ! p))
       \<longrightarrow> Select sample_errors (Inr [\<lparr>ms_Nodes = tl sample_nodes\<rparr>, \<lparr>ms_Nodes = [?new]\<rparr>]) [] ?md
             = Inr (Sticky (sample_nodes ! p)))"
    by (rule Select_sticky [where i = 2])
      (simp_all add: md_get_def c f' len less_Suc_eq numeral_2_eq_2)
  then show ?thesis using first w o unfolding len(1) by blast
qed

end
