(* ===== verification/MicroSelectorState.thy ===== *)
theory MicroSelectorState
  imports MicroSelector
begin

text \<open>
  The state of the selector of selector.go: its options and its cache, which \<open>Init\<close> replaces and
  \<open>Close\<close> stops.  The caches of go-micro are kept in a table: a pointer is a position of it, an
  entry has the registry and the time to live the cache was made with, and whether it runs.  A
  strategy is given by its number, 0 being \<open>selector.Random\<close>.
\<close>

text \<open>\<open>so_Context\<close>: no context, or one with or without a duration under \<open>"selector_ttl"\<close>.\<close>

record selector_options =
  so_Registry :: ptr
  so_Strategy :: nat
  so_Context :: "(duration option) option"

record selector_cache =
  sc_Registry :: ptr
  sc_TTL :: "duration option"
  sc_running :: bool

record id_selector =
  is_so :: selector_options
  is_rc :: nat

type_synonym caches = "selector_cache list"

definition newCache :: "selector_options \<Rightarrow> caches \<Rightarrow> nat \<times> caches" where
  "newCache so cs =
     (let ttl = (case so_Context so of None \<Rightarrow> None | Some v \<Rightarrow> v)
      in (length cs, cs @ [\<lparr>sc_Registry = so_Registry so, sc_TTL = ttl, sc_running = True\<rparr>]))"

definition cache_Stop :: "nat \<Rightarrow> caches \<Rightarrow> caches" where
  "cache_Stop a cs = cs[a := (cs ! a)\<lparr>sc_running := False\<rparr>]"

definition selector_Init ::
  "(selector_options \<Rightarrow> selector_options) list \<Rightarrow> id_selector \<times> caches \<Rightarrow> id_selector \<times> caches" where
  "selector_Init opts sc =
     (let (c, cs) = sc;
          so1 = fold (\<lambda>f so. f so) opts (is_so c);
          cs1 = cache_Stop (is_rc c) cs;
          (rc1, cs2) = newCache so1 cs1
      in (\<lparr>is_so = so1, is_rc = rc1\<rparr>, cs2))"

definition selector_Options :: "id_selector \<times> caches \<Rightarrow> selector_options" where
  "selector_Options sc = is_so (fst sc)"

text \<open>\<open>Mark\<close> and \<open>Reset\<close> do nothing: a node that failed is chosen again.\<close>

definition selector_Mark :: "string \<Rightarrow> string \<Rightarrow> error option \<Rightarrow> id_selector \<times> caches \<Rightarrow> id_selector \<times> caches" where
  "selector_Mark service node err sc = sc"

definition selector_Reset :: "string \<Rightarrow> id_selector \<times> caches \<Rightarrow> id_selector \<times> caches" where
  "selector_Reset service sc = sc"

definition selector_Close :: "id_selector \<times> caches \<Rightarrow> id_selector \<times> caches" where
  "selector_Close sc = (let (c, cs) = sc in (c, cache_Stop (is_rc c) cs))"

definition newSelector ::
  "nat \<Rightarrow> (selector_options \<Rightarrow> selector_options) list \<Rightarrow> caches \<Rightarrow> id_selector \<times> caches" where
  "newSelector DefaultRegistry opts cs =
     (let sopts = fold (\<lambda>f so. f so) opts \<lparr>so_Registry = None, so_Strategy = 0, so_Context = None\<rparr>;
          sopts1 = (if so_Registry sopts = None then sopts\<lparr>so_Registry := Some DefaultRegistry\<rparr> else sopts);
          (rc, cs1) = newCache sopts1 cs
      in (\<lparr>is_so = sopts1, is_rc = rc\<rparr>, cs1))"

definition NewSelectorDependId :: "nat \<Rightarrow> ptr \<Rightarrow> caches \<Rightarrow> id_selector \<times> caches" where
  "NewSelectorDependId DefaultRegistry reg =
     newSelector DefaultRegistry [\<lambda>so. so\<lparr>so_Strategy := 0\<rparr>, \<lambda>so. so\<lparr>so_Registry := reg\<rparr>]"

text \<open>
  A call of \<open>Select\<close> as a whole: the strategy, filters and metadata its options end with, and the
  services that the cache has for the name.
\<close>

record select_options =
  sx_Strategy :: nat
  sx_Filters :: "(micro_service list \<Rightarrow> micro_service list) list"
  sx_Metadata :: "(string \<rightharpoonup> string) option"

definition selector_Select ::
  "(selector_cache \<Rightarrow> string \<Rightarrow> error + micro_service list) \<Rightarrow> selector_errors \<Rightarrow> string
     \<Rightarrow> (select_options \<Rightarrow> select_options) list \<Rightarrow> id_selector \<times> caches \<Rightarrow> nat \<times> (error + next_node)" where
  "selector_Select GetService se service opts sc =
     (let (c, cs) = sc;
          sopts = fold (\<lambda>f so. f so) opts \<lparr>sx_Strategy = so_Strategy (is_so c), sx_Filters = [], sx_Metadata = None\<rparr>
      in (sx_Strategy sopts, Select se (GetService (cs ! is_rc c) service) (sx_Filters sopts) (sx_Metadata sopts)))"

subsection \<open>One cache\<close>

text \<open>One cache runs, the one the selector asks, and it was made from the selector's options.\<close>

definition selector_ok :: "nat \<Rightarrow> id_selector \<times> caches \<Rightarrow> bool" where
  "selector_ok n0 sc \<longleftrightarrow>
     (let (c, cs) = sc
      in n0 \<le> is_rc c \<and> is_rc c < length cs
        \<and> cs ! is_rc c = \<lparr>sc_Registry = so_Registry (is_so c),
             sc_TTL = (case so_Context (is_so c) of None \<Rightarrow> None | Some v \<Rightarrow> v), sc_running = True\<rparr>
        \<and> (\<forall>a. n0 \<le> a \<and> a < length cs \<and> sc_running (cs ! a) \<longrightarrow> a = is_rc c))"

lemma selector_ok_new: "selector_ok (length cs) (newSelector r opts cs)"
  by (simp add: selector_ok_def newSelector_def newCache_def Let_def nth_append)

lemma selector_ok_Init:
  assumes "selector_ok n0 sc"
  shows "selector_ok n0 (selector_Init opts sc)"
proof -
  obtain c cs where sc: "sc = (c, cs)" by force
  have "length (cache_Stop (is_rc c) cs) = length cs" by (simp add: cache_Stop_def)
  moreover have "\<not> sc_running (cache_Stop (is_rc c) cs ! a)" if "n0 \<le> a" "a < length cs" for a
    using assms that unfolding sc selector_ok_def cache_Stop_def by (auto simp: nth_list_update)
  ultimately show ?thesis
    using assms unfolding sc by (auto simp: selector_ok_def selector_Init_def newCache_def Let_def nth_append)
qed

text \<open>After \<open>Close\<close> none of its caches runs.\<close>

lemma selector_Close_stops:
  assumes "selector_ok n0 sc"
  shows "\<forall>a. n0 \<le> a \<and> a < length (snd (selector_Close sc)) \<longrightarrow> \<not> sc_running (snd (selector_Close sc) ! a)"
proof -
  obtain c cs where sc: "sc = (c, cs)" by force
  show ?thesis
    using assms unfolding sc selector_ok_def selector_Close_def cache_Stop_def by (auto simp: nth_list_update)
qed

lemma selector_Inits:
  "selector_ok (length cs) (fold selector_Init optss (newSelector r opts cs))"
proof -
  have "selector_ok n0 sc \<Longrightarrow> selector_ok n0 (fold selector_Init optss sc)" for n0 sc
    by (induction optss arbitrary: sc) (simp_all add: selector_ok_Init)
  with selector_ok_new show ?thesis by blast
qed

end
