(* ===== verification/Metrics.thy ===== *)
theory Metrics
  imports GoStrings Float64 "HOL-Library.List_Lexorder" "HOL-Library.Char_ord"
begin

text \<open>
  metrics.go of package \<open>telemetry\<close>: the registry of counters in the text format of Prometheus.
  Labels are the pairs of the Go map in the order in which \<open>range\<close> gives them, each key once.  A
  counter is a \<open>float64\<close>, added to with rounding; how \<open>%g\<close> prints it is an argument.  Each
  operation holds the mutex, so calls of several goroutines happen in some order.
\<close>

subsection \<open>Keys\<close>

type_synonym labels = "(string \<times> string) list"

definition quote :: char where "quote = CHR 0x22"

definition label_pair :: "labels \<Rightarrow> string \<Rightarrow> string" where
  "label_pair labels key =
     key @ CHR ''='' # quote # ReplaceAll_char quote [CHR 0x5C, CHR 0x5C, quote] (the (map_of labels key)) @ [quote]"

definition metricKey :: "string \<Rightarrow> labels \<Rightarrow> string" where
  "metricKey name labels =
     (if length labels = 0 then name
      else (let keys = sort (map fst labels);
                pairs = map (label_pair labels) keys
            in name @ ''{'' @ strings_Join pairs '','' @ ''}''))"

subsection \<open>The registry\<close>

text \<open>A registry is a pointer: a nil one ignores what is added.\<close>

type_synonym registry = "(string \<rightharpoonup> rat) option"

definition NewRegistry :: registry where
  "NewRegistry = Some (\<lambda>_. None)"

definition counter :: "(string \<rightharpoonup> rat) \<Rightarrow> string \<Rightarrow> rat" where
  "counter counters key = (case counters key of None \<Rightarrow> 0 | Some x \<Rightarrow> x)"

definition metrics_Add :: "string \<Rightarrow> labels \<Rightarrow> rat \<Rightarrow> registry \<Rightarrow> registry" where
  "metrics_Add name labels value r =
     (case r of
        None \<Rightarrow> None
      | Some counters \<Rightarrow>
          (let key = metricKey name labels in Some (counters(key \<mapsto> fl (counter counters key + value)))))"

definition Inc :: "string \<Rightarrow> labels \<Rightarrow> registry \<Rightarrow> registry" where
  "Inc name labels = metrics_Add name labels 1"

definition Observe :: "string \<Rightarrow> labels \<Rightarrow> rat \<Rightarrow> registry \<Rightarrow> registry" where
  "Observe name labels value r = metrics_Add (name @ ''_count'') labels 1 (metrics_Add (name @ ''_sum'') labels value r)"

text \<open>The body \<open>Handler\<close> writes.\<close>

definition metrics_Handler :: "(rat \<Rightarrow> string) \<Rightarrow> (string \<rightharpoonup> rat) \<Rightarrow> string" where
  "metrics_Handler fmt_g counters =
     concat (map (\<lambda>key. key @ '' '' @ fmt_g (counter counters key) @ [CHR 0x0A]) (sorted_list_of_set (dom counters)))"

subsection \<open>Keys separate metrics\<close>

text \<open>
  The text after the name, from outside and from inside a value.  The code escapes a quote with
  two backslashes, which Prometheus does not read as a quote; still no two sets of labels share
  a key, because the two ways to read a text would stay out of step up to its end.
\<close>

definition esc_value :: "string \<Rightarrow> string" where
  "esc_value = ReplaceAll_char quote [CHR 0x5C, CHR 0x5C, quote]"

fun outside :: "labels \<Rightarrow> string" where
  "outside [] = ''}''"
| "outside ((k, v) # ps) = CHR '','' # k @ CHR ''='' # quote # esc_value v @ quote # outside ps"

definition inside :: "string \<Rightarrow> labels \<Rightarrow> string" where
  "inside v ps = esc_value v @ quote # outside ps"

lemma outside_Cons: "outside ((k, v) # ps) = (CHR '','' # k @ ''='') @ quote # inside v ps"
  by (simp add: inside_def)

lemma esc_value_plain: "quote \<notin> set v \<Longrightarrow> esc_value v = v"
  by (induction v) (auto simp: esc_value_def ReplaceAll_char_def)

lemma esc_value_append: "esc_value (a @ b) = esc_value a @ esc_value b"
  by (simp add: esc_value_def ReplaceAll_char_def)

lemma inside_plain: "quote \<notin> set v \<Longrightarrow> inside v ps = v @ quote # outside ps"
  by (simp add: inside_def esc_value_plain)

lemma inside_quote: "quote \<notin> set a \<Longrightarrow> inside (a @ quote # r) ps = (a @ [CHR 0x5C, CHR 0x5C]) @ quote # inside r ps"
  by (simp add: inside_def esc_value_append esc_value_plain) (simp add: esc_value_def ReplaceAll_char_def)

lemma value_cases:
  obtains "quote \<notin> set v" | a r where "v = a @ quote # r" "quote \<notin> set a"
  by (meson split_list_first)

text \<open>Two texts agree up to the first quote.\<close>

lemma first_quote:
  "a @ quote # x = b @ quote # y \<Longrightarrow> quote \<notin> set a \<Longrightarrow> quote \<notin> set b \<Longrightarrow> a = b \<and> x = y"
proof (induction a arbitrary: b)
  case Nil
  then show ?case by (cases b) auto
next
  case (Cons c a)
  then show ?case by (cases b) auto
qed

lemma outside_not_inside:
  assumes "outside ps = inside v qs" "\<forall>p\<in>set ps \<union> set qs. quote \<notin> set (fst p)"
  shows False
  using assms
proof (induction "length (outside ps)" arbitrary: ps v qs rule: less_induct)
  case less
  show ?case
  proof (cases ps)
    case Nil
    with less.prems have "quote \<in> set ''}''" by (metis inside_def in_set_conv_decomp outside.simps(1))
    then show False by (simp add: quote_def)
  next
    case (Cons p ps')
    obtain k v' where p: "p = (k, v')" by force
    let ?h = "CHR '','' # k @ ''=''"
    have h: "quote \<notin> set ?h" using less.prems(2) Cons p by (auto simp: quote_def)
    have eq: "?h @ quote # inside v' ps' = inside v qs"
      using less.prems(1) unfolding Cons p outside_Cons .
    show False
    proof (cases v rule: value_cases)
      case 1
      with eq have v: "?h = v" and o: "inside v' ps' = outside qs"
        using first_quote [OF _ h] by (simp_all add: inside_plain)
      have "length (outside qs) < length (outside ps)"
        unfolding less.prems(1) inside_def by simp
      moreover have "\<forall>p\<in>set qs \<union> set ps'. quote \<notin> set (fst p)" using less.prems(2) Cons by auto
      ultimately show False using less.hyps o by metis
    next
      case (2 a r)
      have a: "quote \<notin> set (a @ [CHR 0x5C, CHR 0x5C])" using 2 by (auto simp: quote_def)
      have "?h = a @ [CHR 0x5C, CHR 0x5C]"
        using first_quote [OF eq [unfolded 2(1) inside_quote [OF 2(2)]] h a] by simp
      then have "last ?h = last (a @ [CHR 0x5C, CHR 0x5C])" by (rule arg_cong)
      then show False by simp
    qed
  qed
qed

lemma inside_inj:
  assumes "inside v ps = inside v' qs" "\<forall>p\<in>set ps \<union> set qs. quote \<notin> set (fst p)"
  shows "v = v' \<and> outside ps = outside qs"
  using assms(1)
proof (induction "length v" arbitrary: v v' rule: less_induct)
  case less
  have bs: "quote \<notin> set [CHR 0x5C, CHR 0x5C]" by (simp add: quote_def)
  have no: "False" if "quote \<notin> set a" "quote \<notin> set b" "inside a xs = inside (b @ quote # r) ys"
    "\<forall>p\<in>set xs \<union> set ys. quote \<notin> set (fst p)" for a b r xs ys
  proof -
    have "a @ quote # outside xs = (b @ [CHR 0x5C, CHR 0x5C]) @ quote # inside r ys"
      using that by (simp add: inside_plain inside_quote)
    moreover have "quote \<notin> set (b @ [CHR 0x5C, CHR 0x5C])" using that(2) bs by simp
    ultimately have "outside xs = inside r ys" using first_quote that(1) by blast
    then show False by (rule outside_not_inside [OF _ that(4)])
  qed
  show ?case
  proof (cases v rule: value_cases)
    case v: 1
    show ?thesis
    proof (cases v' rule: value_cases)
      case 1
      have "v @ quote # outside ps = v' @ quote # outside qs"
        using less.prems by (simp only: inside_plain [OF v] inside_plain [OF 1])
      from first_quote [OF this v 1] show ?thesis .
    next
      case (2 a r)
      with no [OF v 2(2)] less.prems assms(2) show ?thesis by blast
    qed
  next
    case v: (2 a r)
    show ?thesis
    proof (cases v' rule: value_cases)
      case 1
      have "inside v' qs = inside (a @ quote # r) ps" using less.prems v(1) by simp
      with no [OF 1 v(2)] assms(2) show ?thesis by blast
    next
      case (2 a' r')
      have eq: "(a @ [CHR 0x5C, CHR 0x5C]) @ quote # inside r ps = (a' @ [CHR 0x5C, CHR 0x5C]) @ quote # inside r' qs"
        using less.prems unfolding v(1) 2(1) inside_quote [OF v(2)] inside_quote [OF 2(2)] .
      have "quote \<notin> set (a @ [CHR 0x5C, CHR 0x5C])" "quote \<notin> set (a' @ [CHR 0x5C, CHR 0x5C])"
        using v(2) 2(2) bs by simp_all
      from first_quote [OF eq this] have "a = a'" "inside r ps = inside r' qs" by simp_all
      moreover have "length r < length v" using v(1) by simp
      ultimately show ?thesis using less.hyps v(1) 2(1) by blast
    qed
  qed
qed

lemma outside_inj:
  "outside ps = outside qs \<Longrightarrow> \<forall>p\<in>set ps \<union> set qs. quote \<notin> set (fst p) \<Longrightarrow> ps = qs"
proof (induction ps arbitrary: qs)
  case Nil
  then show ?case by (cases qs) auto
next
  case (Cons p ps)
  obtain k v where p: "p = (k, v)" by force
  show ?case
  proof (cases qs)
    case Nil
    with Cons.prems p show ?thesis by auto
  next
    case qs: (Cons q qs')
    obtain k' v' where q: "q = (k', v')" by force
    have k: "quote \<notin> set (CHR '','' # k @ ''='')" "quote \<notin> set (CHR '','' # k' @ ''='')"
      using Cons.prems(2) p q qs by (auto simp: quote_def)
    have "CHR '','' # k @ ''='' = CHR '','' # k' @ ''='' \<and> inside v ps = inside v' qs'"
      using Cons.prems(1) unfolding p q qs outside_Cons by (rule first_quote [OF _ k])
    moreover have pl: "\<forall>p\<in>set ps \<union> set qs'. quote \<notin> set (fst p)" using Cons.prems(2) qs by auto
    ultimately have "k = k'" "v = v'" "outside ps = outside qs'"
      using inside_inj [of v ps v' qs'] by auto
    with Cons.IH [OF _ pl] p q qs show ?thesis by simp
  qed
qed

text \<open>The labels sorted by name.\<close>

definition sorted_labels :: "labels \<Rightarrow> labels" where
  "sorted_labels labels = map (\<lambda>k. (k, the (map_of labels k))) (sort (map fst labels))"

lemma sorted_labels_Nil [simp]: "sorted_labels labels = [] \<longleftrightarrow> labels = []"
  by (simp only: sorted_labels_def length_0_conv [symmetric] length_map length_sort)

lemma join_outside: "ps \<noteq> [] \<Longrightarrow>
  CHR '','' # strings_Join (map (\<lambda>(k, v). k @ CHR ''='' # quote # esc_value v @ [quote]) ps) '','' @ ''}'' = outside ps"
proof (induction ps)
  case (Cons p ps)
  obtain k v where p: "p = (k, v)" by force
  with Cons show ?case by (cases ps) auto
qed simp

lemma metricKey_outside:
  "metricKey name labels = (if labels = [] then name else name @ ''{'' @ tl (outside (sorted_labels labels)))"
proof (cases "labels = []")
  case False
  have "map (label_pair labels) (sort (map fst labels)) =
      map (\<lambda>(k, v). k @ CHR ''='' # quote # esc_value v @ [quote]) (sorted_labels labels)"
    by (simp add: sorted_labels_def label_pair_def esc_value_def)
  moreover have "sorted_labels labels \<noteq> []" using False by simp
  ultimately show ?thesis
    using False join_outside [of "sorted_labels labels"] by (simp add: metricKey_def Let_def flip: join_outside)
qed (simp add: metricKey_def)

lemma map_of_sorted_labels: "distinct (map fst labels) \<Longrightarrow> map_of (sorted_labels labels) = map_of labels"
proof
  fix k
  assume "distinct (map fst labels)"
  have "map_of (sorted_labels labels) k = (if k \<in> set (map fst labels) then Some (the (map_of labels k)) else None)"
    by (simp add: sorted_labels_def map_of_map_restrict restrict_map_def)
  also have "\<dots> = map_of labels k"
    using map_of_eq_None_iff [of labels k] by auto
  finally show "map_of (sorted_labels labels) k = map_of labels k" .
qed

lemma sorted_labels_eq_iff:
  assumes "distinct (map fst labels)" "distinct (map fst labels')"
  shows "sorted_labels labels = sorted_labels labels' \<longleftrightarrow> map_of labels = map_of labels'"
proof
  assume "sorted_labels labels = sorted_labels labels'"
  then show "map_of labels = map_of labels'"
    using map_of_sorted_labels assms by metis
next
  assume m: "map_of labels = map_of labels'"
  then have "set (map fst labels) = set (map fst labels')" by (metis dom_map_of_conv_image_fst set_map)
  then have "sort (map fst labels) = sort (map fst labels')"
    using assms by (metis sorted_list_of_set_sort_remdups distinct_remdups_id)
  with m show "sorted_labels labels = sorted_labels labels'" by (simp add: sorted_labels_def)
qed

definition plain_metric :: "string \<Rightarrow> labels \<Rightarrow> bool" where
  "plain_metric name labels \<longleftrightarrow>
     CHR ''{'' \<notin> set name \<and> distinct (map fst labels) \<and> (\<forall>p\<in>set labels. quote \<notin> set (fst p))"

lemma metricKey_name:
  assumes "CHR ''{'' \<notin> set name"
  shows "takeWhile (\<lambda>c. c \<noteq> CHR ''{'') (metricKey name labels) = name"
proof -
  have "takeWhile (\<lambda>c. c \<noteq> CHR ''{'') (name @ x) = name @ takeWhile (\<lambda>c. c \<noteq> CHR ''{'') x" for x
    by (rule takeWhile_append2) (use assms in auto)
  from this [of "[]"] this [of "CHR ''{'' # tl (outside (sorted_labels labels))"] show ?thesis
    by (simp add: metricKey_outside)
qed

lemma set_sorted_labels: "p \<in> set (sorted_labels labels) \<Longrightarrow> fst p \<in> fst ` set labels"
  unfolding sorted_labels_def by (auto intro: rev_image_eqI)

lemma outside_tl: "outside ps = (if ps = [] then CHR ''}'' else CHR '','') # tl (outside ps)"
  by (cases ps) auto

lemma metricKey_eq_iff:
  assumes "plain_metric name labels" "plain_metric name' labels'"
  shows "metricKey name labels = metricKey name' labels' \<longleftrightarrow> name = name' \<and> map_of labels = map_of labels'"
proof
  assume eq: "metricKey name labels = metricKey name' labels'"
  have n: "name = name'"
    using metricKey_name [of name labels] metricKey_name [of name' labels'] eq assms by (simp add: plain_metric_def)
  have "sorted_labels labels = sorted_labels labels'"
  proof (cases "labels = [] \<or> labels' = []")
    case True
    with eq n have "labels = []" "labels' = []"
      by (auto simp: metricKey_outside split: if_splits)
    then show ?thesis by simp
  next
    case False
    with eq n have t: "tl (outside (sorted_labels labels)) = tl (outside (sorted_labels labels'))"
      by (simp add: metricKey_outside)
    have "outside (sorted_labels labels) = outside (sorted_labels labels')"
      using False t outside_tl [of "sorted_labels labels"] outside_tl [of "sorted_labels labels'"] by auto
    moreover have "\<forall>p\<in>set (sorted_labels labels) \<union> set (sorted_labels labels'). quote \<notin> set (fst p)"
      using assms set_sorted_labels unfolding plain_metric_def by fastforce
    ultimately show ?thesis by (rule outside_inj)
  qed
  with n assms show "name = name' \<and> map_of labels = map_of labels'"
    by (simp add: sorted_labels_eq_iff plain_metric_def)
next
  assume "name = name' \<and> map_of labels = map_of labels'"
  with assms have n: "name = name'" and s: "sorted_labels labels = sorted_labels labels'"
    by (simp_all add: sorted_labels_eq_iff plain_metric_def)
  have "labels = [] \<longleftrightarrow> labels' = []"
    using s sorted_labels_Nil by metis
  with n s show "metricKey name labels = metricKey name' labels'" by (simp add: metricKey_outside)
qed

subsection \<open>Counters count\<close>

text \<open>The calls of \<open>Inc\<close>, one after the other.\<close>

definition Incs :: "(string \<times> labels) list \<Rightarrow> registry \<Rightarrow> registry" where
  "Incs calls r = fold (\<lambda>(name, labels). Inc name labels) calls r"

lemma Incs_snoc: "Incs (calls @ [(name, labels)]) r = Inc name labels (Incs calls r)"
  by (simp add: Incs_def)

definition same_metric :: "string \<Rightarrow> labels \<Rightarrow> string \<times> labels \<Rightarrow> bool" where
  "same_metric name labels call \<longleftrightarrow> fst call = name \<and> map_of (snd call) = map_of labels"

lemma Incs_counter:
  assumes "\<forall>(n, l)\<in>set calls. plain_metric n l" "plain_metric name labels" "int (length calls) \<le> 2 ^ 53"
  shows "\<exists>counters. Incs calls NewRegistry = Some counters
    \<and> counter counters (metricKey name labels) = of_nat (length (filter (same_metric name labels) calls))"
  using assms
proof (induction calls rule: rev_induct)
  case Nil
  then show ?case by (simp add: Incs_def NewRegistry_def counter_def)
next
  case (snoc call calls)
  obtain n l where call: "call = (n, l)" by force
  have pl: "plain_metric n l" and len: "int (length calls) < 2 ^ 53"
    using snoc.prems call by auto
  from snoc obtain counters where c: "Incs calls NewRegistry = Some counters"
    and v: "counter counters (metricKey name labels) = of_nat (length (filter (same_metric name labels) calls))" by auto
  let ?k = "length (filter (same_metric name labels) calls)"
  have "int ?k < 2 ^ 53" using len length_filter_le [of "same_metric name labels" calls] by linarith
  then have r: "fl (of_nat ?k + 1) = of_nat ?k + 1"
    using f64.rnd_int [of "int ?k + 1"] by simp
  have s: "same_metric name labels call \<longleftrightarrow> metricKey n l = metricKey name labels"
    using metricKey_eq_iff [OF pl snoc.prems(2)] by (simp add: call same_metric_def)
  have "Incs (calls @ [call]) NewRegistry =
      Some (counters(metricKey n l \<mapsto> fl (counter counters (metricKey n l) + 1)))"
    by (simp add: call Incs_snoc c Inc_def metrics_Add_def Let_def)
  then show ?case using v r s by (cases "same_metric name labels call") (auto simp: counter_def)
qed

text \<open>
  C39: the registry counts.  After any sequence of fewer than 2 to the 53 calls of \<open>Inc\<close>, with the
  labels of a call in any order, the counter that \<open>/metrics\<close> shows under the key of a metric is
  the number of calls for this metric: the calls for other metrics, whatever quotes, commas or
  braces the values of the labels contain, do not share it, and no call is lost to rounding.
\<close>

theorem Inc_counts:
  assumes "\<forall>(n, l)\<in>set calls. plain_metric n l" "plain_metric name labels" "int (length calls) \<le> 2 ^ 53"
  shows "\<exists>counters. Incs calls NewRegistry = Some counters
    \<and> counter counters (metricKey name labels) = of_nat (length (filter (same_metric name labels) calls))"
  by (rule Incs_counter [OF assms])

lemma Inc_counts_witness:
  "\<exists>counters. Incs [(''m'', [(''a'', [quote]), (''b'', [])]), (''m'', []), (''m'', [(''b'', []), (''a'', [quote])])] NewRegistry
     = Some counters \<and> counter counters (metricKey ''m'' [(''b'', []), (''a'', [quote])]) = 2"
proof -
  let ?ab = "[(''a'', [quote]), (''b'', [])]" and ?ba = "[(''b'', []), (''a'', [quote])]"
  let ?calls = "[(''m'', ?ab), (''m'', []), (''m'', ?ba)]"
  have "map_of ?ab = map_of ?ba" by (simp add: fun_upd_twist)
  moreover have "map_of [] \<noteq> map_of ?ba" by (auto dest: fun_cong [where x = "''a''"])
  ultimately have "filter (same_metric ''m'' ?ba) ?calls = [(''m'', ?ab), (''m'', ?ba)]"
    by (simp add: same_metric_def del: map_of.simps)
  moreover have "\<forall>(n, l)\<in>set ?calls. plain_metric n l" "plain_metric ''m'' ?ba"
    by (simp_all add: plain_metric_def quote_def)
  ultimately show ?thesis
    using Inc_counts [of ?calls "''m''" ?ba] by (simp add: numeral_2_eq_2)
qed

subsection \<open>Events that are counted and timed\<close>

text \<open>
  The program counts an event under a name and observes its duration under another, with the same
  labels.  Whatever the labels are made from, each event is counted once under its own labels and
  no duration falls into a count.
\<close>

definition account :: "string \<Rightarrow> string \<Rightarrow> labels \<Rightarrow> rat \<Rightarrow> registry \<Rightarrow> registry" where
  "account tot dur labels v r = Observe dur labels v (Inc tot labels r)"

lemma metrics_Add_Some:
  "metrics_Add name labels v (Some cs) = Some (cs(metricKey name labels \<mapsto> fl (counter cs (metricKey name labels) + v)))"
  by (simp add: metrics_Add_def Let_def)

lemma counter_upd: "counter (cs(k \<mapsto> v)) k' = (if k' = k then v else counter cs k')"
  by (simp add: counter_def)

locale counted_events =
  fixes tot dur :: string and labels_of :: "'e \<Rightarrow> labels"
  assumes plain: "plain_metric tot (labels_of e)" "plain_metric (dur @ ''_sum'') (labels_of e)"
      "plain_metric (dur @ ''_count'') (labels_of e)"
    and apart: "tot \<noteq> dur @ ''_sum''" "tot \<noteq> dur @ ''_count''"
begin

lemma account_counter:
  assumes "plain_metric tot l"
  shows "\<exists>cs'. account tot dur (labels_of e) v (Some cs) = Some cs'
    \<and> counter cs' (metricKey tot l) =
        (if map_of l = map_of (labels_of e) then fl (counter cs (metricKey tot l) + 1)
         else counter cs (metricKey tot l))"
proof -
  have "metricKey tot l \<noteq> metricKey (dur @ ''_sum'') (labels_of e)" "metricKey tot l \<noteq> metricKey (dur @ ''_count'') (labels_of e)"
    using metricKey_eq_iff [OF assms plain(2)] metricKey_eq_iff [OF assms plain(3)] apart by simp_all
  then show ?thesis
    using metricKey_eq_iff [OF assms plain(1) [of e]]
    unfolding account_def Observe_def Inc_def metrics_Add_Some by (auto simp: counter_upd)
qed

text \<open>After fewer than 2 to the 53 events a counter is the number of the events with its labels.\<close>

lemma account_counts:
  assumes "plain_metric tot l" "int (length es) \<le> 2 ^ 53"
  shows "\<exists>cs. fold (\<lambda>(e, v). account tot dur (labels_of e) v) es NewRegistry = Some cs
    \<and> counter cs (metricKey tot l) = of_nat (length (filter (\<lambda>(e, v). map_of l = map_of (labels_of e)) es))"
  using assms(2)
proof (induction es rule: rev_induct)
  case Nil
  then show ?case by (simp add: NewRegistry_def counter_def)
next
  case (snoc x es)
  obtain e v where x: "x = (e, v)" by force
  define n where "n = length (filter (\<lambda>(e, v). map_of l = map_of (labels_of e)) es)"
  from snoc obtain cs where cs: "fold (\<lambda>(e, v). account tot dur (labels_of e) v) es NewRegistry = Some cs"
    "counter cs (metricKey tot l) = of_nat n" unfolding n_def by auto
  obtain cs' where cs': "account tot dur (labels_of e) v (Some cs) = Some cs'"
    "counter cs' (metricKey tot l) =
        (if map_of l = map_of (labels_of e) then fl (counter cs (metricKey tot l) + 1)
         else counter cs (metricKey tot l))"
    using account_counter [OF assms(1)] by blast
  have "int n + 1 \<le> 2 ^ 53"
    using snoc.prems order_trans [OF length_filter_le [of "\<lambda>(e, v). map_of l = map_of (labels_of e)" es]] unfolding n_def by simp
  then have "fl (of_nat n + 1) = of_nat n + 1" using f64.rnd_int [of "int n + 1"] by simp
  with cs cs' x show ?case by (simp flip: n_def)
qed

end

end
