(* ===== verification/GinContext.thy ===== *)
theory GinContext
  imports Metrics Logger
begin

text \<open>
  What the handlers of package \<open>transport/http\<close> and of package \<open>middleware\<close> read and write: the
  request and the response of a \<open>gin.Context\<close>, and what a process keeps beside them (counters, log
  lines, spans and timers, the clock).  Gin and net/http are not part of the program; the
  documented behaviour the handlers rely on is written out here.  A handler takes a context and
  returns it changed, with the panic it ended with, if any.  A middleware takes what \<open>c.Next()\<close>
  runs, the handlers after it, and is itself a handler.
\<close>

subsection \<open>Contexts\<close>

record principal =
  pr_Subject :: string
  pr_Attributes :: "string \<rightharpoonup> string"

text \<open>
  The context of the request: the id, the principal (under \<open>principalContextKey\<close>), the
  earliest deadline and the name of the current span.
\<close>

record req_ctx =
  rx_requestID :: string
  rx_principal :: "principal option"
  rx_deadline :: "go_time option"
  rx_span :: "string option"

text \<open>Lines written through the logger \<open>http\<close>: the arguments of the two calls.\<close>

datatype http_line =
    LinePanic string string string
  | LineAccess string string int int string

text \<open>A finished span: its name, and the route and status it was given, if any.\<close>

record http_span =
  hs_name :: string
  hs_status :: "(string \<times> int) option"
  hs_error :: bool

text \<open>
  \<open>gx_FullPath\<close> is the path the matched route was registered with (empty when none matches) and
  \<open>gx_header\<close> what \<open>GetHeader\<close> returns for a name (empty for a missing header).  \<open>gx_status\<close> is the
  status of the response; once the header has been written, it and the headers are fixed.
  \<open>gx_errors\<close> has the messages of the JSON bodies \<open>{"error": ...}\<close> that were written.
\<close>

record gctx =
  gx_Method :: string
  gx_Path :: string
  gx_FullPath :: string
  gx_header :: "string \<Rightarrow> string"
  gx_ctx :: req_ctx
  gx_maxBody :: "int option"
  gx_request_id :: string
  gx_status :: int
  gx_written :: bool
  gx_resp :: "string \<rightharpoonup> string"
  gx_errors :: "string list"
  gx_now :: go_time
  gx_metrics :: registry
  gx_lines :: "http_line list"
  gx_spans :: "http_span list"
  gx_timers :: nat

type_synonym handler_fun = "gctx \<Rightarrow> gctx \<times> string option"
type_synonym middleware = "handler_fun \<Rightarrow> handler_fun"

subsection \<open>Operations of a context\<close>

text \<open>\<open>c.Header\<close>: an empty value deletes the header.\<close>

definition Header :: "string \<Rightarrow> string \<Rightarrow> gctx \<Rightarrow> gctx" where
  "Header key v c =
     (if gx_written c then c
      else c\<lparr>gx_resp := (if v = [] then (gx_resp c)(key := None) else (gx_resp c)(key \<mapsto> v))\<rparr>)"

text \<open>\<open>AbortWithStatus\<close> sets the status and writes the header; a written status stays.\<close>

definition AbortWithStatus :: "int \<Rightarrow> gctx \<Rightarrow> gctx" where
  "AbortWithStatus code c = c\<lparr>gx_status := (if gx_written c then gx_status c else code), gx_written := True\<rparr>"

definition AbortWithStatusJSON :: "int \<Rightarrow> string \<Rightarrow> gctx \<Rightarrow> gctx" where
  "AbortWithStatusJSON code message c =
     (AbortWithStatus code c)\<lparr>gx_errors := gx_errors c @ [message]\<rparr>"

lemma Header_simps [simp]:
  "gx_status (Header k v c) = gx_status c" "gx_written (Header k v c) = gx_written c" "gx_lines (Header k v c) = gx_lines c"
  "gx_spans (Header k v c) = gx_spans c" "gx_timers (Header k v c) = gx_timers c" "gx_metrics (Header k v c) = gx_metrics c"
  "gx_now (Header k v c) = gx_now c" "gx_ctx (Header k v c) = gx_ctx c" "gx_Method (Header k v c) = gx_Method c"
  "gx_FullPath (Header k v c) = gx_FullPath c" "gx_Path (Header k v c) = gx_Path c" "gx_header (Header k v c) = gx_header c"
  "gx_errors (Header k v c) = gx_errors c"
  by (simp_all add: Header_def)

lemma Abort_simps [simp]:
  "gx_written (AbortWithStatus n c)" "gx_lines (AbortWithStatus n c) = gx_lines c"
  "gx_spans (AbortWithStatus n c) = gx_spans c" "gx_timers (AbortWithStatus n c) = gx_timers c"
  "gx_metrics (AbortWithStatus n c) = gx_metrics c" "gx_resp (AbortWithStatus n c) = gx_resp c"
  "\<not> gx_written c \<Longrightarrow> gx_status (AbortWithStatus n c) = n" "gx_written c \<Longrightarrow> gx_status (AbortWithStatus n c) = gx_status c"
  by (simp_all add: AbortWithStatus_def)

text \<open>Gin runs the middlewares of a route in the order they were added, then the handler.\<close>

definition chain :: "middleware list \<Rightarrow> handler_fun \<Rightarrow> handler_fun" where
  "chain ms h = foldr (\<lambda>m next. m next) ms h"

lemma chain_simps [simp]: "chain [] h = h" "chain (m # ms) h = m (chain ms h)"
  by (simp_all add: chain_def)

lemma chain_append: "chain (ms @ ns) h = chain ms (chain ns h)"
  by (simp add: chain_def)

subsection \<open>Gates\<close>

text \<open>
  A gate either passes a request on, changed, or answers it itself, in which case no handler
  after it runs, whatever the handlers are.
\<close>

locale gate =
  fixes m :: middleware and pass :: "gctx \<Rightarrow> gctx option" and refuse :: "gctx \<Rightarrow> gctx"
  assumes gate_law: "m next c = (case pass c of Some c' \<Rightarrow> next c' | None \<Rightarrow> (refuse c, None))"
begin

lemma gate_pass: "pass c = Some c' \<Longrightarrow> m next c = next c'"
  by (simp add: gate_law)

lemma gate_refuse: "pass c = None \<Longrightarrow> m next c = (refuse c, None)"
  by (simp add: gate_law)

text \<open>What every handler after the gate answers holds of the whole unless the gate refused.\<close>

lemma gate_cases:
  assumes "\<And>c'. pass c = Some c' \<Longrightarrow> Q (next c')" "pass c = None \<Longrightarrow> Q (refuse c, None)"
  shows "Q (m next c)"
  using assms by (cases "pass c") (simp_all add: gate_law)

end

text \<open>Two gates in a row are a gate.\<close>

locale two_gates = first_gate: gate m1 pass1 refuse1 + second_gate: gate m2 pass2 refuse2
  for m1 pass1 refuse1 m2 pass2 refuse2
begin

definition both :: middleware where "both next = m1 (m2 next)"

definition pass_both :: "gctx \<Rightarrow> gctx option" where
  "pass_both c = (case pass1 c of None \<Rightarrow> None | Some c1 \<Rightarrow> pass2 c1)"

definition refuse_both :: "gctx \<Rightarrow> gctx" where
  "refuse_both c = (case pass1 c of None \<Rightarrow> refuse1 c | Some c1 \<Rightarrow> refuse2 c1)"

end

sublocale two_gates \<subseteq> both: gate both pass_both refuse_both
  by unfold_locales
    (simp add: both_def pass_both_def refuse_both_def first_gate.gate_law second_gate.gate_law split: option.splits)

end
