(* ===== verification/HttpServer.thy ===== *)
theory HttpServer
  imports GinContext TransportHttp
begin

text \<open>
  http.go of package \<open>transport/http\<close>: the five middlewares of every server, the authentication
  middleware of its routes, the routes themselves, and start and stop.  What a route matches is
  gin's and an argument, as is what a listener and \<open>Shutdown\<close> of net/http report.
\<close>

subsection \<open>The middlewares\<close>

definition UnixNano :: "go_time \<Rightarrow> int" where
  "UnixNano t = wrap64 (t - 62135596800 * second)"

definition telemetryMiddleware :: "http_options \<Rightarrow> middleware" where
  "telemetryMiddleware opts next c =
     (let name = gx_Method c @ '' '' @ gx_Path c;
          start = gx_now c;
          (c1, r) = next (c\<lparr>gx_ctx := (gx_ctx c)\<lparr>rx_span := Some name\<rparr>\<rparr>)
      in case r of
           Some e \<Rightarrow> (c1\<lparr>gx_spans := gx_spans c1 @ [\<lparr>hs_name = name, hs_status = None, hs_error = False\<rparr>]\<rparr>, Some e)
         | None \<Rightarrow>
             (let route = (if gx_FullPath c1 = [] then ''unmatched'' else gx_FullPath c1);
                  status = gx_status c1;
                  sp = \<lparr>hs_name = gx_Method c1 @ '' '' @ route, hs_status = Some (route, status), hs_error = (500 \<le> status)\<rparr>;
                  labels = [(''method'', gx_Method c1), (''route'', route), (''status'', Itoa status)];
                  elapsed = Seconds (time_Sub (gx_now c1) start);
                  ms = (if ho_Metrics opts = None then gx_metrics c1
                        else Observe ''wego_http_server_request_duration_seconds'' labels elapsed
                               (Inc ''wego_http_server_requests_total'' labels (gx_metrics c1)))
              in (c1\<lparr>gx_spans := gx_spans c1 @ [sp], gx_metrics := ms\<rparr>, None)))"

definition requestID :: middleware where
  "requestID next c =
     (let id0 = gx_header c ''X-Request-ID'';
          id1 = (if id0 = [] then ''req-'' @ Itoa (UnixNano (gx_now c)) else id0);
          c1 = (Header ''X-Request-ID'' id1 c)\<lparr>gx_request_id := id1\<rparr>
      in next (c1\<lparr>gx_ctx := (gx_ctx c1)\<lparr>rx_requestID := TrimSpace id1\<rparr>\<rparr>))"

text \<open>\<open>context.WithTimeout\<close> keeps an earlier deadline; its timer is cancelled on every way out.\<close>

definition earliest :: "go_time option \<Rightarrow> go_time \<Rightarrow> go_time" where
  "earliest d t = (case d of None \<Rightarrow> t | Some u \<Rightarrow> min u t)"

definition requestLimits :: "int \<Rightarrow> duration \<Rightarrow> middleware" where
  "requestLimits maxBody timeout next c =
     (let c1 = (if maxBody > 0 then c\<lparr>gx_maxBody := Some maxBody\<rparr> else c)
      in if timeout > 0
         then (let (c2, r) = next (c1\<lparr>gx_timers := gx_timers c1 + 1,
                   gx_ctx := (gx_ctx c1)\<lparr>rx_deadline := Some (earliest (rx_deadline (gx_ctx c1)) (gx_now c1 + timeout))\<rparr>\<rparr>)
               in (c2\<lparr>gx_timers := gx_timers c2 - 1\<rparr>, r))
         else next c1)"

definition recovery :: middleware where
  "recovery next c =
     (case next c of
        (c1, None) \<Rightarrow> (c1, None)
      | (c1, Some r) \<Rightarrow>
          (AbortWithStatus 500 (c1\<lparr>gx_lines := gx_lines c1 @ [LinePanic (gx_Method c1) (gx_Path c1) r]\<rparr>), None))"

definition Milliseconds :: "duration \<Rightarrow> int" where
  "Milliseconds d = sgn d * (\<bar>d\<bar> div 1000000)"

definition accessLog :: middleware where
  "accessLog next c =
     (let start = gx_now c; (c1, r) = next c
      in case r of
           Some e \<Rightarrow> (c1, Some e)
         | None \<Rightarrow>
             (c1\<lparr>gx_lines := gx_lines c1 @ [LineAccess (gx_Method c1) (gx_FullPath c1) (gx_status c1)
                   (Milliseconds (time_Sub (gx_now c1) start)) (TrimSpace (gx_request_id c1))]\<rparr>, None))"

subsection \<open>The server\<close>

definition http_middlewares :: "http_options \<Rightarrow> middleware list" where
  "http_middlewares o1 =
     [recovery, requestID, telemetryMiddleware o1, requestLimits (ho_MaxBodyBytes o1) (ho_RequestTimeout o1), accessLog]"

record http_server_state =
  sv_opts :: http_options
  sv_auth :: "middleware option"
  sv_routes :: "(string \<times> string \<times> handler_fun) list"
  sv_listener :: ptr

definition http_server_new :: "http_option list \<Rightarrow> http_server_state" where
  "http_server_new opts = \<lparr>sv_opts = NewHTTPServer opts, sv_auth = None, sv_routes = [], sv_listener = None\<rparr>"

text \<open>The address of the server, of which \<open>WithHost\<close> is no part.\<close>

definition http_Addr :: "http_options \<Rightarrow> string" where
  "http_Addr o1 = '':'' @ Itoa (ho_Port o1)"

lemma host_ignored: "http_Addr (NewHTTPServer (opts @ [H_WithHost host])) = http_Addr (NewHTTPServer opts)"
  by (simp add: http_Addr_def NewHTTPServer_def)

definition SetAuthMiddleware :: "middleware \<Rightarrow> http_server_state \<Rightarrow> http_server_state" where
  "SetAuthMiddleware auth s = s\<lparr>sv_auth := Some auth\<rparr>"

text \<open>
  gin registers the path joined to the root of the engine and cleaned (\<open>fullPath\<close>, of which
  \<open>FullPath\<close> later returns what it made of the path).  A path that conflicts with a registered
  one panics there.
\<close>

definition RegisterRoute ::
  "(string \<Rightarrow> string) \<Rightarrow> ((string \<times> string) list \<Rightarrow> string \<times> string \<Rightarrow> bool) \<Rightarrow> string \<Rightarrow> string \<Rightarrow> handler_fun
     \<Rightarrow> http_server_state \<Rightarrow> http_server_state option" where
  "RegisterRoute fullPath conflict method path handler s =
     (let full = fullPath path;
          handlers = (case sv_auth s of None \<Rightarrow> handler | Some auth \<Rightarrow> chain [auth] handler)
      in if method \<in> {''GET'', ''POST'', ''PUT'', ''DELETE''}
         then (if conflict (map (\<lambda>(m, p, _). (m, p)) (sv_routes s)) (method, full) then None
               else Some (s\<lparr>sv_routes := sv_routes s @ [(method, full, handlers)]\<rparr>))
         else Some s)"

definition http_GetType :: "http_server_state \<Rightarrow> nat" where
  "http_GetType s = ho_Type (sv_opts s)"

text \<open>A request: the route that gin matches, or status 404, behind the middlewares.\<close>

definition ServeHTTP ::
  "((string \<times> string) list \<Rightarrow> string \<Rightarrow> string \<Rightarrow> nat option) \<Rightarrow> http_server_state \<Rightarrow> handler_fun" where
  "ServeHTTP match s c =
     (case match (map (\<lambda>(m, p, _). (m, p)) (sv_routes s)) (gx_Method c) (gx_Path c) of
        Some i \<Rightarrow>
          (let (_, path, handlers) = sv_routes s ! i
           in chain (http_middlewares (sv_opts s)) handlers (c\<lparr>gx_FullPath := path\<rparr>))
      | None \<Rightarrow> chain (http_middlewares (sv_opts s)) (\<lambda>c. (c, None)) (c\<lparr>gx_FullPath := [], gx_status := 404\<rparr>))"

text \<open>
  \<open>Start\<close> and \<open>Stop\<close>: the listener that \<open>net.Listen\<close> returns, and what \<open>Shutdown\<close> returns.  A start
  also makes the goroutine that calls \<open>Stop\<close> once the context is done.
\<close>

definition http_Start :: "error + nat \<Rightarrow> http_server_state \<Rightarrow> error option \<times> http_server_state" where
  "http_Start listen s =
     (case listen of
        Inl err \<Rightarrow> (Some err, s)
      | Inr listener \<Rightarrow> (None, s\<lparr>sv_listener := Some listener\<rparr>))"

definition ErrServerClosed :: error where "ErrServerClosed = Errs ''http: Server closed''"

definition http_Stop :: "error option \<Rightarrow> http_server_state \<Rightarrow> error option \<times> http_server_state" where
  "http_Stop shutdown s =
     (case sv_listener s of
        None \<Rightarrow> (None, s\<lparr>sv_listener := None\<rparr>)
      | Some listener \<Rightarrow>
          (if err_is shutdown ErrServerClosed then (None, s\<lparr>sv_listener := None\<rparr>)
           else (shutdown, s\<lparr>sv_listener := None\<rparr>)))"

lemma http_Stop_twice: "fst (http_Stop e2 (snd (http_Stop e1 s))) = None"
  by (simp add: http_Stop_def split: option.splits)

subsection \<open>What the middlewares make of a handler\<close>

text \<open>The context the handler is given.\<close>

definition request_id :: "gctx \<Rightarrow> string" where
  "request_id c = (let h = gx_header c ''X-Request-ID'' in if h = [] then ''req-'' @ Itoa (UnixNano (gx_now c)) else h)"

definition http_enter :: "http_options \<Rightarrow> gctx \<Rightarrow> gctx" where
  "http_enter ho c =
     (let c1 = Header ''X-Request-ID'' (request_id c) c
      in c1\<lparr>gx_request_id := request_id c, gx_maxBody := Some (ho_MaxBodyBytes ho), gx_timers := gx_timers c + 1,
            gx_ctx := (gx_ctx c)\<lparr>rx_requestID := TrimSpace (request_id c), rx_span := Some (gx_Method c @ '' '' @ gx_Path c),
              rx_deadline := Some (earliest (rx_deadline (gx_ctx c)) (gx_now c + ho_RequestTimeout ho))\<rparr>\<rparr>)"

lemma http_enter_simps [simp]:
  "gx_now (http_enter ho c) = gx_now c" "gx_lines (http_enter ho c) = gx_lines c" "gx_spans (http_enter ho c) = gx_spans c"
  "gx_metrics (http_enter ho c) = gx_metrics c" "gx_status (http_enter ho c) = gx_status c" "gx_written (http_enter ho c) = gx_written c"
  "gx_Method (http_enter ho c) = gx_Method c" "gx_Path (http_enter ho c) = gx_Path c" "gx_FullPath (http_enter ho c) = gx_FullPath c"
  "gx_header (http_enter ho c) = gx_header c" "gx_timers (http_enter ho c) = gx_timers c + 1"
  "gx_maxBody (http_enter ho c) = Some (ho_MaxBodyBytes ho)" "gx_request_id (http_enter ho c) = request_id c"
  "gx_errors (http_enter ho c) = gx_errors c"
  "rx_requestID (gx_ctx (http_enter ho c)) = TrimSpace (request_id c)" "rx_principal (gx_ctx (http_enter ho c)) = rx_principal (gx_ctx c)"
  "rx_deadline (gx_ctx (http_enter ho c)) = Some (earliest (rx_deadline (gx_ctx c)) (gx_now c + ho_RequestTimeout ho))"
  by (simp_all add: http_enter_def Let_def)

lemma request_id_ne: "request_id c \<noteq> []"
  by (simp add: request_id_def Let_def)

lemma http_enter_header: "\<not> gx_written c \<Longrightarrow> gx_resp (http_enter ho c) ''X-Request-ID'' = Some (request_id c)"
  by (simp add: http_enter_def Header_def request_id_ne Let_def)

text \<open>What is done with the context and the panic that the handler leaves.\<close>

definition http_leave :: "http_options \<Rightarrow> gctx \<Rightarrow> gctx \<times> string option \<Rightarrow> gctx" where
  "http_leave ho c out =
     (case out of
        (c2, None) \<Rightarrow>
          (let route = (if gx_FullPath c2 = [] then ''unmatched'' else gx_FullPath c2);
               labels = [(''method'', gx_Method c2), (''route'', route), (''status'', Itoa (gx_status c2))];
               elapsed = time_Sub (gx_now c2) (gx_now c)
           in c2\<lparr>gx_timers := gx_timers c2 - 1,
                 gx_lines := gx_lines c2 @ [LineAccess (gx_Method c2) (gx_FullPath c2) (gx_status c2)
                   (Milliseconds elapsed) (TrimSpace (gx_request_id c2))],
                 gx_spans := gx_spans c2 @ [\<lparr>hs_name = gx_Method c2 @ '' '' @ route,
                   hs_status = Some (route, gx_status c2), hs_error = (500 \<le> gx_status c2)\<rparr>],
                 gx_metrics := (if ho_Metrics ho = None then gx_metrics c2
                   else Observe ''wego_http_server_request_duration_seconds'' labels (Seconds elapsed)
                          (Inc ''wego_http_server_requests_total'' labels (gx_metrics c2)))\<rparr>)
      | (c2, Some e) \<Rightarrow>
          AbortWithStatus 500 (c2\<lparr>gx_timers := gx_timers c2 - 1,
             gx_spans := gx_spans c2 @ [\<lparr>hs_name = gx_Method c @ '' '' @ gx_Path c, hs_status = None, hs_error = False\<rparr>],
             gx_lines := gx_lines c2 @ [LinePanic (gx_Method c2) (gx_Path c2) e]\<rparr>))"

lemma http_chain:
  assumes "http_limits_ok ho"
  shows "chain (http_middlewares ho) h c = (http_leave ho c (h (http_enter ho c)), None)"
proof -
  obtain c2 r where h: "h (http_enter ho c) = (c2, r)" by force
  have pos: "ho_MaxBodyBytes ho > 0" "ho_RequestTimeout ho > 0" using assms by (simp_all add: http_limits_ok_def)
  let ?c1 = "(Header ''X-Request-ID'' (request_id c) c)\<lparr>gx_request_id := request_id c,
      gx_ctx := (gx_ctx c)\<lparr>rx_requestID := TrimSpace (request_id c)\<rparr>\<rparr>"
  let ?c2 = "?c1\<lparr>gx_ctx := (gx_ctx ?c1)\<lparr>rx_span := Some (gx_Method c @ '' '' @ gx_Path c)\<rparr>\<rparr>"
  have id: "requestID nx c = nx ?c1" for nx
    by (simp add: requestID_def request_id_def Let_def)
  have "requestLimits (ho_MaxBodyBytes ho) (ho_RequestTimeout ho) nx ?c2 =
      (let (c3, r) = nx (http_enter ho c) in (c3\<lparr>gx_timers := gx_timers c3 - 1\<rparr>, r))" for nx
    by (simp add: requestLimits_def pos http_enter_def Let_def)
  moreover have "accessLog h (http_enter ho c) =
      (case r of Some e \<Rightarrow> (c2, Some e)
       | None \<Rightarrow> (c2\<lparr>gx_lines := gx_lines c2 @ [LineAccess (gx_Method c2) (gx_FullPath c2) (gx_status c2)
                   (Milliseconds (time_Sub (gx_now c2) (gx_now c))) (TrimSpace (gx_request_id c2))]\<rparr>, None))"
    by (simp add: accessLog_def h)
  ultimately have "requestLimits (ho_MaxBodyBytes ho) (ho_RequestTimeout ho) (accessLog h) ?c2 =
      (case r of Some e \<Rightarrow> (c2\<lparr>gx_timers := gx_timers c2 - 1\<rparr>, Some e)
       | None \<Rightarrow> (c2\<lparr>gx_lines := gx_lines c2 @ [LineAccess (gx_Method c2) (gx_FullPath c2) (gx_status c2)
                   (Milliseconds (time_Sub (gx_now c2) (gx_now c))) (TrimSpace (gx_request_id c2))],
                  gx_timers := gx_timers c2 - 1\<rparr>, None))"
    by (cases r) simp_all
  then show ?thesis
    by (cases r) (simp_all add: http_middlewares_def recovery_def id telemetryMiddleware_def http_leave_def h Let_def)
qed

end
