(* ===== verification/Middleware.thy ===== *)
theory Middleware
  imports HttpServer
begin

text \<open>
  Package \<open>middleware\<close>: authentication (auth.go), security headers, CORS and the rate limit
  (production.go).  Each is a gate: it passes a request on or answers it.  The \<open>Authenticator\<close>, the
  lookup of cached tokens and the order of the handlers are the application's.
\<close>

subsection \<open>Authentication\<close>

definition PrincipalFromContext :: "req_ctx \<Rightarrow> principal option" where
  "PrincipalFromContext ctx = rx_principal ctx"

definition abortUnauthorized :: "string \<Rightarrow> gctx \<Rightarrow> gctx" where
  "abortUnauthorized message c = AbortWithStatusJSON 401 message c"

definition bearerCredential :: "string \<Rightarrow> string \<times> bool" where
  "bearerCredential header =
     (if \<not> HasPrefix header ''Bearer '' then ([], False)
      else (let credential = TrimSpace (TrimPrefix header ''Bearer '') in (credential, credential \<noteq> [])))"

type_synonym authenticator = "req_ctx \<Rightarrow> string \<Rightarrow> error + principal"

definition Authenticate :: "authenticator option \<Rightarrow> string list \<Rightarrow> middleware" where
  "Authenticate authenticator excludePaths next c =
     (if gx_FullPath c \<in> set excludePaths then next c
      else
        (case authenticator of
           None \<Rightarrow> (abortUnauthorized ''authentication is not configured'' c, None)
         | Some auth \<Rightarrow>
             (let (credential, ok) = bearerCredential (gx_header c ''Authorization'') in
              if \<not> ok then (abortUnauthorized ''invalid authorization header'' c, None)
              else
                (case auth (gx_ctx c) credential of
                   Inl err \<Rightarrow> (abortUnauthorized ''invalid credentials'' c, None)
                 | Inr pr \<Rightarrow>
                     (if TrimSpace (pr_Subject pr) = [] then (abortUnauthorized ''invalid credentials'' c, None)
                      else next (c\<lparr>gx_ctx := (gx_ctx c)\<lparr>rx_principal := Some pr\<rparr>\<rparr>))))))"

definition AuthMiddleware :: "string \<Rightarrow> (string \<Rightarrow> string) option \<Rightarrow> string list \<Rightarrow> middleware" where
  "AuthMiddleware idKey getCacheToken excludePaths next c =
     (if gx_FullPath c \<in> set excludePaths then next c
      else
        (let (token, ok) = bearerCredential (gx_header c ''Authorization'') in
         case (ok, getCacheToken) of
           (True, Some get) \<Rightarrow>
             (let id1 = TrimSpace (gx_header c idKey); cachedToken = get id1 in
              if id1 = [] \<or> cachedToken = [] \<or> cachedToken \<noteq> token
              then (abortUnauthorized ''invalid token'' c, None)
              else next c)
         | _ \<Rightarrow> (abortUnauthorized ''invalid authorization header'' c, None)))"

subsection \<open>Security headers and CORS\<close>

definition none_source :: string where "none_source = CHR 0x27 # ''none'' @ [CHR 0x27]"

definition SecurityHeaders :: middleware where
  "SecurityHeaders next c =
     next (Header ''Content-Security-Policy'' (''default-src '' @ none_source @ ''; frame-ancestors '' @ none_source)
       (Header ''Referrer-Policy'' ''no-referrer''
         (Header ''X-Frame-Options'' ''DENY''
           (Header ''X-Content-Type-Options'' ''nosniff'' c))))"

record cors_config =
  co_AllowedOrigins :: "string list"
  co_AllowedMethods :: "string list"
  co_AllowedHeaders :: "string list"
  co_MaxAge :: duration

definition cors_methods :: "cors_config \<Rightarrow> string" where
  "cors_methods cfg =
     (let methods = strings_Join (co_AllowedMethods cfg) '', ''
      in if methods = [] then ''GET, POST, PUT, DELETE, OPTIONS'' else methods)"

definition cors_headers :: "cors_config \<Rightarrow> string" where
  "cors_headers cfg =
     (let headers = strings_Join (co_AllowedHeaders cfg) '', ''
      in if headers = [] then ''Authorization, Content-Type, X-Request-ID'' else headers)"

text \<open>The headers of the response.\<close>

definition cors_response :: "cors_config \<Rightarrow> gctx \<Rightarrow> gctx" where
  "cors_response cfg c =
     (let origins = set (map TrimSpace (co_AllowedOrigins cfg));
          origin = gx_header c ''Origin''
      in if origin \<noteq> [] \<and> origin \<in> origins
         then (let c1 = Header ''Access-Control-Allow-Headers'' (cors_headers cfg)
                     (Header ''Access-Control-Allow-Methods'' (cors_methods cfg)
                       (Header ''Vary'' ''Origin'' (Header ''Access-Control-Allow-Origin'' origin c)))
               in if co_MaxAge cfg > 0
                  then Header ''Access-Control-Max-Age'' (Itoa (co_MaxAge cfg div second)) c1 else c1)
         else c)"

lemma cors_response_Method [simp]: "gx_Method (cors_response cfg c) = gx_Method c"
  by (simp add: cors_response_def Let_def)

definition CORS :: "cors_config \<Rightarrow> middleware" where
  "CORS cfg next c =
     (let c1 = cors_response cfg c
      in if gx_Method c1 = ''OPTIONS'' then (AbortWithStatus 204 c1, None) else next c1)"

subsection \<open>The rate limit\<close>

text \<open>The bucket a limiter's closure shares between requests; \<open>rate\<close> and \<open>burst\<close> are fixed.\<close>

record bucket =
  bk_tokens :: rat
  bk_last :: go_time

definition RateLimit_burst :: "int \<Rightarrow> int \<Rightarrow> int" where
  "RateLimit_burst rate burst = (if burst < rate then rate else burst)"

definition RateLimit_new :: "int \<Rightarrow> int \<Rightarrow> go_time \<Rightarrow> bucket" where
  "RateLimit_new rate burst now = \<lparr>bk_tokens = fl (of_int (RateLimit_burst rate burst)), bk_last = now\<rparr>"

text \<open>What happens under the mutex, at the reading \<open>now\<close> of the clock.\<close>

definition take_token :: "int \<Rightarrow> int \<Rightarrow> go_time \<Rightarrow> bucket \<Rightarrow> bool \<times> bucket" where
  "take_token rate burst now b =
     (let burst1 = fl (of_int (RateLimit_burst rate burst));
          t1 = fl (bk_tokens b + fl (Seconds (time_Sub now (bk_last b)) * fl (of_int rate)));
          t2 = (if t1 > burst1 then burst1 else t1);
          allowed = (1 \<le> t2)
      in (allowed, \<lparr>bk_tokens = (if allowed then fl (t2 - 1) else t2), bk_last = now\<rparr>))"

text \<open>The handler; \<open>allowed\<close> is what \<open>take_token\<close> has answered.  A rate that is not positive admits all.\<close>

definition RateLimit :: "int \<Rightarrow> bool \<Rightarrow> middleware" where
  "RateLimit rate allowed next c =
     (if rate \<le> 0 then next c
      else if \<not> allowed
      then (AbortWithStatusJSON 429 ''rate limit exceeded'' (Header ''Retry-After'' ''1'' c), None)
      else next c)"

subsection \<open>Gates\<close>

definition auth_pass :: "authenticator option \<Rightarrow> string list \<Rightarrow> gctx \<Rightarrow> gctx option" where
  "auth_pass authenticator excludePaths c =
     (if gx_FullPath c \<in> set excludePaths then Some c
      else case authenticator of None \<Rightarrow> None
        | Some auth \<Rightarrow>
            (case bearerCredential (gx_header c ''Authorization'') of
               (credential, False) \<Rightarrow> None
             | (credential, True) \<Rightarrow>
                 (case auth (gx_ctx c) credential of Inl err \<Rightarrow> None
                  | Inr pr \<Rightarrow> (if TrimSpace (pr_Subject pr) = [] then None
                               else Some (c\<lparr>gx_ctx := (gx_ctx c)\<lparr>rx_principal := Some pr\<rparr>\<rparr>)))))"

definition auth_refusal :: "authenticator option \<Rightarrow> gctx \<Rightarrow> string" where
  "auth_refusal authenticator c =
     (if authenticator = None then ''authentication is not configured''
      else if \<not> snd (bearerCredential (gx_header c ''Authorization'')) then ''invalid authorization header''
      else ''invalid credentials'')"

interpretation auth_gate: gate "Authenticate a excl" "auth_pass a excl" "\<lambda>c. abortUnauthorized (auth_refusal a c) c"
  for a excl
  by unfold_locales
    (simp add: Authenticate_def auth_pass_def auth_refusal_def Let_def split: option.splits prod.splits bool.splits sum.splits)

definition cached_pass :: "string \<Rightarrow> (string \<Rightarrow> string) option \<Rightarrow> string list \<Rightarrow> gctx \<Rightarrow> gctx option" where
  "cached_pass idKey getCacheToken excludePaths c =
     (if gx_FullPath c \<in> set excludePaths then Some c
      else case getCacheToken of None \<Rightarrow> None
        | Some get \<Rightarrow>
            (let id1 = TrimSpace (gx_header c idKey); cred = bearerCredential (gx_header c ''Authorization'')
             in if snd cred \<and> id1 \<noteq> [] \<and> fst cred = get id1 then Some c else None))"

definition cached_refusal :: "(string \<Rightarrow> string) option \<Rightarrow> gctx \<Rightarrow> string" where
  "cached_refusal getCacheToken c =
     (if getCacheToken = None \<or> \<not> snd (bearerCredential (gx_header c ''Authorization''))
      then ''invalid authorization header'' else ''invalid token'')"

lemma bearer_ne: "snd (bearerCredential h) \<Longrightarrow> fst (bearerCredential h) \<noteq> []"
  by (auto simp: bearerCredential_def Let_def split: if_splits)

interpretation cached_gate: gate "AuthMiddleware k g excl" "cached_pass k g excl" "\<lambda>c. abortUnauthorized (cached_refusal g c) c"
  for k g excl
proof
  fix n :: handler_fun and c :: gctx
  obtain t ok where b: "bearerCredential (gx_header c ''Authorization'') = (t, ok)" by force
  with bearer_ne [of "gx_header c ''Authorization''"] have "ok \<Longrightarrow> t \<noteq> []" by simp
  then show "AuthMiddleware k g excl n c =
      (case cached_pass k g excl c of Some c' \<Rightarrow> n c' | None \<Rightarrow> (abortUnauthorized (cached_refusal g c) c, None))"
    by (cases g; cases ok) (auto simp: AuthMiddleware_def cached_pass_def cached_refusal_def b Let_def)
qed

definition with_security :: "gctx \<Rightarrow> gctx" where
  "with_security c =
     Header ''Content-Security-Policy'' (''default-src '' @ none_source @ ''; frame-ancestors '' @ none_source)
       (Header ''Referrer-Policy'' ''no-referrer''
         (Header ''X-Frame-Options'' ''DENY'' (Header ''X-Content-Type-Options'' ''nosniff'' c)))"

interpretation security_gate: gate SecurityHeaders "\<lambda>c. Some (with_security c)" "\<lambda>c. c"
  by unfold_locales (simp add: SecurityHeaders_def with_security_def)

interpretation cors_gate: gate "CORS cfg" "\<lambda>c. if gx_Method c = ''OPTIONS'' then None else Some (cors_response cfg c)"
    "\<lambda>c. AbortWithStatus 204 (cors_response cfg c)"
  for cfg
  by unfold_locales (simp add: CORS_def Let_def)

text \<open>Only a listed origin is answered, with itself.\<close>

lemma cors_origin:
  assumes "\<not> gx_written c" "gx_resp c ''Access-Control-Allow-Origin'' = None"
  shows "gx_resp (cors_response cfg c) ''Access-Control-Allow-Origin'' =
    (let origin = gx_header c ''Origin''
     in if origin \<noteq> [] \<and> origin \<in> TrimSpace ` set (co_AllowedOrigins cfg) then Some origin else None)"
  using assms by (simp add: cors_response_def Header_def Let_def)

interpretation rate_gate: gate "RateLimit rate allowed" "\<lambda>c. if rate \<le> 0 \<or> allowed then Some c else None"
    "\<lambda>c. AbortWithStatusJSON 429 ''rate limit exceeded'' (Header ''Retry-After'' ''1'' c)"
  for rate allowed
  by unfold_locales (simp add: RateLimit_def)

text \<open>The limit in front of the authentication: a flood of requests never reaches the authenticator.\<close>

interpretation limited_auth: two_gates "RateLimit rate allowed" "\<lambda>c. if rate \<le> 0 \<or> allowed then Some c else None"
    "\<lambda>c. AbortWithStatusJSON 429 ''rate limit exceeded'' (Header ''Retry-After'' ''1'' c)"
    "Authenticate a excl" "auth_pass a excl" "\<lambda>c. abortUnauthorized (auth_refusal a c) c"
  for rate allowed a excl
  by unfold_locales

end
