(* ===== verification/RateBound.thy ===== *)
theory RateBound
  imports Middleware
begin

text \<open>
  The rate limit of production.go, over runs of requests: the bucket never holds more than the
  burst, and what it lets through is bounded, rounding included.
\<close>

subsection \<open>The rate limit holds\<close>

definition bucket_ok :: "int \<Rightarrow> int \<Rightarrow> bucket \<Rightarrow> bool" where
  "bucket_ok rate burst b \<longleftrightarrow> 0 \<le> bk_tokens b \<and> bk_tokens b \<le> of_int (RateLimit_burst rate burst)"

fun take_tokens :: "int \<Rightarrow> int \<Rightarrow> bucket \<Rightarrow> go_time list \<Rightarrow> bool list \<times> bucket" where
  "take_tokens rate burst b [] = ([], b)"
| "take_tokens rate burst b (t # ts) =
     (let (a, b1) = take_token rate burst t b; (as, b2) = take_tokens rate burst b1 ts in (a # as, b2))"

definition admitted :: "bool list \<Rightarrow> nat" where
  "admitted as = length (filter (\<lambda>a. a) as)"

abbreviation ulp53 :: rat where "ulp53 \<equiv> 1 / 2 ^ 53"

definition refill :: "int \<Rightarrow> int \<Rightarrow> rat" where
  "refill rate d = of_int rate * (of_int d / 1000000000) * (1 + ulp53) ^ 3"

lemma rate_limits:
  assumes "0 < rate" "RateLimit_burst rate burst \<le> 2 ^ 53"
  shows "rate \<le> RateLimit_burst rate burst" "fl (of_int rate) = of_int rate"
    "fl (of_int (RateLimit_burst rate burst)) = of_int (RateLimit_burst rate burst)"
proof -
  show r: "rate \<le> RateLimit_burst rate burst" by (simp add: RateLimit_burst_def)
  show "fl (of_int rate) = of_int rate" using assms r by (intro fl_int) auto
  show "fl (of_int (RateLimit_burst rate burst)) = of_int (RateLimit_burst rate burst)"
    using assms r by (intro fl_int) auto
qed

lemma refill_step:
  assumes "0 < rate" "last1 \<le> now"
  shows "0 \<le> fl (Seconds (time_Sub now last1) * of_int rate)"
    "fl (Seconds (time_Sub now last1) * of_int rate) \<le> refill rate (now - last1)"
proof -
  let ?d = "time_Sub now last1" and ?e = "1 + ulp53"
  have d: "0 \<le> ?d" "?d < 2 ^ 63" "?d \<le> now - last1" using time_Sub_pos [OF assms(2)] by auto
  have s0: "0 \<le> Seconds ?d" using Seconds_ge [OF d(1,2), of 0] d(1) by simp
  have r0: "(0 :: rat) \<le> of_int rate" using assms(1) by simp
  show "0 \<le> fl (Seconds ?d * of_int rate)" using s0 r0 by (intro f64.rnd_nonneg) simp
  have "Seconds ?d \<le> of_int ?d / 1000000000 * ?e ^ 2" by (rule Seconds_le [OF d(1,2)])
  also have "\<dots> \<le> of_int (now - last1) / 1000000000 * ?e ^ 2"
    using d(3) by (intro mult_right_mono divide_right_mono) (simp_all only: of_int_le_iff, simp_all)
  finally have s: "Seconds ?d \<le> of_int (now - last1) / 1000000000 * ?e ^ 2" .
  have "fl (Seconds ?d * of_int rate) \<le> Seconds ?d * of_int rate * ?e"
    using s0 r0 by (intro f64.rnd_upper) simp
  also have "\<dots> \<le> of_int (now - last1) / 1000000000 * ?e ^ 2 * of_int rate * ?e"
    using s r0 by (intro mult_right_mono) simp_all
  also have "\<dots> = refill rate (now - last1)"
    unfolding refill_def power2_eq_square power3_eq_cube by (simp only: mult.commute mult.left_commute mult.assoc)
  finally show "fl (Seconds ?d * of_int rate) \<le> refill rate (now - last1)" .
qed

lemma fl_capped:
  assumes "0 \<le> x" "0 \<le> B"
  shows "min B (fl x) \<le> x + ulp53 * B"
proof (cases "x \<le> B")
  case True
  have "fl x \<le> x * (1 + ulp53)" by (rule f64.rnd_upper [OF assms(1)])
  also have "\<dots> \<le> x + ulp53 * B" using True by (simp add: distrib_left)
  finally show ?thesis by simp
next
  case False
  with assms(2) have "B \<le> x + ulp53 * B" by simp
  then show ?thesis by simp
qed

lemma take_token_step:
  assumes rate: "0 < rate" "RateLimit_burst rate burst \<le> 2 ^ 53" and ok: "bucket_ok rate burst b"
    and time: "bk_last b \<le> now" and tk: "take_token rate burst now b = (a, b')"
  shows "bucket_ok rate burst b'" "bk_last b' = now"
    "bk_tokens b' + (if a then 1 else 0) \<le>
       bk_tokens b + refill rate (now - bk_last b) + 2 * ulp53 * of_int (RateLimit_burst rate burst)"
proof -
  let ?B = "of_int (RateLimit_burst rate burst) :: rat" and ?T = "bk_tokens b"
  let ?R = "fl (Seconds (time_Sub now (bk_last b)) * of_int rate)"
  note lim = rate_limits [OF rate] and rf = refill_step [OF rate(1) time]
  have T: "0 \<le> ?T" and B: "0 \<le> ?B" using ok lim(1) rate(1) by (auto simp: bucket_ok_def)
  define t2 where "t2 = min ?B (fl (?T + ?R))"
  have x: "0 \<le> ?T + ?R" using T rf(1) by simp
  have t0: "0 \<le> t2" using B f64.rnd_nonneg [OF x] by (simp add: t2_def)
  have tB: "t2 \<le> ?B" by (simp add: t2_def)
  have "t2 \<le> ?T + ?R + ulp53 * ?B" unfolding t2_def by (rule fl_capped [OF x B])
  with rf(2) have t: "t2 \<le> ?T + refill rate (now - bk_last b) + ulp53 * ?B" by linarith
  have b': "a = (1 \<le> t2)" "b' = \<lparr>bk_tokens = (if 1 \<le> t2 then fl (t2 - 1) else t2), bk_last = now\<rparr>"
    using tk unfolding take_token_def lim Let_def t2_def by (auto simp: min_def split: if_splits)
  then show "bk_last b' = now" by simp
  have sub: "fl (t2 - 1) \<le> t2 - 1 + ulp53 * ?B" "0 \<le> fl (t2 - 1)" "fl (t2 - 1) \<le> ?B" if "1 \<le> t2"
  proof -
    have "fl (t2 - 1) \<le> (t2 - 1) * (1 + ulp53)" using that by (intro f64.rnd_upper) simp
    also have "\<dots> \<le> t2 - 1 + ulp53 * ?B" using tB by (simp add: distrib_left)
    finally show "fl (t2 - 1) \<le> t2 - 1 + ulp53 * ?B" .
    show "0 \<le> fl (t2 - 1)" using that by (intro f64.rnd_nonneg) simp
    show "fl (t2 - 1) \<le> ?B" using that tB rate lim(1) by (intro f64.rnd_le_int) auto
  qed
  show "bucket_ok rate burst b'" using b' t0 tB sub by (simp add: bucket_ok_def)
  show "bk_tokens b' + (if a then 1 else 0) \<le> ?T + refill rate (now - bk_last b) + 2 * ulp53 * ?B"
    using b' t sub(1) B by (cases "1 \<le> t2") auto
qed

lemma refill_add: "refill rate (x + y) = refill rate x + refill rate y"
  by (simp add: refill_def add_divide_distrib distrib_left distrib_right)

lemma take_tokens_bound:
  assumes rate: "0 < rate" "RateLimit_burst rate burst \<le> 2 ^ 53"
  shows "bucket_ok rate burst b \<Longrightarrow> sorted (bk_last b # ts) \<Longrightarrow> take_tokens rate burst b ts = (as, b') \<Longrightarrow>
     bucket_ok rate burst b' \<and> bk_last b' = last (bk_last b # ts) \<and>
     of_nat (admitted as) + bk_tokens b' \<le> bk_tokens b + refill rate (last (bk_last b # ts) - bk_last b)
       + of_nat (length ts) * (2 * ulp53 * of_int (RateLimit_burst rate burst))"
proof (induction ts arbitrary: b as)
  case Nil
  then show ?case by (simp add: admitted_def refill_def)
next
  case (Cons t ts)
  obtain a b1 where a: "take_token rate burst t b = (a, b1)" by force
  obtain as1 where as: "take_tokens rate burst b1 ts = (as1, b')" "as = a # as1"
    using Cons.prems(3) a by (auto simp: Let_def split: prod.splits)
  have le: "bk_last b \<le> t" using Cons.prems(2) by simp
  note st = take_token_step [OF rate Cons.prems(1) le a]
  have "sorted (bk_last b1 # ts)" using Cons.prems(2) st(2) by simp
  note ih = Cons.IH [OF st(1) this as(1)]
  let ?D = "2 * ulp53 * of_int (RateLimit_burst rate burst) :: rat"
  have r: "refill rate (last (t # ts) - bk_last b) = refill rate (t - bk_last b) + refill rate (last (t # ts) - t)"
    by (simp flip: refill_add)
  have n: "of_nat (admitted as) = (if a then 1 else 0) + (of_nat (admitted as1) :: rat)"
    by (simp add: as(2) admitted_def)
  have l: "of_nat (length (t # ts)) * ?D = ?D + of_nat (length ts) * ?D" by (simp add: distrib_right)
  have L: "last (bk_last b # t # ts) = last (t # ts)" by simp
  have ih2: "of_nat (admitted as1) + bk_tokens b' \<le> bk_tokens b1 + refill rate (last (t # ts) - t) + of_nat (length ts) * ?D"
    using ih st(2) by simp
  have "of_nat (admitted as) + bk_tokens b' \<le> bk_tokens b + refill rate (last (t # ts) - bk_last b) + of_nat (length (t # ts)) * ?D"
    unfolding n l r using ih2 st(3) by linarith
  with ih st(2) show ?case unfolding L by simp
qed

lemma drop_rest: "0 \<le> t \<Longrightarrow> b \<le> c \<Longrightarrow> a + t \<le> b + x + y \<Longrightarrow> a \<le> c + x + (y :: rat)"
  by linarith

text \<open>
  C35: the rate limit holds, in the arithmetic of \<open>float64\<close>: of the requests of any stretch of
  time, whatever came before, at most the burst plus the rate times the length of the stretch are
  admitted.  Rounding adds a factor of at most three units in the last place to the rate and two
  units of the burst for each request.
\<close>

theorem rate_limit_bound:
  assumes "0 < rate" "RateLimit_burst rate burst \<le> 2 ^ 53" "sorted (t0 # before @ window)"
    and "take_tokens rate burst (RateLimit_new rate burst t0) before = (as0, b)"
    and "take_tokens rate burst b window = (as, b')"
  shows "of_nat (admitted as) \<le>
    (of_int (RateLimit_burst rate burst) :: rat)
    + of_int rate * (of_int (last (t0 # before @ window) - last (t0 # before)) / 1000000000) * (1 + 1 / 2 ^ 53) ^ 3
    + of_nat (length window) * (2 * (1 / 2 ^ 53) * of_int (RateLimit_burst rate burst))"
proof -
  let ?b0 = "RateLimit_new rate burst t0"
  have "bucket_ok rate burst ?b0" "bk_last ?b0 = t0"
    using assms(1,2) rate_limits [OF assms(1,2)] by (simp_all add: bucket_ok_def RateLimit_new_def)
  moreover have "sorted (t0 # before)" using assms(3) by (simp add: sorted_append)
  ultimately have b: "bucket_ok rate burst b" "bk_last b = last (t0 # before)"
    using take_tokens_bound [OF assms(1,2) _ _ assms(4)] by simp_all
  have w: "last (last (t0 # before) # window) = last (t0 # before @ window)" by (cases window) simp_all
  have "last (t0 # before) \<in> set (t0 # before)" by (rule last_in_set) simp
  then have "sorted (last (t0 # before) # window)" using assms(3) by (auto simp: sorted_append)
  then have s: "sorted (bk_last b # window)" unfolding b(2) .
  note bd = take_tokens_bound [OF assms(1,2) b(1) s assms(5), unfolded b(2) w refill_def]
  have "0 \<le> bk_tokens b'" "bk_tokens b \<le> of_int (RateLimit_burst rate burst)"
    using conjunct1 [OF bd] b(1) by (simp_all add: bucket_ok_def)
  then show ?thesis by (rule drop_rest [OF _ _ conjunct2 [OF conjunct2 [OF bd]]])
qed

lemma fl_small: "fl 0 = 0" "fl 1 = 1" "fl 2 = 2" "Seconds 0 = 0" "time_Sub t t = 0"
proof -
  show f: "fl 0 = 0" "fl 1 = 1" "fl 2 = 2"
    using f64.rnd_int [of 0] f64.rnd_int [of 1] f64.rnd_int [of 2] by simp_all
  show "Seconds 0 = 0" by (simp add: Seconds_def f)
  show "time_Sub t t = 0" by (simp add: time_Sub_def)
qed

text \<open>Of five requests at once two pass a limit of one in a second with a burst of two.\<close>

lemma rate_limit_bound_witness:
  "\<exists>as b'. take_tokens 1 2 (RateLimit_new 1 2 0) [0, 0, 0, 0, 0] = (as, b')
     \<and> as = [True, True, False, False, False] \<and> (of_nat (admitted as) :: rat) \<le> 3"
proof -
  have t: "take_tokens 1 2 (RateLimit_new 1 2 0) [0, 0, 0, 0, 0] =
      ([True, True, False, False, False], \<lparr>bk_tokens = 0, bk_last = 0\<rparr>)"
    by (simp add: RateLimit_new_def RateLimit_burst_def take_token_def fl_small Let_def)
  have "RateLimit_burst 1 2 = 2" by (simp add: RateLimit_burst_def)
  then show ?thesis
    using rate_limit_bound [of 1 2 0 "[]" "[0, 0, 0, 0, 0]" "[]" "RateLimit_new 1 2 0", OF _ _ _ _ t] t
    by (simp add: admitted_def)
qed

text \<open>
  C36: the answer \<open>Retry-After: 1\<close> is true.  A request that comes a second or more after a refused
  one, with no other in between, is admitted, whatever the rate and the state of the bucket.
\<close>

theorem refused_then_admitted:
  assumes "0 < rate" "RateLimit_burst rate burst \<le> 2 ^ 53" "bucket_ok rate burst b" "bk_last b \<le> t"
    and "take_token rate burst t b = (False, b1)" "t + second \<le> t'"
  shows "fst (take_token rate burst t' b1)"
proof -
  note st = take_token_step [OF assms(1-5)] and lim = rate_limits [OF assms(1,2)]
  have le: "bk_last b1 \<le> t'" "t + 1000000000 \<le> t'" using assms(6) st(2) by (simp_all add: second_def)
  let ?d = "time_Sub t' (bk_last b1)"
  have d: "0 \<le> ?d" "?d < 2 ^ 63" using time_Sub_pos [OF le(1)] by auto
  have "1000000000 \<le> ?d" using le(2) st(2) by (simp add: time_Sub_def)
  then have "1 \<le> Seconds ?d" using Seconds_ge [OF d, of 1] by simp
  moreover have "(1 :: rat) \<le> of_int rate" using assms(1) by simp
  ultimately have "1 \<le> Seconds ?d * of_int rate" using mult_mono [of 1 "Seconds ?d" 1 "of_int rate"] by simp
  then have "1 \<le> fl (Seconds ?d * of_int rate)" by (rule f64.rnd_ge_1)
  moreover have "0 \<le> bk_tokens b1" using st(1) by (simp add: bucket_ok_def)
  ultimately have "1 \<le> fl (bk_tokens b1 + fl (Seconds ?d * of_int rate))" by (intro f64.rnd_ge_1) simp
  moreover have "(1 :: rat) \<le> of_int (RateLimit_burst rate burst)" using lim(1) assms(1) by simp
  ultimately show ?thesis unfolding take_token_def lim by (simp add: Let_def)
qed

lemma refused_then_admitted_witness:
  "fst (take_token 1 1 (second + 5) \<lparr>bk_tokens = 0, bk_last = 5\<rparr>)"
proof -
  have "take_token 1 1 5 \<lparr>bk_tokens = 0, bk_last = 5\<rparr> = (False, \<lparr>bk_tokens = 0, bk_last = 5\<rparr>)"
    by (simp add: RateLimit_burst_def take_token_def fl_small Let_def)
  then show ?thesis
    using refused_then_admitted [of 1 1 "\<lparr>bk_tokens = 0, bk_last = 5\<rparr>" 5 "\<lparr>bk_tokens = 0, bk_last = 5\<rparr>" "second + 5"]
    by (simp add: bucket_ok_def RateLimit_burst_def)
qed

end
