(* ===== verification/HttpProps.thy ===== *)
theory HttpProps
  imports Middleware
begin

text \<open>
  What the middlewares guarantee for every handler of an application, and what the authentication
  of a route guarantees: a handler behind it runs for authenticated requests only.
\<close>

subsection \<open>Accounting for requests\<close>

definition request_labels :: "gctx \<Rightarrow> labels" where
  "request_labels c =
     [(''method'', gx_Method c), (''route'', if gx_FullPath c = [] then ''unmatched'' else gx_FullPath c),
      (''status'', Itoa (gx_status c))]"

lemma metric_names:
  "plain_metric ''wego_http_server_requests_total'' (request_labels c)"
  "plain_metric (''wego_http_server_request_duration_seconds'' @ ''_sum'') (request_labels c)"
  "plain_metric (''wego_http_server_request_duration_seconds'' @ ''_count'') (request_labels c)"
  by (simp_all add: plain_metric_def request_labels_def quote_def)

interpretation requests: counted_events "''wego_http_server_requests_total''" "''wego_http_server_request_duration_seconds''" request_labels
  by unfold_locales (use metric_names in simp_all)

text \<open>
  C34: whatever a handler does, a request is answered and accounted for.  The handler runs once,
  with a request id that is also sent back, a body limit and a deadline.  A panic never leaves
  the server: it becomes a status 500, unless the handler had already answered, and a log line; a
  request without a panic keeps its answer, is logged, and is counted once under its method,
  route and status.  In both cases one span ends and the timer is cancelled.
\<close>

theorem http_request_accounted:
  assumes ho: "ho = NewHTTPServer opts" "ho_Metrics ho \<noteq> None"
    and c: "\<not> gx_written c"
    and h: "h (http_enter ho c) = (c2, r)" "gx_metrics c2 = Some cs"
    and l: "plain_metric ''wego_http_server_requests_total'' l"
  shows "\<exists>out cs'. chain (http_middlewares ho) h c = (out, None) \<and> gx_metrics out = Some cs'
    \<and> gx_resp (http_enter ho c) ''X-Request-ID'' = Some (request_id c)
    \<and> gx_maxBody (http_enter ho c) = Some (ho_MaxBodyBytes ho)
    \<and> rx_deadline (gx_ctx (http_enter ho c)) = Some (earliest (rx_deadline (gx_ctx c)) (gx_now c + ho_RequestTimeout ho))
    \<and> gx_timers out = gx_timers c2 - 1 \<and> length (gx_spans out) = length (gx_spans c2) + 1
    \<and> gx_resp out = gx_resp c2
    \<and> (let total = metricKey ''wego_http_server_requests_total'' l in
       case r of
         None \<Rightarrow> gx_status out = gx_status c2
           \<and> (\<exists>ms. gx_lines out = gx_lines c2 @ [LineAccess (gx_Method c2) (gx_FullPath c2) (gx_status c2) ms (TrimSpace (gx_request_id c2))])
           \<and> counter cs' total = (if map_of l = map_of (request_labels c2) then fl (counter cs total + 1) else counter cs total)
       | Some e \<Rightarrow> gx_status out = (if gx_written c2 then gx_status c2 else 500)
           \<and> gx_lines out = gx_lines c2 @ [LinePanic (gx_Method c2) (gx_Path c2) e]
           \<and> counter cs' total = counter cs total)"
proof -
  have ok: "http_limits_ok ho" unfolding ho(1) by (rule NewHTTPServer_ok)
  obtain msv where m: "ho_Metrics ho = Some msv" using ho(2) by blast
  note ch = http_chain [OF ok, of h c, unfolded h(1)]
  show ?thesis
  proof (cases r)
    case None
    let ?v = "Seconds (time_Sub (gx_now c2) (gx_now c))"
    obtain cs' where cs': "account ''wego_http_server_requests_total'' ''wego_http_server_request_duration_seconds''
        (request_labels c2) ?v (Some cs) = Some cs'"
      "counter cs' (metricKey ''wego_http_server_requests_total'' l) =
         (if map_of l = map_of (request_labels c2)
          then fl (counter cs (metricKey ''wego_http_server_requests_total'' l) + 1)
          else counter cs (metricKey ''wego_http_server_requests_total'' l))"
      using requests.account_counter [OF l] by blast
    have "gx_metrics (http_leave ho c (c2, None)) = Some cs'"
      using cs'(1) m h(2) by (simp add: http_leave_def account_def request_labels_def Let_def)
    then show ?thesis
      using ch cs'(2) http_enter_header [OF c] unfolding None by (simp add: http_leave_def Let_def)
  next
    case (Some e)
    have "gx_metrics (http_leave ho c (c2, Some e)) = Some cs" by (simp add: http_leave_def h(2))
    then show ?thesis
      using ch http_enter_header [OF c] unfolding Some
      by (cases "gx_written c2") (simp_all add: http_leave_def Let_def)
  qed
qed

definition sample_request :: gctx where
  "sample_request =
     \<lparr>gx_Method = ''GET'', gx_Path = ''/a'', gx_FullPath = ''/a'', gx_header = (\<lambda>_. []),
      gx_ctx = \<lparr>rx_requestID = [], rx_principal = None, rx_deadline = None, rx_span = None\<rparr>, gx_maxBody = None,
      gx_request_id = [], gx_status = 200, gx_written = False, gx_resp = (\<lambda>_. None), gx_errors = [], gx_now = 0,
      gx_metrics = NewRegistry, gx_lines = [], gx_spans = [], gx_timers = 0\<rparr>"

text \<open>A handler that panics at once.\<close>

lemma http_request_accounted_witness:
  "\<exists>out. chain (http_middlewares (NewHTTPServer [H_WithTelemetry None (Some 0)])) (\<lambda>c. (c, Some ''boom'')) sample_request = (out, None)
     \<and> gx_status out = 500 \<and> gx_lines out = [LinePanic ''GET'' ''/a'' ''boom''] \<and> gx_timers out = 0"
proof -
  let ?ho = "NewHTTPServer [H_WithTelemetry None (Some 0)]"
  have m: "ho_Metrics ?ho \<noteq> None" by (simp add: NewHTTPServer_def)
  have c: "\<not> gx_written sample_request" "gx_metrics (http_enter ?ho sample_request) = Some (\<lambda>_. None)"
    by (simp_all add: sample_request_def NewRegistry_def)
  show ?thesis
    using http_request_accounted [OF refl m c(1), of "\<lambda>c. (c, Some ''boom'')", OF refl c(2) metric_names(1) [of sample_request]]
    by (auto simp: sample_request_def Let_def)
qed

subsection \<open>Routes behind an authenticator\<close>

text \<open>A route is appended to those there are.\<close>

lemma RegisterRoute_nth:
  assumes "RegisterRoute fullPath conflict method path h s = Some s'" "method \<in> {''GET'', ''POST'', ''PUT'', ''DELETE''}"
  shows "sv_routes s' ! length (sv_routes s) = (method, fullPath path, (case sv_auth s of None \<Rightarrow> h | Some auth \<Rightarrow> auth h))"
    "sv_opts s' = sv_opts s" "i < length (sv_routes s) \<Longrightarrow> sv_routes s' ! i = sv_routes s ! i"
  using assms by (auto simp: RegisterRoute_def nth_append Let_def split: if_splits option.splits)

text \<open>
  C33: a route registered after \<open>SetAuthMiddleware\<close> with \<open>Authenticate\<close> runs its handler for
  authenticated requests only, unless the path that gin makes of the registered one is excluded.  A request it matches reaches the handler exactly when its
  \<open>Authorization\<close> header is \<open>Bearer\<close> with a credential for which the authenticator names a
  principal with a subject, and the handler finds this principal in the context; any other request
  is answered 401 without the handler, counted and logged like every request.
\<close>

theorem authenticated_route:
  assumes s: "sv_opts s = NewHTTPServer opts"
    and reg: "RegisterRoute fullPath conflict method path h (SetAuthMiddleware (Authenticate (Some auth) excl) s) = Some s'"
    and meth: "method \<in> {''GET'', ''POST'', ''PUT'', ''DELETE''}" and path: "fullPath path \<notin> set excl"
    and route: "match (map (\<lambda>(m, p, _). (m, p)) (sv_routes s')) (gx_Method c) (gx_Path c) = Some (length (sv_routes s))"
    and c: "\<not> gx_written c"
  shows "let cin = http_enter (sv_opts s) (c\<lparr>gx_FullPath := fullPath path\<rparr>);
             (cred, ok) = bearerCredential (gx_header c ''Authorization'');
             leave = http_leave (sv_opts s) (c\<lparr>gx_FullPath := fullPath path\<rparr>)
         in (\<exists>p. ok \<and> auth (gx_ctx cin) cred = Inr p \<and> TrimSpace (pr_Subject p) \<noteq> []
              \<and> PrincipalFromContext (gx_ctx (cin\<lparr>gx_ctx := (gx_ctx cin)\<lparr>rx_principal := Some p\<rparr>\<rparr>)) = Some p
              \<and> ServeHTTP match s' c = (leave (h (cin\<lparr>gx_ctx := (gx_ctx cin)\<lparr>rx_principal := Some p\<rparr>\<rparr>)), None))
          \<or> ((\<forall>p. ok \<and> auth (gx_ctx cin) cred = Inr p \<longrightarrow> TrimSpace (pr_Subject p) = [])
              \<and> ServeHTTP match s' c =
                  (leave (abortUnauthorized (auth_refusal (Some auth) cin) cin, None), None)
              \<and> gx_status (fst (ServeHTTP match s' c)) = 401)"
proof -
  let ?c = "c\<lparr>gx_FullPath := fullPath path\<rparr>" and ?m = "Authenticate (Some auth) excl"
  let ?cin = "http_enter (sv_opts s) ?c"
  obtain cred ok where b: "bearerCredential (gx_header c ''Authorization'') = (cred, ok)" by force
  have ok: "http_limits_ok (sv_opts s)" unfolding s by (rule NewHTTPServer_ok)
  have s': "sv_routes s' ! length (sv_routes s) = (method, fullPath path, ?m h)" "sv_opts s' = sv_opts s"
    using RegisterRoute_nth [OF reg meth] by (simp_all add: SetAuthMiddleware_def)
  have serve: "ServeHTTP match s' c = (http_leave (sv_opts s) ?c (?m h ?cin), None)"
    using http_chain [OF ok, of "?m h" ?c] by (simp add: ServeHTTP_def route s')
  have pass: "auth_pass (Some auth) excl ?cin =
      (if ok then (case auth (gx_ctx ?cin) cred of Inl err \<Rightarrow> None
         | Inr pr \<Rightarrow> (if TrimSpace (pr_Subject pr) = [] then None
                      else Some (?cin\<lparr>gx_ctx := (gx_ctx ?cin)\<lparr>rx_principal := Some pr\<rparr>\<rparr>))) else None)"
    using path b by (simp add: auth_pass_def)
  show ?thesis
  proof (cases "auth_pass (Some auth) excl ?cin")
    case None
    then have r: "?m h ?cin = (abortUnauthorized (auth_refusal (Some auth) ?cin) ?cin, None)"
      by (rule auth_gate.gate_refuse)
    have "gx_status (http_leave (sv_opts s) ?c (abortUnauthorized msg ?cin, None)) = 401" for msg
      using c by (simp add: http_leave_def abortUnauthorized_def AbortWithStatusJSON_def AbortWithStatus_def Let_def)
    moreover have "\<forall>p. ok \<and> auth (gx_ctx ?cin) cred = Inr p \<longrightarrow> TrimSpace (pr_Subject p) = []"
      using None pass by (auto split: if_splits)
    ultimately show ?thesis unfolding Let_def b prod.case serve r by simp
  next
    case (Some c')
    then obtain p where p: "ok" "auth (gx_ctx ?cin) cred = Inr p" "TrimSpace (pr_Subject p) \<noteq> []"
      "c' = ?cin\<lparr>gx_ctx := (gx_ctx ?cin)\<lparr>rx_principal := Some p\<rparr>\<rparr>"
      using pass by (auto split: if_splits sum.splits)
    have r: "?m h ?cin = h c'" using Some by (rule auth_gate.gate_pass)
    show ?thesis unfolding Let_def b prod.case serve r p(4)
      by (rule disjI1, rule exI [of _ p]) (simp add: p PrincipalFromContext_def)
  qed
qed

text \<open>
  A request without the header, to a handler that would answer 200.  The route is registered, and
  excluded, without its slash: the exclusion does not hit the path that gin registers.
\<close>

lemma authenticated_route_witness:
  "\<exists>s'. RegisterRoute (\<lambda>p. if HasPrefix p ''/'' then p else ''/'' @ p) (\<lambda>_ _. False) ''GET'' ''a'' (\<lambda>c. (c, None))
       (SetAuthMiddleware (Authenticate (Some (\<lambda>_ _. Inr \<lparr>pr_Subject = ''u'', pr_Attributes = (\<lambda>_. None)\<rparr>)) [''a'']) (http_server_new [])) = Some s'
     \<and> gx_status (fst (ServeHTTP (\<lambda>_ _ _. Some 0) s' sample_request)) = 401"
proof -
  let ?s = "http_server_new []" and ?a = "\<lambda>_ _. Inr \<lparr>pr_Subject = ''u'', pr_Attributes = (\<lambda>_. None)\<rparr>"
  let ?h = "\<lambda>c. (c, None)" and ?cf = "\<lambda>_ _. False"
  let ?f = "\<lambda>p. if HasPrefix p ''/'' then p else ''/'' @ p"
  obtain s' where s': "RegisterRoute ?f ?cf ''GET'' ''a'' ?h (SetAuthMiddleware (Authenticate (Some ?a) [''a'']) ?s) = Some s'"
    by (simp add: RegisterRoute_def Let_def)
  have b: "bearerCredential (gx_header sample_request ''Authorization'') = ([], False)"
    by (simp add: bearerCredential_def HasPrefix_def sample_request_def)
  have "?f ''a'' \<notin> set [''a'']" by (simp add: HasPrefix_def)
  moreover have "sv_opts ?s = NewHTTPServer []" "length (sv_routes ?s) = 0" "\<not> gx_written sample_request"
    by (simp_all add: http_server_new_def sample_request_def)
  ultimately show ?thesis
    using authenticated_route [of ?s "[]", OF _ s', of "\<lambda>_ _ _. Some 0" sample_request] s'
    unfolding b Let_def prod.case by auto
qed

end
