(* ===== verification/TcpServer.thy ===== *)
theory TcpServer
  imports TransportHttp
begin

text \<open>
  Package \<open>transport/tcp\<close>: the options of a TCP server, the deadlines of its connections, and its
  goroutines as a step relation: calls of \<open>Start\<close> and \<open>Stop\<close>, the shutdown that runs once, the accept
  loop of a listener and the goroutine of each connection.  Sockets have numbers that are never
  used twice.  A shutdown can begin at any time, by \<open>Stop\<close> or by the end of a context.
\<close>

subsection \<open>Options\<close>

record tcp_options =
  to_Host :: "nat list"
  to_Port :: int
  to_Type :: nat
  to_ReadTimeout :: duration
  to_WriteTimeout :: duration
  to_IdleTimeout :: duration
  to_Handler :: ptr

datatype tcp_option =
    T_WithType nat
  | T_WithHost "nat list"
  | T_WithPort int
  | T_WithReadTimeout duration
  | T_WithWriteTimeout duration
  | T_WithIdleTimeout duration
  | T_WithHandler ptr

fun apply_tcp_option :: "tcp_option \<Rightarrow> tcp_options \<Rightarrow> tcp_options" where
  "apply_tcp_option (T_WithType typ) o1 = o1\<lparr>to_Type := typ\<rparr>"
| "apply_tcp_option (T_WithHost host) o1 = o1\<lparr>to_Host := host\<rparr>"
| "apply_tcp_option (T_WithPort port) o1 = o1\<lparr>to_Port := port\<rparr>"
| "apply_tcp_option (T_WithReadTimeout timeout) o1 = o1\<lparr>to_ReadTimeout := timeout\<rparr>"
| "apply_tcp_option (T_WithWriteTimeout timeout) o1 = o1\<lparr>to_WriteTimeout := timeout\<rparr>"
| "apply_tcp_option (T_WithIdleTimeout timeout) o1 = o1\<lparr>to_IdleTimeout := timeout\<rparr>"
| "apply_tcp_option (T_WithHandler handler) o1 = o1\<lparr>to_Handler := handler\<rparr>"

definition tcp_zero :: tcp_options where
  "tcp_zero = \<lparr>to_Host = [], to_Port = 0, to_Type = TCP, to_ReadTimeout = 0, to_WriteTimeout = 0, to_IdleTimeout = 0, to_Handler = None\<rparr>"

text \<open>How \<open>net.IP\<close> prints an address is an argument.\<close>

definition listenAddr :: "(nat list \<Rightarrow> string) \<Rightarrow> tcp_options \<Rightarrow> string" where
  "listenAddr ip_String o1 =
     (let host = (if length (to_Host o1) > 0 then ip_String (to_Host o1) else ''0.0.0.0'')
      in host @ '':'' @ Itoa (to_Port o1))"

subsection \<open>Deadlines of a connection\<close>

record deadlines =
  dl_read :: "go_time option"
  dl_write :: "go_time option"

text \<open>What \<open>handleConn\<close> sets before the handler runs: \<open>SetDeadline\<close> sets both.\<close>

definition handleConn_deadlines :: "tcp_options \<Rightarrow> go_time \<Rightarrow> deadlines \<Rightarrow> deadlines" where
  "handleConn_deadlines o1 now d =
     (let d1 = (if to_IdleTimeout o1 > 0
                then d\<lparr>dl_read := Some (now + to_IdleTimeout o1), dl_write := Some (now + to_IdleTimeout o1)\<rparr> else d);
          d2 = (if to_ReadTimeout o1 > 0 then d1\<lparr>dl_read := Some (now + to_ReadTimeout o1)\<rparr> else d1)
      in if to_WriteTimeout o1 > 0 then d2\<lparr>dl_write := Some (now + to_WriteTimeout o1)\<rparr> else d2)"

definition conn_Read :: "tcp_options \<Rightarrow> go_time \<Rightarrow> deadlines \<Rightarrow> deadlines" where
  "conn_Read o1 now d = (if to_ReadTimeout o1 > 0 then d\<lparr>dl_read := Some (now + to_ReadTimeout o1)\<rparr> else d)"

definition conn_Write :: "tcp_options \<Rightarrow> go_time \<Rightarrow> deadlines \<Rightarrow> deadlines" where
  "conn_Write o1 now d = (if to_WriteTimeout o1 > 0 then d\<lparr>dl_write := Some (now + to_WriteTimeout o1)\<rparr> else d)"

text \<open>A run of reads (\<open>True\<close>) and writes at their instants.\<close>

definition conn_use :: "tcp_options \<Rightarrow> (bool \<times> go_time) list \<Rightarrow> deadlines \<Rightarrow> deadlines" where
  "conn_use o1 uses d = fold (\<lambda>(r, t). if r then conn_Read o1 t else conn_Write o1 t) uses d"

text \<open>Without a read timeout, the idle timeout ends the reads of a connection however busy it is.\<close>

lemma idle_not_refreshed:
  assumes "to_IdleTimeout o1 > 0" "to_ReadTimeout o1 \<le> 0"
  shows "dl_read (conn_use o1 uses (handleConn_deadlines o1 now d)) = Some (now + to_IdleTimeout o1)"
proof -
  have "dl_read (conn_use o1 uses d') = dl_read d'" for d'
    using assms(2) unfolding conn_use_def
    by (induction uses arbitrary: d') (auto simp: conn_Read_def conn_Write_def split: prod.splits)
  then show ?thesis using assms by (simp add: handleConn_deadlines_def Let_def)
qed

subsection \<open>The server\<close>

definition tcp_ErrHandlerRequired :: error where "tcp_ErrHandlerRequired = Errs ''tcp handler is required''"
definition ErrServerStarted :: error where "ErrServerStarted = Errs ''tcp server already started''"

text \<open>
  The shutdown: not begun, \<open>closeCh\<close> closed, the listener and the connections taken under the mutex,
  the listener closed, done.  An accept loop waits in \<open>Accept\<close>, holds an accepted connection that is
  not tracked yet, or has returned.  The goroutine of a connection runs the handler, or has closed
  the connection and is about to untrack it.
\<close>

datatype shut_pc = ShutIdle | ShutBegun | ShutTaken "nat option" "nat list" | ShutConns "nat list" | ShutDone
datatype loop_pc = Accepting | Accepted nat | LoopEnd
datatype conn_pc = Handling | Closed

record tcp_state =
  ts_opts :: tcp_options
  ts_handler :: ptr
  ts_listener :: "nat option"
  ts_conns :: "nat list"
  ts_shut :: shut_pc
  ts_starting :: "nat list"
  ts_loops :: "nat \<rightharpoonup> loop_pc"
  ts_goroutines :: "nat \<rightharpoonup> conn_pc"
  ts_listening :: "nat list"
  ts_open :: "nat list"
  ts_next :: nat

definition NewTCPServer :: "tcp_option list \<Rightarrow> tcp_state" where
  "NewTCPServer opts =
     (let o1 = fold apply_tcp_option opts tcp_zero
      in \<lparr>ts_opts = o1, ts_handler = to_Handler o1, ts_listener = None, ts_conns = [], ts_shut = ShutIdle, ts_starting = [],
          ts_loops = (\<lambda>_. None), ts_goroutines = (\<lambda>_. None), ts_listening = [], ts_open = [], ts_next = 0\<rparr>)"

definition SetHandler :: "ptr \<Rightarrow> tcp_state \<Rightarrow> tcp_state" where
  "SetHandler handler s = s\<lparr>ts_handler := handler, ts_opts := (ts_opts s)\<lparr>to_Handler := handler\<rparr>\<rparr>"

definition tcp_Addr :: "tcp_state \<Rightarrow> nat option" where
  "tcp_Addr s = ts_listener s"

text \<open>\<open>Start\<close> up to \<open>net.Listen\<close>, with what it returns, and from the lock on.\<close>

definition Start_listen :: "error option \<Rightarrow> tcp_state \<Rightarrow> error option \<times> tcp_state" where
  "Start_listen listen_err s =
     (if ts_handler s = None then (Some tcp_ErrHandlerRequired, s)
      else case listen_err of
             Some err \<Rightarrow> (Some err, s)
           | None \<Rightarrow>
               (let l = ts_next s
                in (None, s\<lparr>ts_next := l + 1, ts_listening := l # ts_listening s, ts_starting := l # ts_starting s\<rparr>)))"

definition Start_locked :: "nat \<Rightarrow> tcp_state \<Rightarrow> error option \<times> tcp_state" where
  "Start_locked l s =
     (let s1 = s\<lparr>ts_starting := removeAll l (ts_starting s)\<rparr>
      in if ts_listener s1 \<noteq> None then (Some ErrServerStarted, s1\<lparr>ts_listening := removeAll l (ts_listening s1)\<rparr>)
         else (None, s1\<lparr>ts_opts := (if to_Type (ts_opts s1) = 0 then (ts_opts s1)\<lparr>to_Type := TCP\<rparr> else ts_opts s1),
                        ts_listener := Some l, ts_loops := (ts_loops s1)(l \<mapsto> Accepting)\<rparr>))"

text \<open>The steps of \<open>shutdown\<close> inside \<open>once.Do\<close>; None when it is not at this point.\<close>

definition shutdown_step :: "tcp_state \<Rightarrow> tcp_state option" where
  "shutdown_step s =
     (case ts_shut s of
        ShutIdle \<Rightarrow> Some (s\<lparr>ts_shut := ShutBegun\<rparr>)
      | ShutBegun \<Rightarrow> Some (s\<lparr>ts_shut := ShutTaken (ts_listener s) (ts_conns s), ts_listener := None\<rparr>)
      | ShutTaken None cs \<Rightarrow> Some (s\<lparr>ts_shut := ShutConns cs\<rparr>)
      | ShutTaken (Some l) cs \<Rightarrow> Some (s\<lparr>ts_shut := ShutConns cs, ts_listening := removeAll l (ts_listening s)\<rparr>)
      | ShutConns [] \<Rightarrow> Some (s\<lparr>ts_shut := ShutDone\<rparr>)
      | ShutConns (c # cs) \<Rightarrow> Some (s\<lparr>ts_shut := ShutConns cs, ts_open := removeAll c (ts_open s)\<rparr>)
      | ShutDone \<Rightarrow> None)"

text \<open>An error of \<open>Accept\<close>: \<open>done\<close> if the context has ended, \<open>temporary\<close> for a temporary error.\<close>

definition accept_error :: "bool \<Rightarrow> bool \<Rightarrow> nat \<Rightarrow> tcp_state \<Rightarrow> tcp_state" where
  "accept_error ctx_done temporary l s =
     (if ctx_done \<or> ts_shut s \<noteq> ShutIdle then s\<lparr>ts_loops := (ts_loops s)(l \<mapsto> LoopEnd)\<rparr>
      else if temporary then s
      else s\<lparr>ts_loops := (ts_loops s)(l \<mapsto> LoopEnd)\<rparr>)"

definition accept :: "nat \<Rightarrow> tcp_state \<Rightarrow> tcp_state" where
  "accept l s =
     (let c = ts_next s
      in s\<lparr>ts_next := c + 1, ts_open := c # ts_open s, ts_loops := (ts_loops s)(l \<mapsto> Accepted c)\<rparr>)"

definition trackConn :: "nat \<Rightarrow> tcp_state \<Rightarrow> tcp_state" where
  "trackConn conn s = s\<lparr>ts_conns := conn # removeAll conn (ts_conns s)\<rparr>"

definition untrackConn :: "nat \<Rightarrow> tcp_state \<Rightarrow> tcp_state" where
  "untrackConn conn s = s\<lparr>ts_conns := removeAll conn (ts_conns s)\<rparr>"

text \<open>After the handler: the deferred \<open>Close\<close>, then the deferred \<open>untrackConn\<close>.\<close>

definition conn_close :: "nat \<Rightarrow> tcp_state \<Rightarrow> tcp_state" where
  "conn_close c s = s\<lparr>ts_open := removeAll c (ts_open s), ts_goroutines := (ts_goroutines s)(c \<mapsto> Closed)\<rparr>"

definition conn_done :: "nat \<Rightarrow> tcp_state \<Rightarrow> tcp_state" where
  "conn_done c s = (untrackConn c s)\<lparr>ts_goroutines := (ts_goroutines s)(c := None)\<rparr>"

datatype tcp_event =
    ESetHandler ptr
  | EListen "error option"
  | EStart nat
  | EShutdown
  | EAccept nat
  | EAcceptErr bool bool nat
  | ETrack nat nat
  | EHandled nat
  | EUntrack nat

inductive tcp_step :: "tcp_state \<Rightarrow> tcp_event \<Rightarrow> tcp_state \<Rightarrow> bool" where
  set_handler: "tcp_step s (ESetHandler h) (SetHandler h s)"
| listen: "tcp_step s (EListen e) (snd (Start_listen e s))"
| start: "l \<in> set (ts_starting s) \<Longrightarrow> tcp_step s (EStart l) (snd (Start_locked l s))"
| shutdown: "shutdown_step s = Some t \<Longrightarrow> tcp_step s EShutdown t"
| accept: "ts_loops s l = Some Accepting \<Longrightarrow> l \<in> set (ts_listening s) \<Longrightarrow> tcp_step s (EAccept l) (accept l s)"
| accept_err: "ts_loops s l = Some Accepting \<Longrightarrow> l \<notin> set (ts_listening s) \<longrightarrow> \<not> temporary \<Longrightarrow>
    tcp_step s (EAcceptErr d temporary l) (accept_error d temporary l s)"
| track: "ts_loops s l = Some (Accepted c) \<Longrightarrow> tcp_step s (ETrack l c)
    ((trackConn c s)\<lparr>ts_loops := (ts_loops s)(l \<mapsto> Accepting), ts_goroutines := (ts_goroutines s)(c \<mapsto> Handling)\<rparr>)"
| handled: "ts_goroutines s c = Some Handling \<Longrightarrow> tcp_step s (EHandled c) (conn_close c s)"
| untrack: "ts_goroutines s c = Some Closed \<Longrightarrow> tcp_step s (EUntrack c) (conn_done c s)"

inductive_cases tcp_stepE: "tcp_step s e t"

end
