(* ===== verification/TcpProps.thy ===== *)
theory TcpProps
  imports TcpServer
begin

text \<open>
  What holds of every interleaving of the goroutines of a TCP server: who owns its sockets, and
  what a shutdown has closed when it is done.
\<close>

subsection \<open>Ownership of sockets\<close>

text \<open>A connection is owned by the loop that has accepted it or by the goroutine that runs its handler.\<close>

definition owned_conn :: "(nat \<rightharpoonup> loop_pc) \<Rightarrow> (nat \<rightharpoonup> conn_pc) \<Rightarrow> nat \<Rightarrow> bool" where
  "owned_conn loops gs c \<longleftrightarrow> (\<exists>l. loops l = Some (Accepted c)) \<or> gs c = Some Handling"

lemma owned_loop_upd:
  assumes "owned_conn loops gs c" "\<And>d. loops l \<noteq> Some (Accepted d)"
  shows "owned_conn (loops(l \<mapsto> x)) gs c"
proof (cases "gs c = Some Handling")
  case False
  with assms(1) obtain k where k: "loops k = Some (Accepted c)" by (auto simp: owned_conn_def)
  with assms(2) have "k \<noteq> l" by auto
  with k have "(loops(l \<mapsto> x)) k = Some (Accepted c)" by simp
  then show ?thesis unfolding owned_conn_def by blast
qed (simp add: owned_conn_def)

lemma owned_track:
  assumes "owned_conn loops gs c" "loops l = Some (Accepted d)"
  shows "owned_conn (loops(l \<mapsto> Accepting)) (gs(d \<mapsto> Handling)) c"
proof (cases "gs c = Some Handling \<or> c = d")
  case False
  with assms(1) obtain k where k: "loops k = Some (Accepted c)" by (auto simp: owned_conn_def)
  with assms(2) False have "k \<noteq> l" by auto
  with k have "(loops(l \<mapsto> Accepting)) k = Some (Accepted c)" by simp
  then show ?thesis unfolding owned_conn_def by blast
qed (auto simp: owned_conn_def)

lemma owned_goroutine_upd: "owned_conn loops gs c \<Longrightarrow> gs d \<noteq> Some Handling \<or> c \<noteq> d \<Longrightarrow> owned_conn loops (gs(d := x)) c"
  by (auto simp: owned_conn_def)

definition taken_listener :: "shut_pc \<Rightarrow> nat option" where
  "taken_listener p = (case p of ShutTaken l cs \<Rightarrow> l | _ \<Rightarrow> None)"

definition tcp_ok :: "tcp_state \<Rightarrow> bool" where
  "tcp_ok s \<longleftrightarrow>
     (\<forall>l\<in>set (ts_starting s). l < ts_next s \<and> ts_loops s l = None)
     \<and> (\<forall>l. ts_loops s l \<noteq> None \<longrightarrow> l < ts_next s)
     \<and> (\<forall>l. ts_listener s = Some l \<longrightarrow> l < ts_next s)
     \<and> (\<forall>c\<in>set (ts_open s). c < ts_next s \<and> owned_conn (ts_loops s) (ts_goroutines s) c)
     \<and> (\<forall>l c. ts_loops s l = Some (Accepted c) \<longrightarrow> c < ts_next s)
     \<and> set (ts_conns s) = dom (ts_goroutines s) \<and> (\<forall>c\<in>set (ts_conns s). c < ts_next s)
     \<and> (\<forall>l\<in>set (ts_listening s). l < ts_next s
          \<and> (l \<in> set (ts_starting s) \<or> ts_listener s = Some l \<or> taken_listener (ts_shut s) = Some l))"

lemma tcp_okD:
  assumes "tcp_ok s"
  shows "l \<in> set (ts_starting s) \<Longrightarrow> l < ts_next s \<and> ts_loops s l = None"
    and "ts_loops s l = Some x \<Longrightarrow> l < ts_next s"
    and "ts_listener s = Some l \<Longrightarrow> l < ts_next s"
    and "c \<in> set (ts_open s) \<Longrightarrow> c < ts_next s \<and> owned_conn (ts_loops s) (ts_goroutines s) c"
    and "ts_loops s l = Some (Accepted c) \<Longrightarrow> c < ts_next s"
    and "set (ts_conns s) = dom (ts_goroutines s)"
    and "c \<in> set (ts_conns s) \<Longrightarrow> c < ts_next s"
    and "l \<in> set (ts_listening s) \<Longrightarrow> l < ts_next s
          \<and> (l \<in> set (ts_starting s) \<or> ts_listener s = Some l \<or> taken_listener (ts_shut s) = Some l)"
  using assms unfolding tcp_ok_def by auto

lemma tcp_okI:
  assumes "\<And>l. l \<in> set (ts_starting s) \<Longrightarrow> l < ts_next s \<and> ts_loops s l = None"
    and "\<And>l x. ts_loops s l = Some x \<Longrightarrow> l < ts_next s"
    and "\<And>l. ts_listener s = Some l \<Longrightarrow> l < ts_next s"
    and "\<And>c. c \<in> set (ts_open s) \<Longrightarrow> c < ts_next s \<and> owned_conn (ts_loops s) (ts_goroutines s) c"
    and "\<And>l c. ts_loops s l = Some (Accepted c) \<Longrightarrow> c < ts_next s"
    and "set (ts_conns s) = dom (ts_goroutines s)"
    and "\<And>c. c \<in> set (ts_conns s) \<Longrightarrow> c < ts_next s"
    and "\<And>l. l \<in> set (ts_listening s) \<Longrightarrow> l < ts_next s
          \<and> (l \<in> set (ts_starting s) \<or> ts_listener s = Some l \<or> taken_listener (ts_shut s) = Some l)"
  shows "tcp_ok s"
  unfolding tcp_ok_def using assms by blast

lemma tcp_ok_new: "tcp_ok (NewTCPServer opts)"
  by (rule tcp_okI) (simp_all add: NewTCPServer_def Let_def)

lemma shutdown_step_cases:
  assumes "shutdown_step s = Some t"
  obtains "ts_shut s = ShutIdle" "t = s\<lparr>ts_shut := ShutBegun\<rparr>"
  | "ts_shut s = ShutBegun" "t = s\<lparr>ts_shut := ShutTaken (ts_listener s) (ts_conns s), ts_listener := None\<rparr>"
  | cs where "ts_shut s = ShutTaken None cs" "t = s\<lparr>ts_shut := ShutConns cs\<rparr>"
  | l cs where "ts_shut s = ShutTaken (Some l) cs" "t = s\<lparr>ts_shut := ShutConns cs, ts_listening := removeAll l (ts_listening s)\<rparr>"
  | "ts_shut s = ShutConns []" "t = s\<lparr>ts_shut := ShutDone\<rparr>"
  | c cs where "ts_shut s = ShutConns (c # cs)" "t = s\<lparr>ts_shut := ShutConns cs, ts_open := removeAll c (ts_open s)\<rparr>"
proof (cases "ts_shut s")
  case ShutIdle
  with assms that(1) show ?thesis by (simp add: shutdown_step_def)
next
  case ShutBegun
  with assms that(2) show ?thesis by (simp add: shutdown_step_def)
next
  case (ShutTaken lo cs)
  with assms that(3,4) show ?thesis by (cases lo) (simp_all add: shutdown_step_def)
next
  case (ShutConns cs)
  with assms that(5,6) show ?thesis by (cases cs) (simp_all add: shutdown_step_def)
next
  case ShutDone
  with assms show ?thesis by (simp add: shutdown_step_def)
qed

text \<open>Steps that change the shutdown and close sockets keep what is owned.\<close>

lemma tcp_ok_shutdown:
  assumes ok: "tcp_ok s" and st: "shutdown_step s = Some t"
  shows "tcp_ok t"
proof -
  have same: "ts_loops t = ts_loops s" "ts_goroutines t = ts_goroutines s" "ts_next t = ts_next s"
    "ts_starting t = ts_starting s" "ts_conns t = ts_conns s" "set (ts_open t) \<subseteq> set (ts_open s)"
    "ts_listener t = None \<or> ts_listener t = ts_listener s"
    by (rule shutdown_step_cases [OF st]; auto)+
  have ls: "l \<in> set (ts_starting t) \<or> ts_listener t = Some l \<or> taken_listener (ts_shut t) = Some l"
    if "l \<in> set (ts_listening t)" for l
    using that tcp_okD(8) [OF ok, of l]
    by (rule_tac shutdown_step_cases [OF st]; auto simp: taken_listener_def)
  have "set (ts_listening t) \<subseteq> set (ts_listening s)" by (rule shutdown_step_cases [OF st]; auto)
  note sub = subsetD [OF this] subsetD [OF same(6)]
  show ?thesis
  proof (rule tcp_okI)
    show "l < ts_next t" if "ts_listener t = Some l" for l
      using that same(7) tcp_okD(3) [OF ok] by (auto simp: same(3))
    show "l < ts_next t \<and> (l \<in> set (ts_starting t) \<or> ts_listener t = Some l \<or> taken_listener (ts_shut t) = Some l)"
      if "l \<in> set (ts_listening t)" for l
      using ls [OF that] tcp_okD(8) [OF ok sub(1) [OF that]] by (simp add: same(3))
    show "c < ts_next t \<and> owned_conn (ts_loops t) (ts_goroutines t) c" if "c \<in> set (ts_open t)" for c
      using tcp_okD(4) [OF ok sub(2) [OF that]] by (simp add: same(1,2,3))
  qed (use tcp_okD(1,2,5,6,7) [OF ok] in \<open>simp_all add: same(1,2,3,4,5)\<close>)
qed

lemma tcp_ok_listen:
  assumes ok: "tcp_ok s"
  shows "tcp_ok (snd (Start_listen e s))"
proof (cases "ts_handler s = None \<or> e \<noteq> None")
  case True
  with ok show ?thesis by (auto simp: Start_listen_def)
next
  case False
  then have t: "snd (Start_listen e s) = s\<lparr>ts_next := ts_next s + 1, ts_listening := ts_next s # ts_listening s,
      ts_starting := ts_next s # ts_starting s\<rparr>" (is "_ = ?t")
    by (simp add: Start_listen_def Let_def)
  have fresh: "ts_loops s (ts_next s) = None" using tcp_okD(2) [OF ok, of "ts_next s"] by force
  show ?thesis unfolding t
  proof (rule tcp_okI, goal_cases)
    case (1 l)
    then show ?case using fresh tcp_okD(1) [OF ok, of l] by auto
  next
    case (2 l x)
    then show ?case using tcp_okD(2) [OF ok, of l] by simp
  next
    case (3 l)
    then show ?case using tcp_okD(3) [OF ok, of l] by simp
  next
    case (4 c)
    then show ?case using tcp_okD(4) [OF ok, of c] by simp
  next
    case (5 l c)
    then show ?case using tcp_okD(5) [OF ok, of l c] by simp
  next
    case 6
    then show ?case using tcp_okD(6) [OF ok] by simp
  next
    case (7 c)
    then show ?case using tcp_okD(7) [OF ok, of c] by simp
  next
    case (8 l)
    then show ?case using tcp_okD(8) [OF ok, of l] by auto
  qed
qed

lemma tcp_ok_start:
  assumes ok: "tcp_ok s" and l: "l \<in> set (ts_starting s)"
  shows "tcp_ok (snd (Start_locked l s))"
proof -
  let ?t = "snd (Start_locked l s)"
  have lo: "ts_loops s l = None" "l < ts_next s" using tcp_okD(1) [OF ok l] by auto
  have same: "ts_goroutines ?t = ts_goroutines s" "ts_open ?t = ts_open s" "ts_conns ?t = ts_conns s"
    "ts_next ?t = ts_next s" "ts_shut ?t = ts_shut s" "ts_starting ?t = removeAll l (ts_starting s)"
    by (simp_all add: Start_locked_def Let_def)
  have lp: "ts_loops ?t = (if ts_listener s = None then (ts_loops s)(l \<mapsto> Accepting) else ts_loops s)"
    "ts_listener ?t = (if ts_listener s = None then Some l else ts_listener s)"
    "ts_listening ?t = (if ts_listener s = None then ts_listening s else removeAll l (ts_listening s))"
    by (simp_all add: Start_locked_def Let_def)
  have ow: "owned_conn (ts_loops s) (ts_goroutines s) c \<Longrightarrow> owned_conn (ts_loops ?t) (ts_goroutines ?t) c" for c
    using owned_loop_upd [of "ts_loops s" "ts_goroutines s" c l Accepting] lo(1) by (simp add: same lp)
  show ?thesis
  proof (rule tcp_okI, goal_cases)
    case (1 k)
    then show ?case using tcp_okD(1) [OF ok, of k] by (simp add: same lp)
  next
    case (2 k x)
    then show ?case using tcp_okD(2) [OF ok, of k] lo by (auto simp: same lp split: if_splits)
  next
    case (3 k)
    then show ?case using tcp_okD(3) [OF ok, of k] lo by (auto simp: same lp split: if_splits)
  next
    case (4 c)
    then show ?case using tcp_okD(4) [OF ok, of c] ow by (simp add: same)
  next
    case (5 k c)
    then show ?case using tcp_okD(5) [OF ok, of k c] by (auto simp: same lp split: if_splits)
  next
    case 6
    then show ?case using tcp_okD(6) [OF ok] by (simp add: same)
  next
    case (7 c)
    then show ?case using tcp_okD(7) [OF ok, of c] by (simp add: same)
  next
    case (8 k)
    then show ?case using tcp_okD(8) [OF ok, of k] by (auto simp: same lp split: if_splits)
  qed
qed

lemma tcp_ok_loop_end:
  assumes ok: "tcp_ok s" and l: "ts_loops s l = Some Accepting"
  shows "tcp_ok (s\<lparr>ts_loops := (ts_loops s)(l \<mapsto> LoopEnd)\<rparr>)"
proof (rule tcp_okI, goal_cases)
  case (1 k)
  then show ?case using tcp_okD(1) [OF ok, of k] l by auto
next
  case (2 k x)
  then show ?case using tcp_okD(2) [OF ok, of k] l by (auto split: if_splits)
next
  case (3 k)
  then show ?case using tcp_okD(3) [OF ok, of k] by simp
next
  case (4 c)
  then show ?case using tcp_okD(4) [OF ok, of c] owned_loop_upd [of "ts_loops s" "ts_goroutines s" c l LoopEnd] l by simp
next
  case (5 k c)
  then show ?case using tcp_okD(5) [OF ok, of k c] by (simp split: if_splits)
next
  case 6
  then show ?case using tcp_okD(6) [OF ok] by simp
next
  case (7 c)
  then show ?case using tcp_okD(7) [OF ok, of c] by simp
next
  case (8 k)
  then show ?case using tcp_okD(8) [OF ok, of k] by simp
qed

lemma tcp_ok_accept:
  assumes ok: "tcp_ok s" and l: "ts_loops s l = Some Accepting"
  shows "tcp_ok (accept l s)"
  unfolding accept_def Let_def
proof (rule tcp_okI, goal_cases)
  case (1 k)
  then show ?case using tcp_okD(1) [OF ok, of k] l by auto
next
  case (2 k x)
  then show ?case using tcp_okD(2) [OF ok, of k] tcp_okD(2) [OF ok, of l] l by (auto split: if_splits)
next
  case (3 k)
  then show ?case using tcp_okD(3) [OF ok, of k] by simp
next
  case (4 c)
  have "owned_conn ((ts_loops s)(l \<mapsto> Accepted (ts_next s))) (ts_goroutines s) (ts_next s)"
    by (auto simp: owned_conn_def)
  with 4 show ?case
    using tcp_okD(4) [OF ok, of c] owned_loop_upd [of "ts_loops s" "ts_goroutines s" c l "Accepted (ts_next s)"] l by auto
next
  case (5 k c)
  then show ?case using tcp_okD(5) [OF ok, of k c] by (auto split: if_splits)
next
  case 6
  then show ?case using tcp_okD(6) [OF ok] by simp
next
  case (7 c)
  then show ?case using tcp_okD(7) [OF ok, of c] by simp
next
  case (8 k)
  then show ?case using tcp_okD(8) [OF ok, of k] by auto
qed

lemma tcp_ok_track:
  assumes ok: "tcp_ok s" and l: "ts_loops s l = Some (Accepted d)"
  shows "tcp_ok ((trackConn d s)\<lparr>ts_loops := (ts_loops s)(l \<mapsto> Accepting), ts_goroutines := (ts_goroutines s)(d \<mapsto> Handling)\<rparr>)"
  unfolding trackConn_def
proof (rule tcp_okI, goal_cases)
  case (1 k)
  then show ?case using tcp_okD(1) [OF ok, of k] l by auto
next
  case (2 k x)
  then show ?case using tcp_okD(2) [OF ok, of k] tcp_okD(2) [OF ok, of l] l by (auto split: if_splits)
next
  case (3 k)
  then show ?case using tcp_okD(3) [OF ok, of k] by simp
next
  case (4 c)
  then show ?case using tcp_okD(4) [OF ok, of c] owned_track [of "ts_loops s" "ts_goroutines s" c l d] l by simp
next
  case (5 k c)
  then show ?case using tcp_okD(5) [OF ok, of k c] by (simp split: if_splits)
next
  case 6
  then show ?case using tcp_okD(6) [OF ok] by auto
next
  case (7 c)
  then show ?case using tcp_okD(7) [OF ok, of c] tcp_okD(5) [OF ok l] by auto
next
  case (8 k)
  then show ?case using tcp_okD(8) [OF ok, of k] by simp
qed

lemma tcp_ok_close:
  assumes ok: "tcp_ok s" and d: "ts_goroutines s d = Some Handling"
  shows "tcp_ok (conn_close d s)"
  unfolding conn_close_def
proof (rule tcp_okI, goal_cases)
  case (4 c)
  then show ?case
    using tcp_okD(4) [OF ok, of c] owned_goroutine_upd [of "ts_loops s" "ts_goroutines s" c d] by simp
next
  case 6
  then show ?case using tcp_okD(6) [OF ok] d by auto
next
  case (8 k)
  then show ?case using tcp_okD(8) [OF ok, of k] by simp
qed (use tcp_okD(1,2,3,5,7) [OF ok] in simp_all)

lemma tcp_ok_done:
  assumes ok: "tcp_ok s" and d: "ts_goroutines s d = Some Closed"
  shows "tcp_ok (conn_done d s)"
  unfolding conn_done_def untrackConn_def
proof (rule tcp_okI, goal_cases)
  case (4 c)
  then show ?case
    using tcp_okD(4) [OF ok, of c] owned_goroutine_upd [of "ts_loops s" "ts_goroutines s" c d] d by simp
next
  case 6
  then show ?case using tcp_okD(6) [OF ok] by auto
next
  case (8 k)
  then show ?case using tcp_okD(8) [OF ok, of k] by simp
qed (use tcp_okD(1,2,3,5,7) [OF ok] in simp_all)

lemma tcp_ok_handler: "tcp_ok s \<Longrightarrow> tcp_ok (SetHandler h s)"
  by (simp add: tcp_ok_def SetHandler_def)

lemma tcp_step_ok: "tcp_step s e t \<Longrightarrow> tcp_ok s \<Longrightarrow> tcp_ok t"
proof (induction rule: tcp_step.induct)
  case (accept_err s l temporary d)
  then show ?case using tcp_ok_loop_end by (simp add: accept_error_def)
qed (simp_all add: tcp_ok_handler tcp_ok_listen tcp_ok_start tcp_ok_shutdown tcp_ok_accept tcp_ok_track tcp_ok_close tcp_ok_done)

interpretation tcp_inv: invariant_steps tcp_step "\<lambda>_. True" tcp_ok
  by unfold_locales (rule tcp_step_ok)

subsection \<open>Running the server\<close>

text \<open>The step of an event as a function.\<close>

fun tcp_fire :: "tcp_event \<Rightarrow> tcp_state \<Rightarrow> tcp_state option" where
  "tcp_fire (ESetHandler h) s = Some (SetHandler h s)"
| "tcp_fire (EListen e) s = Some (snd (Start_listen e s))"
| "tcp_fire (EStart l) s = (if l \<in> set (ts_starting s) then Some (snd (Start_locked l s)) else None)"
| "tcp_fire EShutdown s = shutdown_step s"
| "tcp_fire (EAccept l) s =
     (if ts_loops s l = Some Accepting \<and> l \<in> set (ts_listening s) then Some (accept l s) else None)"
| "tcp_fire (EAcceptErr d temporary l) s =
     (if ts_loops s l = Some Accepting \<and> (l \<notin> set (ts_listening s) \<longrightarrow> \<not> temporary)
      then Some (accept_error d temporary l s) else None)"
| "tcp_fire (ETrack l c) s =
     (if ts_loops s l = Some (Accepted c)
      then Some ((trackConn c s)\<lparr>ts_loops := (ts_loops s)(l \<mapsto> Accepting), ts_goroutines := (ts_goroutines s)(c \<mapsto> Handling)\<rparr>)
      else None)"
| "tcp_fire (EHandled c) s = (if ts_goroutines s c = Some Handling then Some (conn_close c s) else None)"
| "tcp_fire (EUntrack c) s = (if ts_goroutines s c = Some Closed then Some (conn_done c s) else None)"

lemma tcp_fire_step: "tcp_fire e s = Some t \<longleftrightarrow> tcp_step s e t"
proof
  show "tcp_fire e s = Some t \<Longrightarrow> tcp_step s e t"
    by (cases e) (auto intro: tcp_step.intros split: if_splits)
  show "tcp_step s e t \<Longrightarrow> tcp_fire e s = Some t"
    by (induction rule: tcp_step.induct) simp_all
qed

fun tcp_fires :: "tcp_event list \<Rightarrow> tcp_state \<Rightarrow> tcp_state option" where
  "tcp_fires [] s = Some s"
| "tcp_fires (e # es) s = (case tcp_fire e s of None \<Rightarrow> None | Some t \<Rightarrow> tcp_fires es t)"

lemma tcp_fires_run:
  "tcp_fires es s = Some t \<Longrightarrow> (\<forall>e\<in>set es. allowed e) \<Longrightarrow> run tcp_step allowed s t"
proof (induction es arbitrary: s)
  case (Cons e es)
  then obtain u where u: "tcp_fire e s = Some u" "tcp_fires es u = Some t" by (auto split: option.splits)
  with Cons have "run tcp_step allowed u t" by simp
  moreover have "run tcp_step allowed s u"
    using u(1) Cons.prems(2) by (auto simp: tcp_fire_step intro: run_one)
  ultimately show ?case by (rule run_trans)
qed auto

text \<open>Two goroutines at most reach the code inside \<open>once.Do\<close> one after the other: it always ends.\<close>

fun shut_left :: "shut_pc \<Rightarrow> nat \<Rightarrow> nat" where
  "shut_left ShutIdle n = n + 4"
| "shut_left ShutBegun n = n + 3"
| "shut_left (ShutTaken l cs) n = length cs + 2"
| "shut_left (ShutConns cs) n = length cs + 1"
| "shut_left ShutDone n = 0"

lemma shutdown_progress:
  "shutdown_step s = None \<longleftrightarrow> ts_shut s = ShutDone"
  "shutdown_step s = Some t \<Longrightarrow> shut_left (ts_shut t) (length (ts_conns t)) < shut_left (ts_shut s) (length (ts_conns s))"
proof -
  show "shutdown_step s = None \<longleftrightarrow> ts_shut s = ShutDone"
    by (auto simp: shutdown_step_def split: shut_pc.splits option.splits list.splits)
  show "shutdown_step s = Some t \<Longrightarrow> shut_left (ts_shut t) (length (ts_conns t)) < shut_left (ts_shut s) (length (ts_conns s))"
    by (erule shutdown_step_cases) simp_all
qed

subsection \<open>What a shutdown closes\<close>

text \<open>
  From the moment the shutdown has taken the listener \<open>l0\<close> and the connections \<open>cs0\<close>, where \<open>n0\<close>
  was the next number and \<open>op0\<close> were the open connections.
\<close>

definition stop_inv :: "nat \<Rightarrow> nat set \<Rightarrow> nat option \<Rightarrow> nat list \<Rightarrow> tcp_state \<Rightarrow> bool" where
  "stop_inv n0 op0 l0 cs0 s \<longleftrightarrow>
     n0 \<le> ts_next s \<and> ts_listener s = None \<and> (\<forall>c\<in>set (ts_open s). c \<in> op0 \<or> n0 \<le> c)
     \<and> (\<forall>c\<in>set cs0. c < n0) \<and> (\<forall>l. l0 = Some l \<longrightarrow> l < n0)
     \<and> (case ts_shut s of
          ShutTaken l cs \<Rightarrow> l = l0 \<and> cs = cs0
        | ShutConns cs \<Rightarrow> (\<forall>c\<in>set cs0. c \<in> set cs \<or> c \<notin> set (ts_open s)) \<and> (\<forall>l. l0 = Some l \<longrightarrow> l \<notin> set (ts_listening s))
        | ShutDone \<Rightarrow> (\<forall>c\<in>set cs0. c \<notin> set (ts_open s)) \<and> (\<forall>l. l0 = Some l \<longrightarrow> l \<notin> set (ts_listening s))
        | _ \<Rightarrow> False)"

lemma stop_inv_more:
  assumes "stop_inv n0 op0 l0 cs0 s" "ts_listener t = ts_listener s" "ts_shut t = ts_shut s" "ts_next s \<le> ts_next t"
    "set (ts_open t) \<subseteq> set (ts_open s) \<union> {ts_next s}" "set (ts_listening t) \<subseteq> set (ts_listening s) \<union> {ts_next s}"
  shows "stop_inv n0 op0 l0 cs0 t"
proof -
  have n: "n0 \<le> ts_next s" using assms(1) by (simp add: stop_inv_def)
  have c: "c \<notin> set (ts_open t)" if "c \<in> set cs0" "c \<notin> set (ts_open s)" for c
    using assms(1,5) that n unfolding stop_inv_def by force
  have l: "l \<notin> set (ts_listening t)" if "l0 = Some l" "l \<notin> set (ts_listening s)" for l
    using assms(1,6) that n unfolding stop_inv_def by force
  have o: "c \<in> op0 \<or> n0 \<le> c" if "c \<in> set (ts_open t)" for c
    using assms(1,5) that n unfolding stop_inv_def by auto
  show ?thesis
    using assms(1-4) c l o unfolding stop_inv_def by (auto split: shut_pc.splits)
qed

lemma stop_inv_shutdown:
  assumes "stop_inv n0 op0 l0 cs0 s" "shutdown_step s = Some t"
  shows "stop_inv n0 op0 l0 cs0 t"
  by (rule shutdown_step_cases [OF assms(2)]; use assms(1) in \<open>auto simp: stop_inv_def\<close>)

lemma stop_inv_step:
  "tcp_step s e t \<Longrightarrow> stop_inv n0 op0 l0 cs0 s \<Longrightarrow> \<forall>l. e \<noteq> EStart l \<Longrightarrow> stop_inv n0 op0 l0 cs0 t"
proof (induction rule: tcp_step.induct)
  case (shutdown s t)
  then show ?case by (blast intro: stop_inv_shutdown)
next
  case (start l s)
  then show ?case by simp
next
  case (listen s e)
  show ?case
    by (rule stop_inv_more [OF listen.prems(1)]) (auto simp: Start_listen_def Let_def split: option.splits)
qed (auto elim!: stop_inv_more simp: SetHandler_def accept_def accept_error_def trackConn_def conn_close_def
  conn_done_def untrackConn_def Let_def)

interpretation stop: invariant_steps tcp_step "\<lambda>e. \<forall>l. e \<noteq> EStart l" "stop_inv n0 op0 l0 cs0" for n0 op0 l0 cs0
  by unfold_locales (rule stop_inv_step)

text \<open>
  C37: what a stopped server has closed, in every interleaving of its goroutines.  From the moment a
  shutdown takes the listener and the connections, and if no \<open>Start\<close> completes meanwhile, it ends
  with the listener closed and every tracked connection closed.  A connection that is still open
  was then accepted but not tracked yet, or was accepted later; it is closed when its handler
  returns, for a loop or a goroutine still owns it.
\<close>

theorem tcp_stop_closes:
  assumes "run tcp_step (\<lambda>_. True) (NewTCPServer opts) s0"
    and "ts_shut s0 = ShutBegun" "shutdown_step s0 = Some s1"
    and "run tcp_step (\<lambda>e. \<forall>l. e \<noteq> EStart l) s1 s2" "ts_shut s2 = ShutDone"
  shows "ts_listener s2 = None \<and> set (ts_listening s2) \<subseteq> set (ts_starting s2)
    \<and> (\<forall>c\<in>set (ts_conns s0). c \<notin> set (ts_open s2))
    \<and> (\<forall>c\<in>set (ts_open s2). ((\<exists>l. ts_loops s0 l = Some (Accepted c)) \<or> ts_next s0 \<le> c)
         \<and> owned_conn (ts_loops s2) (ts_goroutines s2) c)"
proof -
  have ok0: "tcp_ok s0" by (rule tcp_inv.run_inv [OF assms(1) tcp_ok_new])
  have s1: "s1 = s0\<lparr>ts_shut := ShutTaken (ts_listener s0) (ts_conns s0), ts_listener := None\<rparr>"
    using assms(2,3) by (simp add: shutdown_step_def)
  have ok1: "tcp_ok s1" by (rule tcp_ok_shutdown [OF ok0 assms(3)])
  have "run tcp_step (\<lambda>_. True) s1 s2" using assms(4) by (induction rule: run.induct) (auto intro: run_step)
  then have ok2: "tcp_ok s2" by (rule tcp_inv.run_inv [OF _ ok1])
  have "stop_inv (ts_next s0) (set (ts_open s0)) (ts_listener s0) (ts_conns s0) s1"
    using tcp_okD(3,7) [OF ok0] by (simp add: stop_inv_def s1)
  then have st: "stop_inv (ts_next s0) (set (ts_open s0)) (ts_listener s0) (ts_conns s0) s2"
    by (rule stop.run_inv [OF assms(4)])
  have c: "(\<exists>l. ts_loops s0 l = Some (Accepted c)) \<or> ts_next s0 \<le> c" if "c \<in> set (ts_open s2)" for c
  proof (cases "ts_next s0 \<le> c")
    case False
    with st that assms(5) have "c \<in> set (ts_open s0)" "c \<notin> set (ts_conns s0)" by (auto simp: stop_inv_def)
    with tcp_okD(4,6) [OF ok0] show ?thesis unfolding owned_conn_def by blast
  qed simp
  show ?thesis
    using st assms(5) c tcp_okD(4,8) [OF ok2] by (auto simp: stop_inv_def taken_listener_def)
qed

text \<open>One connection, open when the server is stopped.\<close>

lemma tcp_stop_closes_witness:
  "\<exists>s2. tcp_fires [EListen None, EStart 0, EAccept 0, ETrack 0 1, EShutdown, EShutdown, EShutdown, EShutdown, EShutdown]
      (NewTCPServer [T_WithHandler (Some 0)]) = Some s2 \<and> ts_shut s2 = ShutDone \<and> 1 \<notin> set (ts_open s2) \<and> ts_listener s2 = None"
proof -
  let ?i = "NewTCPServer [T_WithHandler (Some 0)]"
  let ?es = "[EListen None, EStart 0, EAccept 0, ETrack 0 1, EShutdown]"
  have "case tcp_fires ?es ?i of None \<Rightarrow> False
      | Some s \<Rightarrow> ts_shut s = ShutBegun \<and> ts_conns s = [1] \<and> ts_listener s = Some 0" by code_simp
  then obtain s0 where s0: "tcp_fires ?es ?i = Some s0" "ts_shut s0 = ShutBegun" "ts_conns s0 = [1]" "ts_listener s0 = Some 0"
    by (cases "tcp_fires ?es ?i") simp_all
  obtain s1 where s1: "shutdown_step s0 = Some s1" "ts_shut s1 = ShutTaken (Some 0) [1]"
    using s0 by (simp add: shutdown_step_def)
  obtain s2 where s2: "tcp_fires [EShutdown, EShutdown, EShutdown] s1 = Some s2" "ts_shut s2 = ShutDone"
    using s1(2) by (simp add: shutdown_step_def)
  have "tcp_fires (xs @ ys) s = (case tcp_fires xs s of None \<Rightarrow> None | Some t \<Rightarrow> tcp_fires ys t)" for xs ys s
    by (induction xs arbitrary: s) (simp_all split: option.splits)
  from this [of ?es "[EShutdown, EShutdown, EShutdown, EShutdown]" ?i] s0(1) s1(1) s2(1)
  have "tcp_fires (?es @ [EShutdown, EShutdown, EShutdown, EShutdown]) ?i = Some s2"
    by (simp del: append.simps)
  moreover have "run tcp_step (\<lambda>_. True) ?i s0" "run tcp_step (\<lambda>e. \<forall>l. e \<noteq> EStart l) s1 s2"
    by (rule tcp_fires_run [OF s0(1)], simp) (rule tcp_fires_run [OF s2(1)], simp)
  ultimately show ?thesis
    using tcp_stop_closes [OF _ s0(2) s1(1) _ s2(2)] s0(3) s2(2) by simp
qed

subsection \<open>A start after the stop\<close>

definition restarted :: "nat \<Rightarrow> tcp_state \<Rightarrow> bool" where
  "restarted l s \<longleftrightarrow>
     ts_shut s = ShutDone \<and> ts_listener s = Some l \<and> l \<in> set (ts_listening s) \<and> l \<notin> set (ts_starting s) \<and> l < ts_next s"

lemma restarted_step: "tcp_step s e t \<Longrightarrow> restarted l s \<Longrightarrow> restarted l t"
proof (induction rule: tcp_step.induct)
  case (start k s)
  then show ?case by (auto simp: restarted_def Start_locked_def Let_def)
next
  case (shutdown s t)
  then show ?case by (simp add: restarted_def shutdown_step_def)
qed (auto simp: restarted_def SetHandler_def Start_listen_def accept_def accept_error_def trackConn_def conn_close_def
  conn_done_def untrackConn_def Let_def split: option.splits)

interpretation restart: invariant_steps tcp_step "\<lambda>_. True" "restarted l" for l
  by unfold_locales (rule restarted_step)

text \<open>
  C38: a server is not stopped twice.  A \<open>Start\<close> that completes after a shutdown has ended reports
  success and listens, and from then on the listener stays open whatever is called: the shutdown
  has run once and no \<open>Stop\<close>, and no end of a context, runs it again.
\<close>

theorem start_after_stop:
  assumes "run tcp_step (\<lambda>_. True) (NewTCPServer opts) s" "ts_shut s = ShutDone" "ts_listener s = None"
    and "l \<in> set (ts_starting s)" "l \<in> set (ts_listening s)"
    and "run tcp_step (\<lambda>_. True) (snd (Start_locked l s)) t"
  shows "fst (Start_locked l s) = None \<and> shutdown_step t = None \<and> tcp_Addr t = Some l \<and> l \<in> set (ts_listening t)"
proof -
  have "tcp_ok s" by (rule tcp_inv.run_inv [OF assms(1) tcp_ok_new])
  then have "restarted l (snd (Start_locked l s))"
    using assms(2-5) tcp_okD(1) by (simp add: restarted_def Start_locked_def Let_def)
  then have "restarted l t" by (rule restart.run_inv [OF assms(6)])
  with assms(3) show ?thesis
    by (simp add: restarted_def shutdown_progress tcp_Addr_def) (simp add: Start_locked_def Let_def)
qed

lemma start_after_stop_witness:
  "\<exists>s t. tcp_fires [EListen None, EStart 0, EShutdown, EShutdown, EShutdown, EShutdown, EListen None] (NewTCPServer [T_WithHandler (Some 0)])
       = Some s \<and> tcp_fires [EStart 1, EAccept 1, ETrack 1 2] s = Some t \<and> 1 \<in> set (ts_listening t)"
proof -
  let ?i = "NewTCPServer [T_WithHandler (Some 0)]"
  let ?es = "[EListen None, EStart 0, EShutdown, EShutdown, EShutdown, EShutdown, EListen None]" and ?fs = "[EAccept 1, ETrack 1 2]"
  have "case tcp_fires ?es ?i of None \<Rightarrow> False
      | Some s \<Rightarrow> ts_shut s = ShutDone \<and> ts_listener s = None \<and> 1 \<in> set (ts_starting s) \<and> 1 \<in> set (ts_listening s)
          \<and> tcp_fires ?fs (snd (Start_locked 1 s)) \<noteq> None" by code_simp
  then obtain s t where s: "tcp_fires ?es ?i = Some s" "ts_shut s = ShutDone" "ts_listener s = None"
    "1 \<in> set (ts_starting s)" "1 \<in> set (ts_listening s)" and t: "tcp_fires ?fs (snd (Start_locked 1 s)) = Some t"
    by (cases "tcp_fires ?es ?i") auto
  have "run tcp_step (\<lambda>_. True) ?i s" "run tcp_step (\<lambda>_. True) (snd (Start_locked 1 s)) t"
    by (rule tcp_fires_run [OF s(1)], simp) (rule tcp_fires_run [OF t], simp)
  from start_after_stop [OF this(1) s(2-5) this(2)] s(1,4) t show ?thesis by simp
qed

end
