(* ===== verification/ReminderMigrate.thy ===== *)
theory ReminderMigrate
  imports ReminderStore "HOL-Library.List_Lexorder" "HOL-Library.Char_ord"
begin

text \<open>
  migrate.go of package \<open>reminder\<close>: the embedded SQL files are applied in the order of their
  names, each once, in one transaction.  The database is a parameter \<open>m\<close>: the statements the code
  sends, and what can be observed of it, the recorded versions and the files applied so far.  The
  embedded file system is a parameter too: what \<open>ReadDir\<close> and \<open>ReadFile\<close> return.
\<close>

subsection \<open>Names of files\<close>

definition HasSuffix :: "string \<Rightarrow> string \<Rightarrow> bool" where
  "HasSuffix s suf \<longleftrightarrow> length suf \<le> length s \<and> drop (length s - length suf) s = suf"

definition TrimSuffix :: "string \<Rightarrow> string \<Rightarrow> string" where
  "TrimSuffix s suf = (if HasSuffix s suf then take (length s - length suf) s else s)"

text \<open>\<open>path.Ext\<close>: from the last dot of the last element of the path on.\<close>

definition path_Ext :: "string \<Rightarrow> string" where
  "path_Ext s =
     (let ext = rev (takeWhile (\<lambda>c. c \<noteq> CHR ''.'' \<and> c \<noteq> CHR ''/'') (rev s));
          rest = dropWhile (\<lambda>c. c \<noteq> CHR ''.'' \<and> c \<noteq> CHR ''/'') (rev s)
      in case rest of [] \<Rightarrow> [] | c # cs \<Rightarrow> (if c = CHR ''.'' then c # ext else []))"

definition version_of :: "string \<Rightarrow> string" where
  "version_of name = TrimSuffix name (path_Ext name)"

subsection \<open>The database\<close>

record 'd migration_db =
  mi_begin :: "'d \<Rightarrow> error + 'd"
  mi_create :: "'d \<Rightarrow> error + 'd"
  mi_exists :: "string \<Rightarrow> 'd \<Rightarrow> error + bool"
  mi_exec :: "string \<Rightarrow> 'd \<Rightarrow> error + 'd"
  mi_insert :: "string \<Rightarrow> 'd \<Rightarrow> error + 'd"
  mi_commit :: "'d \<Rightarrow> 'd \<Rightarrow> error option \<times> 'd"
  mi_versions :: "'d \<Rightarrow> string set"
  mi_applied :: "'d \<Rightarrow> string list"

text \<open>
  A transaction starts from the database; creating the table of versions changes neither; a
  committed transaction is the database, and after a failed commit either may be the case.
\<close>

definition migration_laws :: "'d migration_db \<Rightarrow> bool" where
  "migration_laws m \<longleftrightarrow>
     (\<forall>d t. mi_begin m d = Inr t \<longrightarrow> mi_versions m t = mi_versions m d \<and> mi_applied m t = mi_applied m d)
     \<and> (\<forall>d t. mi_create m d = Inr t \<longrightarrow> mi_versions m t = mi_versions m d \<and> mi_applied m t = mi_applied m d)
     \<and> (\<forall>v d b. mi_exists m v d = Inr b \<longrightarrow> b = (v \<in> mi_versions m d))
     \<and> (\<forall>q d t. mi_exec m q d = Inr t \<longrightarrow> mi_versions m t = mi_versions m d \<and> mi_applied m t = mi_applied m d @ [q])
     \<and> (\<forall>v d t. mi_insert m v d = Inr t \<longrightarrow> mi_versions m t = insert v (mi_versions m d) \<and> mi_applied m t = mi_applied m d)
     \<and> (\<forall>t d d'. mi_commit m t d = (None, d') \<longrightarrow> mi_versions m d' = mi_versions m t \<and> mi_applied m d' = mi_applied m t)
     \<and> (\<forall>t d e d'. mi_commit m t d = (Some e, d') \<longrightarrow>
          mi_versions m d' = mi_versions m d \<and> mi_applied m d' = mi_applied m d
          \<or> mi_versions m d' = mi_versions m t \<and> mi_applied m d' = mi_applied m t)"

record embed_fs =
  fs_ReadDir :: "error + (string \<times> bool) list"
  fs_ReadFile :: "string \<Rightarrow> error + string"

subsection \<open>Migrate\<close>

definition migration_names :: "(string \<times> bool) list \<Rightarrow> string list" where
  "migration_names files = sort (map fst (filter (\<lambda>(name, isDir). \<not> isDir \<and> HasSuffix name ''.sql'') files))"

fun migrate_files :: "'d migration_db \<Rightarrow> embed_fs \<Rightarrow> string list \<Rightarrow> 'd \<Rightarrow> error + 'd" where
  "migrate_files m fs [] tx = Inr tx"
| "migrate_files m fs (name # names) tx =
     (let version = version_of name in
      case mi_exists m version tx of
        Inl err \<Rightarrow> Inl err
      | Inr exists \<Rightarrow>
          (if exists then migrate_files m fs names tx
           else
             (case fs_ReadFile fs name of
                Inl readErr \<Rightarrow> Inl readErr
              | Inr sql \<Rightarrow>
                  (case mi_exec m sql tx of
                     Inl err \<Rightarrow> Inl (Wrap (''apply reminder migration '' @ version @ '': '') err [])
                   | Inr tx1 \<Rightarrow>
                       (case mi_insert m version tx1 of
                          Inl err \<Rightarrow> Inl err
                        | Inr tx2 \<Rightarrow> migrate_files m fs names tx2)))))"

text \<open>Every way out but the commit rolls the transaction back, which leaves the database as it was.\<close>

definition Migrate :: "'d migration_db \<Rightarrow> embed_fs \<Rightarrow> 'd option \<Rightarrow> error option \<times> 'd option" where
  "Migrate m fs db =
     (case db of
        None \<Rightarrow> (Some ErrInvalidReminder, None)
      | Some d \<Rightarrow>
          (case mi_begin m d of
             Inl err \<Rightarrow> (Some err, Some d)
           | Inr tx \<Rightarrow>
               (case mi_create m tx of
                  Inl err \<Rightarrow> (Some err, Some d)
                | Inr tx1 \<Rightarrow>
                    (case fs_ReadDir fs of
                       Inl err \<Rightarrow> (Some err, Some d)
                     | Inr files \<Rightarrow>
                         (case migrate_files m fs (migration_names files) tx1 of
                            Inl err \<Rightarrow> (Some err, Some d)
                          | Inr tx2 \<Rightarrow> (let (err, d') = mi_commit m tx2 d in (err, Some d')))))))"

subsection \<open>Each file once\<close>

text \<open>The names of two different SQL files are two different versions.\<close>

lemma path_Ext_sql: "HasSuffix name ''.sql'' \<Longrightarrow> path_Ext name = ''.sql''"
proof -
  assume "HasSuffix name ''.sql''"
  then obtain p where "name = p @ ''.sql''"
    unfolding HasSuffix_def by (metis append_take_drop_id)
  then show ?thesis by (simp add: path_Ext_def)
qed

lemma version_of_sql: "HasSuffix name ''.sql'' \<Longrightarrow> version_of name @ ''.sql'' = name"
proof -
  assume s: "HasSuffix name ''.sql''"
  then obtain p where "name = p @ ''.sql''"
    unfolding HasSuffix_def by (metis append_take_drop_id)
  with s show ?thesis by (simp add: version_of_def path_Ext_sql TrimSuffix_def)
qed

lemma version_of_inj: "HasSuffix a ''.sql'' \<Longrightarrow> HasSuffix b ''.sql'' \<Longrightarrow> version_of a = version_of b \<Longrightarrow> a = b"
  by (metis version_of_sql)

lemma migration_names_sql: "name \<in> set (migration_names files) \<Longrightarrow> HasSuffix name ''.sql''"
  by (auto simp: migration_names_def)

lemma migration_names_sorted: "distinct (map fst files) \<Longrightarrow> sorted (migration_names files) \<and> distinct (migration_names files)"
  by (simp add: migration_names_def distinct_map_filter)

text \<open>What a database has applied that starts from these versions.\<close>

definition missing :: "'d migration_db \<Rightarrow> 'd \<Rightarrow> string list \<Rightarrow> string list" where
  "missing m d names = filter (\<lambda>name. version_of name \<notin> mi_versions m d) names"

definition contents :: "embed_fs \<Rightarrow> string list \<Rightarrow> string list" where
  "contents fs names = map (\<lambda>name. case fs_ReadFile fs name of Inr sql \<Rightarrow> sql | Inl _ \<Rightarrow> []) names"

lemma migrate_files_exact:
  assumes laws: "migration_laws m"
  shows "migrate_files m fs names tx = Inr t \<Longrightarrow> distinct names \<Longrightarrow> \<forall>n\<in>set names. HasSuffix n ''.sql'' \<Longrightarrow>
    mi_versions m t = mi_versions m tx \<union> version_of ` set names
    \<and> mi_applied m t = mi_applied m tx @ contents fs (missing m tx names)"
proof (induction names arbitrary: tx)
  case Nil
  then show ?case by (simp add: missing_def contents_def)
next
  case (Cons n ns)
  let ?v = "version_of n"
  obtain b where b: "mi_exists m ?v tx = Inr b"
    using Cons.prems(1) by (auto simp: Let_def split: sum.splits)
  with laws have ex: "b = (?v \<in> mi_versions m tx)" by (auto simp: migration_laws_def)
  have dn: "distinct ns" "\<forall>n\<in>set ns. HasSuffix n ''.sql''" using Cons.prems(2,3) by auto
  show ?case
  proof (cases b)
    case True
    with Cons.prems(1) b have "migrate_files m fs ns tx = Inr t" by (simp add: Let_def)
    from Cons.IH [OF this dn] True ex show ?thesis by (auto simp: missing_def)
  next
    case False
    with Cons.prems(1) b obtain sql t1 t2 where s: "fs_ReadFile fs n = Inr sql" "mi_exec m sql tx = Inr t1"
      "mi_insert m ?v t1 = Inr t2" "migrate_files m fs ns t2 = Inr t"
      by (auto simp: Let_def split: sum.splits)
    have t2: "mi_versions m t2 = insert ?v (mi_versions m tx)" "mi_applied m t2 = mi_applied m tx @ [sql]"
      using laws s(2,3) unfolding migration_laws_def by metis+
    have "version_of k \<noteq> ?v" if "k \<in> set ns" for k
      using version_of_inj [of k n] that Cons.prems(2,3) by auto
    then have "missing m t2 ns = missing m tx ns"
      unfolding missing_def t2 by (auto intro: filter_cong)
    with Cons.IH [OF s(4) dn] t2 s(1) False ex show ?thesis by (auto simp: missing_def contents_def)
  qed
qed

lemma Migrate_run:
  assumes laws: "migration_laws m" and dir: "fs_ReadDir fs = Inr files" "distinct (map fst files)"
    and run: "Migrate m fs (Some d) = (r, Some d1)"
  defines "new \<equiv> contents fs (missing m d (migration_names files))"
  shows "r = None \<Longrightarrow> mi_versions m d1 = mi_versions m d \<union> version_of ` set (migration_names files) \<and> mi_applied m d1 = mi_applied m d @ new"
    and "mi_applied m d1 = mi_applied m d \<or> mi_applied m d1 = mi_applied m d @ new"
proof -
  let ?ns = "migration_names files"
  have ns: "distinct ?ns" "\<forall>n\<in>set ?ns. HasSuffix n ''.sql''"
    using migration_names_sorted [OF dir(2)] migration_names_sql by auto
  have "(r \<noteq> None \<and> d1 = d) \<or> (\<exists>tx tx1 tx2. mi_begin m d = Inr tx \<and> mi_create m tx = Inr tx1
      \<and> migrate_files m fs ?ns tx1 = Inr tx2 \<and> mi_commit m tx2 d = (r, d1))"
    using run dir(1) by (auto simp: Migrate_def Let_def split: sum.splits prod.splits)
  then show "r = None \<Longrightarrow> mi_versions m d1 = mi_versions m d \<union> version_of ` set ?ns \<and> mi_applied m d1 = mi_applied m d @ new"
    and "mi_applied m d1 = mi_applied m d \<or> mi_applied m d1 = mi_applied m d @ new"
  proof (atomize (full), elim disjE exE conjE)
    fix tx tx1 tx2
    assume st: "mi_begin m d = Inr tx" "mi_create m tx = Inr tx1" "migrate_files m fs ?ns tx1 = Inr tx2" "mi_commit m tx2 d = (r, d1)"
    have same: "mi_versions m tx1 = mi_versions m d" "mi_applied m tx1 = mi_applied m d"
      using laws st(1,2) unfolding migration_laws_def by metis+
    have "missing m tx1 ?ns = missing m d ?ns" by (simp add: missing_def same)
    with migrate_files_exact [OF laws st(3) ns] same
    have t2: "mi_versions m tx2 = mi_versions m d \<union> version_of ` set ?ns" "mi_applied m tx2 = mi_applied m d @ new"
      by (simp_all add: new_def)
    show "(r = None \<longrightarrow> mi_versions m d1 = mi_versions m d \<union> version_of ` set ?ns \<and> mi_applied m d1 = mi_applied m d @ new)
      \<and> (mi_applied m d1 = mi_applied m d \<or> mi_applied m d1 = mi_applied m d @ new)"
    proof (cases r)
      case None
      have "mi_versions m d1 = mi_versions m tx2 \<and> mi_applied m d1 = mi_applied m tx2"
        using laws st(4) unfolding None migration_laws_def by blast
      with t2 None show ?thesis by simp
    next
      case (Some e)
      have "mi_applied m d1 = mi_applied m d \<or> mi_applied m d1 = mi_applied m tx2"
        using laws st(4) unfolding Some migration_laws_def by blast
      with t2 Some show ?thesis by simp
    qed
  qed auto
qed

text \<open>
  C13: migrations are applied once.  A successful \<open>Migrate\<close> has applied exactly the SQL files whose
  version was not recorded, in the order of their names, and recorded all; a failed one has applied
  none of them, or all if only the report of the commit was lost; and after a successful one no
  other run, successful or not, applies anything.
\<close>

theorem Migrate_once:
  assumes "migration_laws m" "fs_ReadDir fs = Inr files" "distinct (map fst files)"
    and "Migrate m fs (Some d) = (r, Some d1)" "Migrate m fs (Some d1) = (r2, Some d2)"
  shows "let new = contents fs (missing m d (migration_names files))
    in (if r = None
        then mi_applied m d1 = mi_applied m d @ new \<and> sorted (migration_names files)
          \<and> mi_versions m d1 = mi_versions m d \<union> version_of ` set (migration_names files)
          \<and> mi_applied m d2 = mi_applied m d1
        else mi_applied m d1 = mi_applied m d \<or> mi_applied m d1 = mi_applied m d @ new)"
proof (cases r)
  case None
  note fst_run = Migrate_run(1) [OF assms(1-4) None]
  have "missing m d1 (migration_names files) = []"
    using fst_run by (simp add: missing_def filter_empty_conv)
  then have "mi_applied m d2 = mi_applied m d1"
    using Migrate_run(2) [OF assms(1-3,5)] by (simp add: contents_def)
  with fst_run None migration_names_sorted [OF assms(3)] show ?thesis by simp
next
  case (Some e)
  with Migrate_run(2) [OF assms(1-4)] show ?thesis by simp
qed

text \<open>A database in memory that records what it is told.\<close>

definition mem_migrations :: "(string list \<times> string list) migration_db" where
  "mem_migrations =
     \<lparr>mi_begin = Inr, mi_create = Inr, mi_exists = (\<lambda>v d. Inr (v \<in> set (fst d))),
      mi_exec = (\<lambda>q d. Inr (fst d, snd d @ [q])), mi_insert = (\<lambda>v d. Inr (v # fst d, snd d)),
      mi_commit = (\<lambda>t d. (None, t)), mi_versions = (\<lambda>d. set (fst d)), mi_applied = snd\<rparr>"

lemma mem_migrations_laws: "migration_laws mem_migrations"
  by (auto simp: migration_laws_def mem_migrations_def)

lemma Migrate_once_witness:
  "\<exists>d1 d2. Migrate mem_migrations \<lparr>fs_ReadDir = Inr [(''002_b.sql'', False), (''001_init.sql'', False), (''notes.md'', False)],
       fs_ReadFile = Inr\<rparr> (Some ([''001_init''], [''001_init.sql''])) = (None, Some d1)
     \<and> snd d1 = [''001_init.sql'', ''002_b.sql'']
     \<and> Migrate mem_migrations \<lparr>fs_ReadDir = Inr [(''002_b.sql'', False), (''001_init.sql'', False), (''notes.md'', False)],
          fs_ReadFile = Inr\<rparr> (Some d1) = (None, Some d2) \<and> snd d2 = snd d1"
proof -
  let ?files = "[(''002_b.sql'', False), (''001_init.sql'', False), (''notes.md'', False)]"
  let ?fs = "\<lparr>fs_ReadDir = Inr ?files, fs_ReadFile = Inr\<rparr>"
  let ?d = "([''001_init''], [''001_init.sql''])" and ?d1 = "([''002_b'', ''001_init''], [''001_init.sql'', ''002_b.sql''])"
  have r1: "Migrate mem_migrations ?fs (Some ?d) = (None, Some ?d1)" by code_simp
  have r2: "Migrate mem_migrations ?fs (Some ?d1) = (None, Some ?d1)" by code_simp
  have "distinct (map fst ?files)" by simp
  from Migrate_once [OF mem_migrations_laws _ this r1 r2] r1 r2 show ?thesis
    by (intro exI [of _ ?d1]) (simp add: mem_migrations_def Let_def)
qed

end
