(* ===== verification/ReminderApi.thy ===== *)
theory ReminderApi
  imports ReminderService ReminderMigrate
begin

text \<open>
  The operations of service.go of package \<open>reminder\<close> that hand the call on to the store, and
  \<open>NewStore\<close> and \<open>Migrate\<close> of the store.  A store without a database refuses every one of them.
\<close>

definition reminder_NewStore :: "'d pg option \<Rightarrow> 'd pg option" where
  "reminder_NewStore db = db"

definition reminder_Name :: "('d, 'n) reminder_service \<Rightarrow> string" where
  "reminder_Name s = ro_name (rs_opts s)"

definition service_Create :: "('d, 'n) reminder_service \<Rightarrow> create_params \<Rightarrow> go_time \<Rightarrow> ('d, error, reminder) op" where
  "service_Create s params now = Create (rs_store s) params now"

definition service_GetByKey :: "('d, 'n) reminder_service \<Rightarrow> string \<Rightarrow> ('d, error, reminder) op" where
  "service_GetByKey s key = GetByKey (rs_store s) key"

definition service_List ::
  "('d, 'n) reminder_service \<Rightarrow> cursor_codec \<Rightarrow> list_params \<Rightarrow> ('d, error, list_result) op" where
  "service_List s cc params = ReminderStore.List (rs_store s) cc params"

definition service_CancelByKey :: "('d, 'n) reminder_service \<Rightarrow> string \<Rightarrow> go_time \<Rightarrow> 'd \<Rightarrow> error option \<times> 'd" where
  "service_CancelByKey s key now = CancelByKey (rs_store s) key now"

definition service_RescheduleByKey ::
  "('d, 'n) reminder_service \<Rightarrow> string \<Rightarrow> go_time \<Rightarrow> go_time \<Rightarrow> 'd \<Rightarrow> error option \<times> 'd" where
  "service_RescheduleByKey s key scheduleAt now = RescheduleByKey (rs_store s) key scheduleAt now"

text \<open>The database handle of the store, nil or one on the state \<open>d\<close>, is what \<open>Migrate\<close> gets.\<close>

definition store_Migrate :: "'d migration_db \<Rightarrow> embed_fs \<Rightarrow> 'd pg option \<Rightarrow> 'd \<Rightarrow> error option \<times> 'd" where
  "store_Migrate m fs st d =
     (case Migrate m fs (case st of None \<Rightarrow> None | Some _ \<Rightarrow> Some d) of
        (err, None) \<Rightarrow> (err, d)
      | (err, Some d') \<Rightarrow> (err, d'))"

definition service_Migrate :: "'d migration_db \<Rightarrow> embed_fs \<Rightarrow> ('d, 'n) reminder_service \<Rightarrow> 'd \<Rightarrow> error option \<times> 'd" where
  "service_Migrate m fs s d = store_Migrate m fs (rs_store s) d"

text \<open>Without a database every operation reports an invalid reminder and nothing happens.\<close>

lemma unconfigured_refuses:
  assumes "s = reminder_NewService gl (reminder_NewStore None) n opts"
  shows "service_Create s params now d = (Inl ErrInvalidReminder, d)"
    "service_GetByKey s key d = (Inl ErrInvalidReminder, d)"
    "service_List s cc lps d = (Inl ErrInvalidReminder, d)"
    "service_CancelByKey s key now d = (Some ErrInvalidReminder, d)"
    "service_RescheduleByKey s key at now d = (Some ErrInvalidReminder, d)"
    "service_Migrate m fs s d = (Some ErrInvalidReminder, d)"
proof -
  have "rs_store s = None" by (simp add: assms reminder_NewService_def reminder_NewStore_def Let_def)
  then show "service_Create s params now d = (Inl ErrInvalidReminder, d)"
    "service_GetByKey s key d = (Inl ErrInvalidReminder, d)"
    "service_List s cc lps d = (Inl ErrInvalidReminder, d)"
    "service_CancelByKey s key now d = (Some ErrInvalidReminder, d)"
    "service_RescheduleByKey s key at now d = (Some ErrInvalidReminder, d)"
    "service_Migrate m fs s d = (Some ErrInvalidReminder, d)"
    by (simp_all add: service_Create_def Create_def service_GetByKey_def GetByKey_def service_List_def ReminderStore.List_def
        service_CancelByKey_def CancelByKey_def service_RescheduleByKey_def RescheduleByKey_def
        service_Migrate_def store_Migrate_def Migrate_def Let_def)
qed

text \<open>A migration that fails leaves the database as it was, unless the commit itself fails.\<close>

lemma store_Migrate_error:
  "store_Migrate m fs (Some pg) d = (Some err, d') \<Longrightarrow> d' = d \<or> (\<exists>tx. mi_commit m tx d = (Some err, d'))"
  by (auto simp: store_Migrate_def Migrate_def split: option.splits sum.splits prod.splits)

end
