(* ===== verification/PubsubPoison.thy ===== *)
theory PubsubPoison
  imports PubsubPromote
begin

text \<open>
  A message that its handler always refuses, followed through the retries: from the worker to the
  retry set of its group, by a promotion back to the stream, and to a worker again.
\<close>

text \<open>The payload a worker stores when it puts an entry aside.\<close>

definition put_aside :: "'r store \<Rightarrow> 'w handle subscription \<Rightarrow> string \<Rightarrow> entry \<Rightarrow> string \<Rightarrow> bool" where
  "put_aside st sub consumer ent payload \<longleftrightarrow>
     (\<exists>dl0. decodeEntry (st_codec st) (s_Topic sub) (s_Group sub) consumer ent = Inr dl0
        \<and> (let dl = with_max_deliver (effectiveRetry sub (po_retry (st_opts st))) dl0
           in pc_marshal_envelope (st_codec st) (retry_envelope (s_Topic sub) dl (dl_Attempt dl + 1)) = Inr payload))"

text \<open>
  \<open>circulates n\<close>: from the first entry and state to the last ones the message was put aside by a
  worker and promoted \<open>n\<close> times.  In between anything may happen to the server, the link and the
  state of the handlers; the retry set may hold other retries, and a promotion may move them too.
\<close>

inductive circulates ::
  "'r redis \<Rightarrow> 'r store \<Rightarrow> 'w handle subscription \<Rightarrow> nat
     \<Rightarrow> entry \<times> ('w \<times> 'r conn) \<Rightarrow> entry \<times> ('w \<times> 'r conn) \<Rightarrow> bool"
  for rd :: "'r redis" and st :: "'r store" and sub :: "'w handle subscription" where
  start: "circulates rd st sub 0 x x"
| others: "circulates rd st sub n x (ent, s) \<Longrightarrow> circulates rd st sub n x (ent, s1)"
| again: "circulates rd st sub n x (ent, (w, c)) \<Longrightarrow>
     handleEntry st sub consumer ent now (w, c) = (Retried None, (w1, c1)) \<Longrightarrow>
     put_aside st sub consumer ent payload \<Longrightarrow>
     rd_zset rd (cn_srv c2) (retryKey (st_opts st) (s_Topic sub) (s_Group sub)) payload \<noteq> None \<Longrightarrow>
     PromoteDueRetries st (s_Topic sub) (s_Group sub) limit later c2 = (res, c3) \<Longrightarrow>
     e \<in> set (drop (length (rd_entries rd (cn_srv c2) (streamKey (st_opts st) (s_Topic sub))))
                  (rd_entries rd (cn_srv c3) (streamKey (st_opts st) (s_Topic sub)))) \<Longrightarrow>
     promoted_fields (st_codec st) payload = Inr (e_Values e) \<Longrightarrow>
     circulates rd st sub (Suc n) x (e, (w2, c3))"

subsection \<open>One round\<close>

definition refuses :: "'w handle \<Rightarrow> bool" where
  "refuses h \<longleftrightarrow> leaves_delivery h \<and> (\<forall>dl w. fst (fst (h dl w)) \<noteq> None)"

text \<open>What every consumer decodes an entry of the message to: \<open>m\<close>, at attempt \<open>att\<close>.\<close>

definition same_message :: "'r store \<Rightarrow> 'w handle subscription \<Rightarrow> delivery \<Rightarrow> int \<Rightarrow> message \<Rightarrow> entry \<Rightarrow> bool" where
  "same_message st sub dl att m ent \<longleftrightarrow>
     (\<forall>consumer. \<exists>dl1. decodeEntry (st_codec st) (s_Topic sub) (s_Group sub) consumer ent = Inr dl1
       \<and> dl_Attempt dl1 = att \<and> dl_PublishedAt dl1 = dl_PublishedAt dl
       \<and> dl_Message (with_max_deliver (effectiveRetry sub (po_retry (st_opts st))) dl1) = m)"

lemma decodeEntry_consumer:
  "decodeEntry pc topic grp consumer ent = Inr dl \<Longrightarrow>
   decodeEntry pc topic grp consumer' ent = Inr (dl\<lparr>dl_Consumer := consumer'\<rparr>)"
  by (auto simp: decodeEntry_def Let_def split: if_splits option.splits sum.splits)

lemma with_max_deliver_more [simp]:
  "dl_PublishedAt (with_max_deliver p dl) = dl_PublishedAt dl"
  "dl_Raw (with_max_deliver p dl) = dl_Raw dl" "dl_Topic (with_max_deliver p dl) = dl_Topic dl"
  by (simp_all add: with_max_deliver_def)

lemma with_max_deliver_pos: "0 < m_MaxDeliver (dl_Message dl) \<Longrightarrow> with_max_deliver p dl = dl"
  by (simp add: with_max_deliver_def)

text \<open>A refused delivery goes to \<open>handle_failed\<close>.\<close>

lemma handleEntry_refused:
  assumes "decodeEntry (st_codec st) (s_Topic sub) (s_Group sub) consumer ent = Inr dl1"
    and "dl_Attempt dl1 \<le> m_MaxDeliver (dl_Message (with_max_deliver (effectiveRetry sub (po_retry (st_opts st))) dl1))"
    and "s_Handler sub = Some h" "refuses h"
  shows "\<exists>w'. handleEntry st sub consumer ent now (w, c) =
    (case handle_failed st sub (with_max_deliver (effectiveRetry sub (po_retry (st_opts st))) dl1) now c of
       (res, c') \<Rightarrow> (res, (w', c')))"
proof -
  let ?d = "with_max_deliver (effectiveRetry sub (po_retry (st_opts st))) dl1"
  obtain out d2 w' where o: "h ?d w = ((out, d2), w')" by (metis prod.exhaust)
  have "d2 = ?d" "out \<noteq> None"
    using assms(4) o unfolding refuses_def leaves_delivery_def by (metis fst_conv snd_conv)+
  with assms(1-3) o show ?thesis
    unfolding handleEntry_def by (auto simp: Let_def split: prod.splits)
qed

text \<open>The envelope of a retry does not depend on the entry it is made from.\<close>

lemma retry_envelope_same:
  assumes "dl_Message d1 = dl_Message d2" "dl_PublishedAt d1 = dl_PublishedAt d2" "dl_Group d1 = dl_Group d2"
  shows "retry_envelope topic d1 next = retry_envelope topic d2 next"
  using assms by (simp add: retry_envelope_def)

text \<open>The parameters of a story: a subscription whose handler refuses, and the first delivery.\<close>

definition poison :: "'r redis \<Rightarrow> 'r store \<Rightarrow> 'w handle subscription \<Rightarrow> delivery \<Rightarrow> bool" where
  "poison rd st sub dl \<longleftrightarrow>
     redis_laws rd \<and> st_rdb st = Some rd \<and> codec_ok (st_codec st)
     \<and> (\<exists>h. s_Handler sub = Some h \<and> refuses h)
     \<and> dl_Group dl = s_Group sub \<and> m_ScheduledAt (dl_Message dl) = 0
     \<and> envelope_ok (retry_envelope (s_Topic sub) dl (m_MaxDeliver (dl_Message dl)))"

lemma poison_max: "poison rd st sub dl \<Longrightarrow> m_MaxDeliver (dl_Message dl) < 10 ^ 14"
  by (simp add: poison_def envelope_ok_def retry_envelope_def)

text \<open>The message of a story after some rounds: after the first one it has been through JSON.\<close>

definition after_rounds :: "nat \<Rightarrow> message \<Rightarrow> message" where
  "after_rounds n m = (if n = 0 then m else clean_message m)"

lemma after_rounds_simps [simp]:
  "m_MaxDeliver (after_rounds n m) = m_MaxDeliver m" "m_ScheduledAt (after_rounds n m) = m_ScheduledAt m"
  "clean_message (after_rounds n m) = clean_message m" "after_rounds 0 m = m" "after_rounds (Suc n) m = clean_message m"
  by (simp_all add: after_rounds_def)

lemma after_rounds_finite: "finite_headers (m_Headers m) \<Longrightarrow> finite_headers (m_Headers (after_rounds n m))"
  by (simp add: after_rounds_def)

lemma poison_envelope:
  assumes "poison rd st sub dl" "0 \<le> next" "next \<le> m_MaxDeliver (dl_Message dl)"
  shows "envelope_ok (retry_envelope (s_Topic sub) (dl\<lparr>dl_Message := after_rounds n (dl_Message dl)\<rparr>) next)"
  using assms after_rounds_finite [of "dl_Message dl"]
  by (auto simp: poison_def envelope_ok_def retry_envelope_def)

lemma poison_next:
  assumes "poison rd st sub dl" "1 \<le> att" "att \<le> m_MaxDeliver (dl_Message dl)"
  shows "wrap64 (att + 1) = att + 1"
proof -
  from poison_max [OF assms(1)] assms(2,3) have "in_int64 (att + 1)"
    by (simp add: in_int64_def min_int64_def max_int64_def)
  then show ?thesis by simp
qed

text \<open>What a worker does with an entry of the message.\<close>

lemma poison_handled:
  assumes P: "poison rd st sub dl" and m: "same_message st sub dl att (after_rounds n (dl_Message dl)) ent"
    and a: "1 \<le> att" "att \<le> m_MaxDeliver (dl_Message dl)"
    and he: "handleEntry st sub consumer ent now (w, c) = (res, (w1, c1))"
  obtains dl1 d where "decodeEntry (st_codec st) (s_Topic sub) (s_Group sub) consumer ent = Inr dl1"
    "d = with_max_deliver (effectiveRetry sub (po_retry (st_opts st))) dl1"
    "handle_failed st sub d now c = (res, c1)"
    "dl_Message d = after_rounds n (dl_Message dl)" "dl_PublishedAt d = dl_PublishedAt dl"
    "dl_Group d = s_Group sub" "dl_Attempt d = att" "dl_ID d = e_ID ent" "wrap64 (dl_Attempt d + 1) = att + 1"
    "\<And>next. retry_envelope (s_Topic sub) d next = retry_envelope (s_Topic sub) (dl\<lparr>dl_Message := after_rounds n (dl_Message dl)\<rparr>) next"
proof -
  obtain h where h: "s_Handler sub = Some h" "refuses h" using P by (auto simp: poison_def)
  obtain dl1 where d: "decodeEntry (st_codec st) (s_Topic sub) (s_Group sub) consumer ent = Inr dl1"
      "dl_Attempt dl1 = att" "dl_PublishedAt dl1 = dl_PublishedAt dl"
      "dl_Message (with_max_deliver (effectiveRetry sub (po_retry (st_opts st))) dl1) = after_rounds n (dl_Message dl)"
    using m unfolding same_message_def by blast
  let ?d = "with_max_deliver (effectiveRetry sub (po_retry (st_opts st))) dl1"
  have "dl_Attempt dl1 \<le> m_MaxDeliver (dl_Message ?d)" using a(2) by (simp only: d(2,4) after_rounds_simps)
  from handleEntry_refused [OF d(1) this h, of now w c] he
  have f: "handle_failed st sub ?d now c = (res, c1)"
    by (cases "handle_failed st sub ?d now c") auto
  note ids = decodeEntry_ids [OF d(1)]
  have g: "dl_Group ?d = dl_Group dl" using ids P by (simp add: poison_def)
  show ?thesis
    by (rule that [OF d(1) refl f d(4)])
      (use d(2,3) ids g poison_next [OF P a] d(4) in \<open>simp_all add: retry_envelope_def\<close>)
qed

lemma poison_round:
  assumes P: "poison rd st sub dl" and m: "same_message st sub dl att (after_rounds n (dl_Message dl)) ent"
    and a: "1 \<le> att" "att \<le> m_MaxDeliver (dl_Message dl)"
    and he: "handleEntry st sub consumer ent now (w, c) = (Retried None, (w1, c1))"
    and p: "put_aside st sub consumer ent payload"
    and e: "promoted_fields (st_codec st) payload = Inr (e_Values e)" "e_ID e \<noteq> []"
  shows "att + 1 \<le> m_MaxDeliver (dl_Message dl)"
    and "same_message st sub dl (att + 1) (clean_message (dl_Message dl)) e"
proof -
  let ?dl = "dl\<lparr>dl_Message := after_rounds n (dl_Message dl)\<rparr>" and ?pc = "st_codec st"
  obtain dl1 d where d: "decodeEntry ?pc (s_Topic sub) (s_Group sub) consumer ent = Inr dl1"
    "d = with_max_deliver (effectiveRetry sub (po_retry (st_opts st))) dl1"
    "handle_failed st sub d now c = (Retried None, c1)"
    "dl_Message d = after_rounds n (dl_Message dl)" "dl_Attempt d = att" "wrap64 (dl_Attempt d + 1) = att + 1"
    and env: "\<And>next. retry_envelope (s_Topic sub) d next = retry_envelope (s_Topic sub) ?dl next"
    by (rule poison_handled [OF P m a he]) blast
  show le: "att + 1 \<le> m_MaxDeliver (dl_Message dl)"
    using d(3,4,6) by (auto simp: handle_failed_def Let_def split: if_splits prod.splits)
  have pay: "pc_marshal_envelope ?pc (retry_envelope (s_Topic sub) ?dl (att + 1)) = Inr payload"
    using p d(1,2,5) unfolding put_aside_def env [symmetric] by (simp add: Let_def)
  have cc: "codec_ok ?pc" and sched: "m_ScheduledAt (dl_Message dl) = 0" using P by (simp_all add: poison_def)
  have "0 \<le> att + 1" "0 < att + 1" using a(1) by simp_all
  from retry_decode [OF cc poison_envelope [OF P this(1) le, of n] this(2)] pay e
  have dec: "decodeEntry ?pc (s_Topic sub) (s_Group sub) consumer' e =
      Inr \<lparr>dl_ID = e_ID e, dl_Topic = s_Topic sub, dl_Group = s_Group sub, dl_Consumer = consumer', dl_Attempt = att + 1,
           dl_PublishedAt = dl_PublishedAt dl, dl_Message = (clean_message (dl_Message dl))\<lparr>m_ScheduledAt := 0\<rparr>,
           dl_Raw = e_Values e\<rparr>" for consumer'
    by (cases e) auto
  have "(clean_message (dl_Message dl))\<lparr>m_ScheduledAt := 0\<rparr> = clean_message (dl_Message dl)"
    using sched by (cases "dl_Message dl") (simp add: clean_message_def)
  moreover have "0 < m_MaxDeliver (dl_Message dl)" using le a(1) by simp
  ultimately show "same_message st sub dl (att + 1) (clean_message (dl_Message dl)) e"
    unfolding same_message_def dec by (simp add: with_max_deliver_pos)
qed

subsection \<open>The end of the story\<close>

lemma circulates_same:
  assumes P: "poison rd st sub dl" and first: "same_message st sub dl att (dl_Message dl) ent0"
    and a: "1 \<le> att" "att \<le> m_MaxDeliver (dl_Message dl)"
  shows "circulates rd st sub n x y \<Longrightarrow> fst x = ent0 \<Longrightarrow>
    att + int n \<le> m_MaxDeliver (dl_Message dl)
    \<and> same_message st sub dl (att + int n) (after_rounds n (dl_Message dl)) (fst y)"
proof (induction n x y rule: circulates.induct)
  case (start x)
  with first a(2) show ?case by simp
next
  case (others n x ent s s1)
  then show ?case by simp
next
  case (again n x ent w c consumer now w1 c1 payload c2 limit later res c3 e w2)
  then have m: "same_message st sub dl (att + int n) (after_rounds n (dl_Message dl)) ent"
      "att + int n \<le> m_MaxDeliver (dl_Message dl)" by simp_all
  have "redis_laws rd" "st_rdb st = Some rd" using P by (simp_all add: poison_def)
  from PromoteDueRetries_moved [OF this again.hyps(5)] obtain gone extra where
    "moved rd (st_codec st) (retryKey (st_opts st) (s_Topic sub) (s_Group sub)) (streamKey (st_opts st) (s_Topic sub))
       gone extra (cn_srv c2) (cn_srv c3)" by blast
  then have "e_ID e \<noteq> []" using again.hyps(6) unfolding moved_def by auto
  from poison_round [OF P m(1) _ m(2) again.hyps(2,3,7) this] a(1)
  show ?case by (simp add: add.assoc add.commute [of 1])
qed

text \<open>
  C15: a message that its handler always refuses comes to an end, as long as it is delivered through
  the retries (a claim of a stale entry sets its attempt to the count of the server, which can be
  lower).  However often it is put aside and promoted, among any other retries, by whatever workers
  and whatever fails in between, it is the message it was (bytes that are not UTF-8 are replaced by the
  first round, see \<open>clean_message_id\<close>), with its attempt counted up by one each time, so this happens
  at most as often as its limit allows; the worker that gets it puts it aside again while the
  limit is not reached, and then moves it to the dead letters, as that message and acknowledged, or
  drops it when dead letters are switched off.  The limit is below \<open>10\<^sup>1\<^sup>4\<close> and the instant of publication one
  that JSON can hold (\<open>envelope_ok\<close> in \<open>poison\<close>).
\<close>

theorem poison_message_ends:
  assumes P: "poison rd st sub dl"
    and first: "decodeEntry (st_codec st) (s_Topic sub) (s_Group sub) consumer0 ent0 = Inr dl0"
      "dl = with_max_deliver (effectiveRetry sub (po_retry (st_opts st))) dl0" "dl_Attempt dl \<le> m_MaxDeliver (dl_Message dl)"
    and c: "circulates rd st sub n (ent0, s0) (ent, (w, c))"
    and he: "handleEntry st sub consumer ent now (w, c) = (res, (w1, c1))"
  shows "dl_Attempt dl + int n \<le> m_MaxDeliver (dl_Message dl)
    \<and> (let m = (if n = 0 then dl_Message dl else clean_message (dl_Message dl)) in
       if dl_Attempt dl + int n < m_MaxDeliver (dl_Message dl)
       then \<exists>e. res = Retried e \<and> (e = None \<longrightarrow>
              (\<exists>payload due. pc_marshal_envelope (st_codec st)
                   (retry_envelope (s_Topic sub) (dl\<lparr>dl_Message := m\<rparr>) (dl_Attempt dl + int n + 1)) = Inr payload
                 \<and> rd_zset rd (cn_srv c1) (retryKey (st_opts st) (s_Topic sub) (s_Group sub)) =
                     (rd_zset rd (cn_srv c) (retryKey (st_opts st) (s_Topic sub) (s_Group sub)))(payload \<mapsto> due)
                 \<and> e_ID ent \<notin> rd_pending rd (cn_srv c1) (streamKey (st_opts st) (s_Topic sub)) (s_Group sub)))
       else if dp_Enabled (po_dlq (st_opts st))
       then \<exists>e. res = DeadLettered e \<and> (e = None \<longrightarrow>
              e_ID ent \<notin> rd_pending rd (cn_srv c1) (streamKey (st_opts st) (s_Topic sub)) (s_Group sub)
              \<and> (\<exists>d i. dl_Message d = m \<and> dl_PublishedAt d = dl_PublishedAt dl
                   \<and> dl_Attempt d = m_MaxDeliver (dl_Message dl) \<and> dl_ID d = e_ID ent
                   \<and> rd_entries rd (cn_srv c1) (dlqKey (st_opts st) (s_Topic sub)) =
                       rd_entries rd (cn_srv c) (dlqKey (st_opts st) (s_Topic sub))
                         @ [\<lparr>e_ID = i, e_Values = dlq_values (st_codec st) d ''max delivery exceeded''\<rparr>]))
       else \<exists>e. res = Dropped e)"
proof -
  let ?M = "m_MaxDeliver (dl_Message dl)" and ?a = "dl_Attempt dl + int n" and ?m = "after_rounds n (dl_Message dl)"
    and ?rk = "retryKey (st_opts st) (s_Topic sub) (s_Group sub)"
  have laws: "redis_laws rd" "st_rdb st = Some rd" using P by (simp_all add: poison_def)
  have m_eq: "(if n = 0 then dl_Message dl else clean_message (dl_Message dl)) = ?m" by (simp add: after_rounds_def)
  have fm: "same_message st sub dl (dl_Attempt dl) (dl_Message dl) ent0"
    using decodeEntry_consumer [OF first(1)] first(2)
    by (auto simp: same_message_def with_max_deliver_def)
  have a1: "1 \<le> dl_Attempt dl" using decodeEntry_ids [OF first(1)] first(2) by simp
  from circulates_same [OF P fm a1 first(3) c] have
      m: "?a \<le> ?M" "same_message st sub dl ?a ?m ent" by simp_all
  have "1 \<le> ?a" using a1 by simp
  from poison_handled [OF P m(2) this m(1) he] obtain dl1 d where
    d: "handle_failed st sub d now c = (res, c1)"
      "dl_Message d = ?m" "dl_PublishedAt d = dl_PublishedAt dl"
      "dl_Group d = s_Group sub" "dl_Attempt d = ?a" "dl_ID d = e_ID ent" "wrap64 (dl_Attempt d + 1) = ?a + 1"
    and env: "\<And>next. retry_envelope (s_Topic sub) d next = retry_envelope (s_Topic sub) (dl\<lparr>dl_Message := ?m\<rparr>) next"
    by metis
  consider (retry) "?a < ?M" | (dead) "?a = ?M" "dp_Enabled (po_dlq (st_opts st))" | (dropped) "?a = ?M" "\<not> dp_Enabled (po_dlq (st_opts st))"
    using m(1) by fastforce
  then show ?thesis
  proof cases
    case retry
    with d(1,2,7) obtain e due where r: "res = Retried e" "ScheduleRetry st (s_Topic sub) (Some d) due (?a + 1) c = (e, c1)"
      by (auto simp: handle_failed_def Let_def split: prod.splits)
    from ScheduleRetry_effect [OF laws r(2)] have "e = None \<longrightarrow>
        (\<exists>payload due. pc_marshal_envelope (st_codec st) (retry_envelope (s_Topic sub) (dl\<lparr>dl_Message := ?m\<rparr>) (?a + 1)) = Inr payload
           \<and> rd_zset rd (cn_srv c1) ?rk = (rd_zset rd (cn_srv c) ?rk)(payload \<mapsto> due)
           \<and> e_ID ent \<notin> rd_pending rd (cn_srv c1) (streamKey (st_opts st) (s_Topic sub)) (s_Group sub))"
      unfolding env d(4,6) by (auto simp: retry_effect_def acked_def)
    with r(1) retry show ?thesis unfolding m_eq Let_def by simp
  next
    case dead
    with d(1,2,7) obtain r where r: "res = DeadLettered (left_error r)"
        "MoveToDLQ st (s_Topic sub) (Some d) ''max delivery exceeded'' c = (r, c1)"
      by (auto simp: handle_failed_def Let_def split: prod.splits)
    from MoveToDLQ_effect [OF laws r(2)] have "left_error r = None \<longrightarrow>
        e_ID ent \<notin> rd_pending rd (cn_srv c1) (streamKey (st_opts st) (s_Topic sub)) (s_Group sub)
        \<and> (\<exists>i. rd_entries rd (cn_srv c1) (dlqKey (st_opts st) (s_Topic sub)) =
              rd_entries rd (cn_srv c) (dlqKey (st_opts st) (s_Topic sub))
                @ [\<lparr>e_ID = i, e_Values = dlq_values (st_codec st) d ''max delivery exceeded''\<rparr>])"
      unfolding d(4,6) by (auto simp: dlq_effect_def acked_def)
    with r(1) dead d(2,3,5,6) show ?thesis
      unfolding m_eq Let_def by (auto intro!: exI [of _ d])
  next
    case dropped
    with d(1,2,7) show ?thesis
      unfolding m_eq Let_def by (auto simp: handle_failed_def Let_def split: prod.splits)
  qed
qed

text \<open>The message of the demo server, for the witness.\<close>

definition demo_failed :: "memredis conn" where
  "demo_failed = demo_conn\<lparr>cn_srv := demo_server\<lparr>mr_pending := [],
     mr_zsets := (\<lambda>_. [])(''wego:pubsub:t:retry:g'' := [(demo_payload, UnixMilli (7 + pubsub_retryDelay (effectiveRetry demo_sub (po_retry pubsub_defaultOptions)) 2))])\<rparr>\<rparr>"

lemma demo_keys2: "streamKey pubsub_defaultOptions ''t'' = ''wego:pubsub:t''" "retryKey pubsub_defaultOptions ''t'' ''g'' = ''wego:pubsub:t:retry:g''"
  by code_simp+

lemma demo_refuses: "refuses failing"
  by (simp add: refuses_def leaves_delivery_def failing_def)

lemma demo_first: "with_max_deliver (effectiveRetry demo_sub (po_retry (st_opts demo_store))) demo_delivery = demo_delivery"
  by (simp add: with_max_deliver_def demo_delivery_def)

lemma demo_envelope: "envelope_ok (retry_envelope ''t'' demo_delivery 3)"
  by (simp add: envelope_ok_def retry_envelope_def demo_delivery_def finite_headers_def json_time_def second_def)

lemma demo_poison: "poison mem_redis demo_store demo_sub demo_delivery"
proof -
  have "dl_Group demo_delivery = s_Group demo_sub" "m_ScheduledAt (dl_Message demo_delivery) = 0" "m_MaxDeliver (dl_Message demo_delivery) = 3"
    by (simp_all add: demo_delivery_def demo_sub_def)
  then show ?thesis
    unfolding poison_def using mem_redis_laws demo_store_rdb mem_pc_ok demo_refuses demo_envelope
    by (simp add: demo_projections demo_sub_handler)
qed

lemma demo_handled: "\<exists>w. handleEntry demo_store demo_sub ''c'' demo_entry 7 (0, demo_conn) = (Retried None, (w, demo_failed))"
proof -
  have due: "7 + pubsub_retryDelay (effectiveRetry demo_sub (po_retry pubsub_defaultOptions)) 2 \<noteq> 0"
    by code_simp
  have "wrap64 2 = 2" by code_simp
  moreover have "dl_Attempt demo_delivery = 1" "m_MaxDeliver (dl_Message demo_delivery) = 3" "dl_Group demo_delivery = ''g''" "dl_ID demo_delivery = ''1''"
    by (simp_all add: demo_delivery_def)
  moreover have "pc_marshal_envelope mem_pc (retry_envelope ''t'' demo_delivery 2) = Inr demo_payload"
    by (simp add: demo_payload_def mem_pc_def)
  moreover have "rpc (retryAndAckScript mem_redis ''wego:pubsub:t:retry:g'' ''wego:pubsub:t'' due demo_payload ''g'' ''1'') demo_conn
      = (Inr 1, demo_conn\<lparr>cn_srv := demo_server\<lparr>mr_pending := [], mr_zsets := (\<lambda>_. [])(''wego:pubsub:t:retry:g'' := [(demo_payload, due)])\<rparr>\<rparr>)" for due
    by (simp add: rpc_def retryAndAckScript_def op_then_def mem_redis_def demo_conn_def demo_server_def)
  ultimately have "handle_failed demo_store demo_sub demo_delivery 7 demo_conn = (Retried None, demo_failed)"
    using due by (simp add: handle_failed_def ScheduleRetry_def demo_store_def demo_projections demo_keys2 demo_failed_def Let_def)
  with handleEntry_refused [OF demo_decode _ demo_sub_handler(1) demo_refuses, of 7 0 demo_conn] show ?thesis
    unfolding demo_first by (simp add: demo_delivery_def)
qed

lemma demo_promoted:
  "\<exists>c2 i f. PromoteDueRetries demo_store ''t'' ''g'' 10 (7 + pubsub_retryDelay (effectiveRetry demo_sub (po_retry pubsub_defaultOptions)) 2) demo_failed = (Inr 1, c2)
     \<and> promoted_fields mem_pc demo_payload = Inr f
     \<and> rd_entries mem_redis (cn_srv c2) ''wego:pubsub:t'' = [demo_entry, \<lparr>e_ID = i, e_Values = f\<rparr>]"
proof -
  let ?due = "UnixMilli (7 + pubsub_retryDelay (effectiveRetry demo_sub (po_retry pubsub_defaultOptions)) 2)"
    and ?k = "''wego:pubsub:t:retry:g''" and ?s = "''wego:pubsub:t''"
  obtain f where f: "promoted_fields mem_pc demo_payload = Inr f"
    using retry_decode [OF mem_pc_ok demo_promotable] by (auto simp: demo_payload_def)
  then have one: "promote_one mem_redis mem_pc ?k ?s demo_payload = op_then (rd_xadd mem_redis ?s f None) (\<lambda>_. rd_zrem mem_redis ?k demo_payload)"
    by (simp add: promote_one_def)
  have rng: "rd_zrangebyscore mem_redis ?k ?due 10 (cn_srv demo_failed) = (Inr [demo_payload], cn_srv demo_failed)"
    by (simp add: mem_redis_def demo_failed_def demo_conn_def mr_range_def)
  have st: "rd_entries mem_redis (cn_srv demo_failed) ?s = [demo_entry]" "cn_links demo_failed = []"
    by (simp_all add: mem_redis_def demo_failed_def demo_conn_def demo_server_def)
  obtain i d1 where x: "rd_xadd mem_redis ?s f None (cn_srv demo_failed) = (Inr i, d1)"
      "rd_entries mem_redis d1 ?s = [demo_entry, \<lparr>e_ID = i, e_Values = f\<rparr>]"
    using st(1) by (auto simp: mem_redis_def Let_def)
  obtain d2 where z: "rd_zrem mem_redis ?k demo_payload d1 = (Inr 1, d2)" by (simp add: mem_redis_def)
  with rd_zrem_ok(1) [OF mem_redis_laws z] x(2) have "rd_entries mem_redis d2 ?s = [demo_entry, \<lparr>e_ID = i, e_Values = f\<rparr>]" by simp
  moreover have "retryPromoteScript mem_redis mem_pc ?k ?s ?due 10 (cn_srv demo_failed) = (Inr 1, d2)"
    by (simp add: retryPromoteScript_def op_then_def op_return_def rng one x(1) z)
  then have "PromoteDueRetries demo_store ''t'' ''g'' 10 (7 + pubsub_retryDelay (effectiveRetry demo_sub (po_retry pubsub_defaultOptions)) 2) demo_failed
      = (Inr 1, demo_failed\<lparr>cn_srv := d2\<rparr>)"
    using st(2) by (simp add: PromoteDueRetries_def demo_store_def demo_keys2 rpc_def)
  ultimately show ?thesis using f by (intro exI [of _ "demo_failed\<lparr>cn_srv := d2\<rparr>"]) simp
qed

lemma demo_put_aside: "put_aside demo_store demo_sub ''c'' demo_entry demo_payload"
  unfolding put_aside_def demo_decode
  by (simp add: demo_first Let_def demo_projections demo_payload_def)
    (simp add: demo_delivery_def mem_pc_def)

text \<open>One round of the demo message, and a second attempt that is put aside again.\<close>

lemma poison_message_ends_witness:
  "\<exists>w c ent. circulates mem_redis demo_store demo_sub 1 (demo_entry, (0, demo_conn)) (ent, (w, c))
     \<and> (\<exists>e. fst (handleEntry demo_store demo_sub ''d'' ent 9 (w, c)) = Retried e)"
proof -
  obtain w where h: "handleEntry demo_store demo_sub ''c'' demo_entry 7 (0, demo_conn) = (Retried None, (w, demo_failed))"
    using demo_handled by blast
  obtain c2 i f where p: "PromoteDueRetries demo_store ''t'' ''g'' 10 (7 + pubsub_retryDelay (effectiveRetry demo_sub (po_retry pubsub_defaultOptions)) 2) demo_failed = (Inr 1, c2)"
      "promoted_fields mem_pc demo_payload = Inr f"
      "rd_entries mem_redis (cn_srv c2) ''wego:pubsub:t'' = [demo_entry, \<lparr>e_ID = i, e_Values = f\<rparr>]"
    using demo_promoted by blast
  have st: "rd_entries mem_redis (cn_srv demo_failed) ''wego:pubsub:t'' = [demo_entry]"
      "rd_zset mem_redis (cn_srv demo_failed) ''wego:pubsub:t:retry:g'' demo_payload \<noteq> None"
    by (simp_all add: mem_redis_def demo_failed_def demo_conn_def demo_server_def)
  have o: "st_opts demo_store = pubsub_defaultOptions" by (simp add: demo_store_def)
  have c: "circulates mem_redis demo_store demo_sub 1 (demo_entry, (0, demo_conn)) (\<lparr>e_ID = i, e_Values = f\<rparr>, (w, c2))"
    using circulates.again [OF circulates.start h demo_put_aside, of mem_redis demo_failed "10" _ "Inr 1" c2 "\<lparr>e_ID = i, e_Values = f\<rparr>" w] p st
    by (simp add: demo_projections o demo_keys2)
  obtain res w1 c1 where he: "handleEntry demo_store demo_sub ''d'' \<lparr>e_ID = i, e_Values = f\<rparr> 9 (w, c2) = (res, (w1, c1))"
    by (metis prod.exhaust)
  have "dl_Attempt demo_delivery = 1" "m_MaxDeliver (dl_Message demo_delivery) = 3" by (simp_all add: demo_delivery_def)
  then have "\<exists>e. res = Retried e"
    using poison_message_ends [OF demo_poison demo_decode demo_first [symmetric] _ c he] by (auto simp: Let_def)
  with c he show ?thesis by (metis fst_conv)
qed

end
