(* ===== verification/PubsubSystem.thy ===== *)
theory PubsubSystem
  imports PubsubStart
begin

text \<open>
  A topic and a group as a system: publishers, any number of workers that read, claim and handle
  entries, the promoter of due retries, workers that die, other groups and programs on the same
  server, in every interleaving, with a link that can fail before or after each request.  The
  invariant accounts for every published message.
\<close>

subsection \<open>Messages and where they can be\<close>

text \<open>A message without its limit of deliveries, and the instant it was published.\<close>

type_synonym body = "message \<times> go_time"

definition body_of :: "delivery \<Rightarrow> body" where
  "body_of dl = ((dl_Message dl)\<lparr>m_MaxDeliver := 0, m_ScheduledAt := 0\<rparr>, dl_PublishedAt dl)"

text \<open>A message of a Go program has finitely many headers; the clock shows an instant RFC 3339 can write.\<close>

definition sendable :: "body \<Rightarrow> bool" where
  "sendable b \<longleftrightarrow> finite_headers (m_Headers (fst b)) \<and> json_time (snd b)"

text \<open>
  What a message is delivered as.  Its headers are stored as JSON, and all of it is when it is
  retried: bytes that are not UTF-8 are replaced on the way, and nothing else.
\<close>

definition became :: "body \<Rightarrow> body \<Rightarrow> bool" where
  "became b b' \<longleftrightarrow>
     b' = ((fst b)\<lparr>m_Headers := clean_headers (m_Headers (fst b))\<rparr>, snd b) \<or> b' = (clean_message (fst b), snd b)"

lemma became_valid: "utf8_message (fst b) \<Longrightarrow> became b b' \<longleftrightarrow> b' = b"
  by (cases b) (auto simp: became_def clean_message_id clean_headers_id utf8_message_def)

lemma became_clean: "became b (m, t) \<Longrightarrow> became b (clean_message m, t)"
  by (auto simp: became_def clean_message_def)

lemma became_finite: "became b b' \<Longrightarrow> finite_headers (m_Headers (fst b')) \<and> snd b' = snd b"
  by (auto simp: became_def)

text \<open>Entries that decode to the message, dead letters of it, and retries of it.\<close>

definition carries :: "'r store \<Rightarrow> 'h subscription \<Rightarrow> entry \<Rightarrow> body \<Rightarrow> bool" where
  "carries st sub ent b \<longleftrightarrow>
     sendable b
     \<and> (\<forall>consumer. \<exists>dl. decodeEntry (st_codec st) (s_Topic sub) (s_Group sub) consumer ent = Inr dl
          \<and> became b (body_of dl) \<and> m_MaxDeliver (dl_Message dl) < 10 ^ 14)"

definition dead :: "'r store \<Rightarrow> entry \<Rightarrow> body \<Rightarrow> bool" where
  "dead st ent b \<longleftrightarrow> (\<exists>dl reason. became b (body_of dl) \<and> e_Values ent = dlq_values (st_codec st) dl reason)"

definition waits :: "'r store \<Rightarrow> 'h subscription \<Rightarrow> string \<Rightarrow> body \<Rightarrow> bool" where
  "waits st sub payload b \<longleftrightarrow>
     sendable b
     \<and> (\<exists>dl next. pc_marshal_envelope (st_codec st) (retry_envelope (s_Topic sub) dl next) = Inr payload
          \<and> envelope_ok (retry_envelope (s_Topic sub) dl next) \<and> 0 < next \<and> became b (body_of dl))"

subsection \<open>The system\<close>

text \<open>
  \<open>sy_hand\<close> has the entries workers have got and not handled yet.  The other fields record what
  happened: the ids that were ever in the stream (\<open>sy_ids\<close>) and those that were ever delivered to the
  group (\<open>sy_seen\<close>), the messages published, handled with success and dropped, the entries trimmed from
  the stream, and the greatest length it had.
\<close>

record ('r, 'w) psys =
  sy_conn :: "'r conn"
  sy_world :: 'w
  sy_hand :: "entry list"
  sy_ids :: "string set"
  sy_seen :: "string set"
  sy_pub :: "body list"
  sy_ok :: "body list"
  sy_dropped :: "body list"
  sy_cut :: "entry list"
  sy_high :: nat

abbreviation sub_key :: "'r store \<Rightarrow> 'h subscription \<Rightarrow> string" where
  "sub_key st sub \<equiv> streamKey (st_opts st) (s_Topic sub)"

abbreviation sub_retry :: "'r store \<Rightarrow> 'h subscription \<Rightarrow> string" where
  "sub_retry st sub \<equiv> retryKey (st_opts st) (s_Topic sub) (s_Group sub)"

abbreviation sub_dlq :: "'r store \<Rightarrow> 'h subscription \<Rightarrow> string" where
  "sub_dlq st sub \<equiv> dlqKey (st_opts st) (s_Topic sub)"

text \<open>The server and the link after a step, with what is recorded of every step.\<close>

definition advance :: "'r redis \<Rightarrow> 'r store \<Rightarrow> 'h subscription \<Rightarrow> 'r conn \<Rightarrow> ('r, 'w) psys \<Rightarrow> ('r, 'w) psys" where
  "advance rd st sub c s =
     (let new = rd_entries rd (cn_srv c) (sub_key st sub); old = rd_entries rd (cn_srv (sy_conn s)) (sub_key st sub)
      in s\<lparr>sy_conn := c, sy_ids := sy_ids s \<union> e_ID ` set new,
           sy_seen := sy_seen s \<union> rd_pending rd (cn_srv c) (sub_key st sub) (s_Group sub),
           sy_cut := sy_cut s @ filter (\<lambda>e. e \<notin> set new) old, sy_high := max (sy_high s) (length new)\<rparr>)"

text \<open>Redis numbers the entries of a stream upwards: no id is given twice, even after trimming.\<close>

definition ids_fresh :: "'r redis \<Rightarrow> 'r store \<Rightarrow> 'h subscription \<Rightarrow> ('r, 'w) psys \<Rightarrow> 'r conn \<Rightarrow> bool" where
  "ids_fresh rd st sub s c \<longleftrightarrow>
     distinct (map e_ID (rd_entries rd (cn_srv c) (sub_key st sub)))
     \<and> (\<forall>e\<in>set (rd_entries rd (cn_srv c) (sub_key st sub)).
          e \<in> set (rd_entries rd (cn_srv (sy_conn s)) (sub_key st sub)) \<or> e_ID e \<notin> sy_ids s)"

text \<open>
  What others may do: append to the stream and to the dead letters, and trim the stream to no less
  than its limit.  They leave the group's pending entries and its retries alone.
\<close>

definition others_ok :: "'r redis \<Rightarrow> 'r store \<Rightarrow> 'h subscription \<Rightarrow> 'r \<Rightarrow> 'r \<Rightarrow> bool" where
  "others_ok rd st sub d d' \<longleftrightarrow>
     (\<exists>k new. rd_entries rd d' (sub_key st sub) = drop k (rd_entries rd d (sub_key st sub)) @ new
        \<and> (k = 0 \<or> sp_MaxLen (po_stream (st_opts st)) \<le> int (length (rd_entries rd d' (sub_key st sub)))))
     \<and> (\<exists>new. rd_entries rd d' (sub_dlq st sub) = rd_entries rd d (sub_dlq st sub) @ new)
     \<and> rd_pending rd d' (sub_key st sub) (s_Group sub) = rd_pending rd d (sub_key st sub) (s_Group sub)
     \<and> rd_zset rd d' (sub_retry st sub) = rd_zset rd d (sub_retry st sub)"

definition bodies :: "'r store \<Rightarrow> 'h subscription \<Rightarrow> string \<Rightarrow> entry \<Rightarrow> body list" where
  "bodies st sub consumer ent =
     (case decodeEntry (st_codec st) (s_Topic sub) (s_Group sub) consumer ent of Inl _ \<Rightarrow> [] | Inr dl \<Rightarrow> [body_of dl])"

definition published_body :: "((string \<rightharpoonup> string) \<Rightarrow> (string \<rightharpoonup> string)) \<Rightarrow> message \<Rightarrow> go_time \<Rightarrow> body" where
  "published_body inject msg now =
     (msg\<lparr>m_Headers := map_option inject (cloneHeaders (m_Headers msg)), m_MaxDeliver := 0, m_ScheduledAt := 0\<rparr>, now)"

datatype psys_event = SyPublish | SyRead | SyClaim | SyHandle handled | SyPromote | SyCrash | SyOthers

inductive psys_step ::
  "'r redis \<Rightarrow> ((string \<rightharpoonup> string) \<Rightarrow> (string \<rightharpoonup> string)) \<Rightarrow> ('r, 'w) pubsub_service \<Rightarrow> 'w handle subscription
     \<Rightarrow> ('r, 'w) psys \<Rightarrow> psys_event \<Rightarrow> ('r, 'w) psys \<Rightarrow> bool"
  for rd inject svc sub where
  publish: "pubsub_Publish inject svc (s_Topic sub) msg now (sy_conn s) = (res, c) \<Longrightarrow>
     sendable (published_body inject msg now) \<Longrightarrow> m_MaxDeliver msg < 10 ^ 14 \<Longrightarrow>
     ids_fresh rd (ps_store svc) sub s c \<Longrightarrow>
     psys_step rd inject svc sub s SyPublish
       ((advance rd (ps_store svc) sub c s)
          \<lparr>sy_pub := (case res of Inr _ \<Rightarrow> [published_body inject msg now] | Inl _ \<Rightarrow> []) @ sy_pub s\<rparr>)"
| read: "ReadGroup (ps_store svc) sub consumer (sy_conn s) = (res, c) \<Longrightarrow>
     psys_step rd inject svc sub s SyRead
       ((advance rd (ps_store svc) sub c s)\<lparr>sy_hand := (case res of Inr es \<Rightarrow> es | Inl _ \<Rightarrow> []) @ sy_hand s\<rparr>)"
| claim: "AutoClaim (ps_store svc) sub consumer start cnt (sy_conn s) = ((es, nx, err), c) \<Longrightarrow>
     psys_step rd inject svc sub s SyClaim ((advance rd (ps_store svc) sub c s)\<lparr>sy_hand := es @ sy_hand s\<rparr>)"
| handle: "ent \<in> set (sy_hand s) \<Longrightarrow>
     handleEntry (ps_store svc) sub consumer ent now (sy_world s, sy_conn s) = (res, (w, c)) \<Longrightarrow>
     psys_step rd inject svc sub s (SyHandle res)
       ((advance rd (ps_store svc) sub c s)
          \<lparr>sy_world := w, sy_hand := remove1 ent (sy_hand s),
           sy_ok := (case res of Acked _ \<Rightarrow> bodies (ps_store svc) sub consumer ent | _ \<Rightarrow> []) @ sy_ok s,
           sy_dropped := (case res of Dropped _ \<Rightarrow> bodies (ps_store svc) sub consumer ent | _ \<Rightarrow> []) @ sy_dropped s\<rparr>)"
| promote: "PromoteDueRetries (ps_store svc) (s_Topic sub) (s_Group sub) limit now (sy_conn s) = (res, c) \<Longrightarrow>
     ids_fresh rd (ps_store svc) sub s c \<Longrightarrow>
     psys_step rd inject svc sub s SyPromote (advance rd (ps_store svc) sub c s)"
| crash: "set hand \<subseteq> set (sy_hand s) \<Longrightarrow> psys_step rd inject svc sub s SyCrash (s\<lparr>sy_hand := hand\<rparr>)"
| others: "others_ok rd (ps_store svc) sub (cn_srv (sy_conn s)) (cn_srv c) \<Longrightarrow> ids_fresh rd (ps_store svc) sub s c \<Longrightarrow>
     psys_step rd inject svc sub s SyOthers ((advance rd (ps_store svc) sub c s)\<lparr>sy_world := w\<rparr>)"

definition psys_init :: "'r redis \<Rightarrow> 'r store \<Rightarrow> 'h subscription \<Rightarrow> ('r, 'w) psys \<Rightarrow> bool" where
  "psys_init rd st sub s \<longleftrightarrow>
     (let es = rd_entries rd (cn_srv (sy_conn s)) (sub_key st sub)
      in distinct (map e_ID es) \<and> sy_ids s = e_ID ` set es \<and> sy_high s = length es)
     \<and> rd_pending rd (cn_srv (sy_conn s)) (sub_key st sub) (s_Group sub) = {}
     \<and> sy_hand s = [] \<and> sy_seen s = {} \<and> sy_pub s = [] \<and> sy_ok s = [] \<and> sy_dropped s = [] \<and> sy_cut s = []"

text \<open>The service and the subscription the system runs with.\<close>

definition psys_ok :: "'r redis \<Rightarrow> ('r, 'w) pubsub_service \<Rightarrow> 'w handle subscription \<Rightarrow> bool" where
  "psys_ok rd svc sub \<longleftrightarrow>
     redis_laws rd \<and> st_rdb (ps_store svc) = Some rd \<and> codec_ok (st_codec (ps_store svc))
     \<and> pubsub_options_ok (st_opts (ps_store svc)) \<and> rp_MaxDeliver (po_retry (st_opts (ps_store svc))) < 10 ^ 14
     \<and> rp_MaxDeliver (effectiveRetry sub (po_retry (st_opts (ps_store svc)))) < 10 ^ 14
     \<and> (\<exists>h. s_Handler sub = Some h \<and> leaves_delivery h)"

subsection \<open>The invariant\<close>

text \<open>What has become of a published message.\<close>

definition accounted :: "'r redis \<Rightarrow> 'r store \<Rightarrow> 'h subscription \<Rightarrow> ('r, 'w) psys \<Rightarrow> body \<Rightarrow> bool" where
  "accounted rd st sub s b \<longleftrightarrow>
     (let d = cn_srv (sy_conn s) in
      (\<exists>b'\<in>set (sy_ok s). became b b') \<or> (\<exists>b'\<in>set (sy_dropped s). became b b')
      \<or> (\<exists>e\<in>set (rd_entries rd d (sub_key st sub)). carries st sub e b
           \<and> (e_ID e \<notin> sy_seen s \<or> e_ID e \<in> rd_pending rd d (sub_key st sub) (s_Group sub)))
      \<or> (\<exists>payload due. rd_zset rd d (sub_retry st sub) payload = Some due \<and> waits st sub payload b)
      \<or> (\<exists>e\<in>set (rd_entries rd d (sub_dlq st sub)). dead st e b)
      \<or> (\<exists>e\<in>set (sy_cut s). carries st sub e b))"

definition psys_struct :: "'r redis \<Rightarrow> 'r store \<Rightarrow> 'h subscription \<Rightarrow> ('r, 'w) psys \<Rightarrow> bool" where
  "psys_struct rd st sub s \<longleftrightarrow>
     (let d = cn_srv (sy_conn s); es = rd_entries rd d (sub_key st sub) in
      distinct (map e_ID es) \<and> e_ID ` set es \<subseteq> sy_ids s \<and> sy_seen s \<subseteq> sy_ids s
      \<and> rd_pending rd d (sub_key st sub) (s_Group sub) \<subseteq> sy_seen s
      \<and> (\<forall>h\<in>set (sy_hand s). e_ID h \<in> sy_seen s \<and> (\<forall>m\<in>set es. e_ID m = e_ID h \<longrightarrow> claimed_of m h))
      \<and> (sy_cut s \<noteq> [] \<longrightarrow> sp_MaxLen (po_stream (st_opts st)) \<le> int (sy_high s)))"

definition psys_inv :: "'r redis \<Rightarrow> 'r store \<Rightarrow> 'h subscription \<Rightarrow> ('r, 'w) psys \<Rightarrow> bool" where
  "psys_inv rd st sub s \<longleftrightarrow> psys_struct rd st sub s \<and> (\<forall>b\<in>set (sy_pub s). accounted rd st sub s b)"

lemma advance_simps [simp]:
  "sy_conn (advance rd st sub c s) = c" "sy_world (advance rd st sub c s) = sy_world s"
  "sy_hand (advance rd st sub c s) = sy_hand s" "sy_pub (advance rd st sub c s) = sy_pub s"
  "sy_ok (advance rd st sub c s) = sy_ok s" "sy_dropped (advance rd st sub c s) = sy_dropped s"
  "sy_ids (advance rd st sub c s) = sy_ids s \<union> e_ID ` set (rd_entries rd (cn_srv c) (sub_key st sub))"
  "sy_seen (advance rd st sub c s) = sy_seen s \<union> rd_pending rd (cn_srv c) (sub_key st sub) (s_Group sub)"
  "sy_cut (advance rd st sub c s) = sy_cut s @ filter (\<lambda>e. e \<notin> set (rd_entries rd (cn_srv c) (sub_key st sub)))
     (rd_entries rd (cn_srv (sy_conn s)) (sub_key st sub))"
  "sy_high (advance rd st sub c s) = max (sy_high s) (length (rd_entries rd (cn_srv c) (sub_key st sub)))"
  by (simp_all add: advance_def Let_def)

text \<open>The stream grows at one end and is trimmed, to no less than its limit, at the other.\<close>

definition grows :: "'r redis \<Rightarrow> 'r store \<Rightarrow> 'h subscription \<Rightarrow> 'r \<Rightarrow> 'r \<Rightarrow> bool" where
  "grows rd st sub d d' \<longleftrightarrow>
     (\<exists>k new. rd_entries rd d' (sub_key st sub) = drop k (rd_entries rd d (sub_key st sub)) @ new
        \<and> (k = 0 \<or> sp_MaxLen (po_stream (st_opts st)) \<le> int (length (rd_entries rd d' (sub_key st sub)))))"

lemma grows_append: "rd_entries rd d' (sub_key st sub) = rd_entries rd d (sub_key st sub) @ new \<Longrightarrow> grows rd st sub d d'"
  unfolding grows_def by (intro exI [of _ 0] exI [of _ new]) simp

lemma psys_struct_advance:
  assumes s: "psys_struct rd st sub s" and f: "ids_fresh rd st sub s c"
    and g: "grows rd st sub (cn_srv (sy_conn s)) (cn_srv c)"
    and p: "rd_pending rd (cn_srv c) (sub_key st sub) (s_Group sub)
      \<subseteq> sy_seen s \<union> e_ID ` set (rd_entries rd (cn_srv c) (sub_key st sub))"
  shows "psys_struct rd st sub (advance rd st sub c s)"
proof -
  let ?es = "rd_entries rd (cn_srv (sy_conn s)) (sub_key st sub)" and ?es' = "rd_entries rd (cn_srv c) (sub_key st sub)"
  have old: "m \<in> set ?es" if "m \<in> set ?es'" "e_ID m \<in> sy_ids s" for m
    using f that unfolding ids_fresh_def by blast
  have hand: "e_ID h \<in> sy_seen s" "\<forall>m\<in>set ?es. e_ID m = e_ID h \<longrightarrow> claimed_of m h" "e_ID h \<in> sy_ids s" if "h \<in> set (sy_hand s)" for h
    using s that unfolding psys_struct_def Let_def by blast+
  have "?es' = ?es @ new" if "?es' = drop k ?es @ new" "k = 0" for k new using that by simp
  then have cut: "filter (\<lambda>e. e \<notin> set ?es') ?es \<noteq> [] \<Longrightarrow> sp_MaxLen (po_stream (st_opts st)) \<le> int (length ?es')"
    using g unfolding grows_def by (auto simp: filter_empty_conv)
  have "distinct (map e_ID ?es')" using f by (simp add: ids_fresh_def)
  moreover have "sy_seen s \<union> rd_pending rd (cn_srv c) (sub_key st sub) (s_Group sub) \<subseteq> sy_ids s \<union> e_ID ` set ?es'"
    using s p unfolding psys_struct_def Let_def by blast
  moreover have "\<forall>h\<in>set (sy_hand s). e_ID h \<in> sy_seen s \<union> rd_pending rd (cn_srv c) (sub_key st sub) (s_Group sub)
      \<and> (\<forall>m\<in>set ?es'. e_ID m = e_ID h \<longrightarrow> claimed_of m h)"
    using hand old by auto
  moreover have "sy_cut s @ filter (\<lambda>e. e \<notin> set ?es') ?es \<noteq> []
      \<longrightarrow> sp_MaxLen (po_stream (st_opts st)) \<le> int (max (sy_high s) (length ?es'))"
    using s cut unfolding psys_struct_def Let_def by (auto simp: max_def)
  ultimately show ?thesis unfolding psys_struct_def Let_def advance_simps by blast
qed

text \<open>Changes that \<open>psys_struct\<close> does not see.\<close>

lemma psys_struct_frame:
  "psys_struct rd st sub s \<Longrightarrow> sy_conn t = sy_conn s \<Longrightarrow> sy_ids t = sy_ids s \<Longrightarrow> sy_seen t = sy_seen s
   \<Longrightarrow> sy_cut t = sy_cut s \<Longrightarrow> sy_high t = sy_high s
   \<Longrightarrow> \<forall>h\<in>set (sy_hand t). h \<in> set (sy_hand s) \<or> e_ID h \<in> sy_seen s
         \<and> (\<forall>m\<in>set (rd_entries rd (cn_srv (sy_conn s)) (sub_key st sub)). e_ID m = e_ID h \<longrightarrow> claimed_of m h)
   \<Longrightarrow> psys_struct rd st sub t"
  unfolding psys_struct_def Let_def by auto

lemma ids_fresh_same:
  assumes "psys_struct rd st sub s"
    and "rd_entries rd (cn_srv c) (sub_key st sub) = rd_entries rd (cn_srv (sy_conn s)) (sub_key st sub)"
  shows "ids_fresh rd st sub s c"
  using assms unfolding psys_struct_def ids_fresh_def Let_def by simp

lemma accountedI:
  "b' \<in> set (sy_ok s) \<Longrightarrow> became b b' \<Longrightarrow> accounted rd st sub s b"
  "b' \<in> set (sy_dropped s) \<Longrightarrow> became b b' \<Longrightarrow> accounted rd st sub s b"
  "rd_zset rd (cn_srv (sy_conn s)) (sub_retry st sub) payload = Some due \<Longrightarrow> waits st sub payload b \<Longrightarrow> accounted rd st sub s b"
  "e \<in> set (rd_entries rd (cn_srv (sy_conn s)) (sub_dlq st sub)) \<Longrightarrow> dead st e b \<Longrightarrow> accounted rd st sub s b"
  unfolding accounted_def Let_def by blast+

text \<open>What is accounted for stays so, if its entry, when acknowledged, and its retry, when taken, are.\<close>

lemma accounted_step:
  assumes a: "accounted rd st sub s b"
    and t: "sy_conn t = c" "sy_seen t = sy_seen s \<union> rd_pending rd (cn_srv c) (sub_key st sub) (s_Group sub)"
      "set (sy_ok s) \<subseteq> set (sy_ok t)" "set (sy_dropped s) \<subseteq> set (sy_dropped t)"
      "sy_cut t = sy_cut (advance rd st sub c s)"
    and dlq: "set (rd_entries rd (cn_srv (sy_conn s)) (sub_dlq st sub)) \<subseteq> set (rd_entries rd (cn_srv c) (sub_dlq st sub))"
    and acked: "\<And>e. e \<in> set (rd_entries rd (cn_srv (sy_conn s)) (sub_key st sub)) \<Longrightarrow> carries st sub e b \<Longrightarrow>
      e_ID e \<in> rd_pending rd (cn_srv (sy_conn s)) (sub_key st sub) (s_Group sub) \<Longrightarrow>
      e_ID e \<notin> rd_pending rd (cn_srv c) (sub_key st sub) (s_Group sub) \<Longrightarrow> accounted rd st sub t b"
    and taken: "\<And>p due. rd_zset rd (cn_srv (sy_conn s)) (sub_retry st sub) p = Some due \<Longrightarrow> waits st sub p b \<Longrightarrow>
      accounted rd st sub t b"
  shows "accounted rd st sub t b"
proof -
  let ?d = "cn_srv (sy_conn s)" and ?d' = "cn_srv c"
  consider (finished) b' where "b' \<in> set (sy_ok s) \<union> set (sy_dropped s)" "became b b'"
    | (entry) e where "e \<in> set (rd_entries rd ?d (sub_key st sub))" "carries st sub e b"
        "e_ID e \<notin> sy_seen s \<or> e_ID e \<in> rd_pending rd ?d (sub_key st sub) (s_Group sub)"
    | (retry) p due where "rd_zset rd ?d (sub_retry st sub) p = Some due" "waits st sub p b"
    | (dlq) e where "e \<in> set (rd_entries rd ?d (sub_dlq st sub))" "dead st e b"
    | (cut) e where "e \<in> set (sy_cut s)" "carries st sub e b"
    using a unfolding accounted_def Let_def by blast
  then show ?thesis
  proof cases
    case finished
    with t(3,4) show ?thesis unfolding accounted_def Let_def by blast
  next
    case entry
    consider (gone) "e \<notin> set (rd_entries rd ?d' (sub_key st sub))"
      | (acked) "e_ID e \<in> rd_pending rd ?d (sub_key st sub) (s_Group sub)" "e_ID e \<notin> rd_pending rd ?d' (sub_key st sub) (s_Group sub)"
      | (stays) "e \<in> set (rd_entries rd ?d' (sub_key st sub))"
          "e_ID e \<notin> sy_seen t \<or> e_ID e \<in> rd_pending rd ?d' (sub_key st sub) (s_Group sub)"
      using entry(3) t(2) by blast
    then show ?thesis
    proof cases
      case gone
      with entry(1) t(5) have "e \<in> set (sy_cut t)" by simp
      with entry(2) show ?thesis unfolding accounted_def Let_def by blast
    next
      case acked
      show ?thesis by (rule assms(8) [OF entry(1,2) acked])
    next
      case stays
      with entry(2) show ?thesis unfolding accounted_def Let_def t(1) by blast
    qed
  next
    case retry
    then show ?thesis by (rule taken)
  next
    case dlq
    with assms(7) show ?thesis unfolding accounted_def Let_def t(1) by blast
  next
    case cut
    with t(5) have "e \<in> set (sy_cut t)" by simp
    with cut(2) show ?thesis unfolding accounted_def Let_def by blast
  qed
qed

subsection \<open>Publishing\<close>

lemma in_int64_small: "0 \<le> n \<Longrightarrow> n < 10 ^ 14 \<Longrightarrow> in_int64 n"
  by (simp add: in_int64_def min_int64_def max_int64_def)

lemma psys_okD:
  assumes "psys_ok rd svc sub"
  shows "redis_laws rd" "st_rdb (ps_store svc) = Some rd" "codec_ok (st_codec (ps_store svc))"
    "sub_key (ps_store svc) sub \<noteq> sub_dlq (ps_store svc) sub" "0 < sp_MaxLen (po_stream (st_opts (ps_store svc)))"
    "0 < rp_MaxDeliver (po_retry (st_opts (ps_store svc)))" "rp_MaxDeliver (po_retry (st_opts (ps_store svc))) < 10 ^ 14"
  using assms by (auto simp: psys_ok_def pubsub_options_ok_def retry_policy_ok_def dlqKey_def)

text \<open>The fields the store writes carry the message that was published.\<close>

lemma published_carries:
  assumes ok: "psys_ok rd svc sub" and b: "sendable (published_body inject msg now)" and mx: "m_MaxDeliver msg < 10 ^ 14"
    and f: "messageFieldsWithAttempt (st_codec (ps_store svc)) (msg\<lparr>m_Headers := map_option inject (cloneHeaders (m_Headers msg))\<rparr>)
      now (rp_MaxDeliver (po_retry (st_opts (ps_store svc)))) 1 = Inr f" and i: "i \<noteq> []"
  shows "carries (ps_store svc) sub \<lparr>e_ID = i, e_Values = f\<rparr> (published_body inject msg now)"
proof -
  let ?m = "msg\<lparr>m_Headers := map_option inject (cloneHeaders (m_Headers msg))\<rparr>" and ?mx = "rp_MaxDeliver (po_retry (st_opts (ps_store svc)))"
  note k = psys_okD [OF ok]
  from f have v: "message_Validate ?m = None" by (auto simp: messageFieldsWithAttempt_def split: option.splits)
  have u: "finite_headers (m_Headers ?m)" "json_time now" using b by (simp_all add: sendable_def published_body_def)
  have n: "0 \<le> m_MaxDeliver msg" "m_ScheduledAt msg = 0" using v by (simp_all add: message_Validate_ok)
  have i64: "in_int64 (m_MaxDeliver ?m)" "in_int64 ?mx" "in_int64 1"
    using in_int64_small [of "m_MaxDeliver msg"] in_int64_small [of ?mx] in_int64_small [of 1] n(1) mx k(6,7) by simp_all
  have "decodeEntry (st_codec (ps_store svc)) (s_Topic sub) (s_Group sub) consumer \<lparr>e_ID = i, e_Values = f\<rparr> =
      Inr \<lparr>dl_ID = i, dl_Topic = s_Topic sub, dl_Group = s_Group sub, dl_Consumer = consumer, dl_Attempt = 1, dl_PublishedAt = now,
           dl_Message = ?m\<lparr>m_Headers := clean_headers (m_Headers ?m),
             m_MaxDeliver := if m_MaxDeliver ?m = 0 then ?mx else m_MaxDeliver ?m\<rparr>, dl_Raw = f\<rparr>" for consumer
    using k(6) by (intro messageFields_decode [OF k(3) v u(1) i64(1) u(2) _ i64(2) _ i64(3) f i]) simp_all
  with b n(2) mx k(7) show ?thesis
    unfolding carries_def by (simp add: body_of_def published_body_def became_def)
qed

lemma publish_effect:
  assumes ok: "psys_ok rd svc sub" and p: "pubsub_Publish inject svc (s_Topic sub) msg now c0 = (res, c)"
    and b: "sendable (published_body inject msg now)" "m_MaxDeliver msg < 10 ^ 14"
  defines "key \<equiv> sub_key (ps_store svc) sub"
  shows "(same_data rd (cn_srv c0) (cn_srv c) \<and> (\<exists>e. res = Inl e))
    \<or> (\<exists>k e. rd_entries rd (cn_srv c) = (rd_entries rd (cn_srv c0))(key := drop k (rd_entries rd (cn_srv c0) key) @ [e])
        \<and> e_ID e \<notin> e_ID ` set (rd_entries rd (cn_srv c0) key)
        \<and> (k = 0 \<or> sp_MaxLen (po_stream (st_opts (ps_store svc))) \<le> int (length (rd_entries rd (cn_srv c) key)))
        \<and> rd_pending rd (cn_srv c) = rd_pending rd (cn_srv c0) \<and> rd_zset rd (cn_srv c) = rd_zset rd (cn_srv c0)
        \<and> carries (ps_store svc) sub e (published_body inject msg now))"
proof -
  let ?o = "st_opts (ps_store svc)" and ?m = "msg\<lparr>m_Headers := map_option inject (cloneHeaders (m_Headers msg))\<rparr>"
  note k = psys_okD [OF ok]
  have "(res, c) = (case messageFieldsWithAttempt (st_codec (ps_store svc)) ?m now (rp_MaxDeliver (po_retry ?o)) 1 of
      Inl e \<Rightarrow> (Inl e, c0) | Inr f \<Rightarrow> rpc (rd_xadd rd key f (Some (sp_MaxLen (po_stream ?o), sp_ApproxMaxLen (po_stream ?o)))) c0)
      \<or> (\<exists>e. (res, c) = (Inl e, c0))"
  proof (cases "messageFieldsWithAttempt (st_codec (ps_store svc)) ?m now (rp_MaxDeliver (po_retry ?o)) 1")
    case (Inl e)
    with p k(2,5) show ?thesis
      by (auto simp: pubsub_Publish_def store_Publish_def publishAttempt_def Let_def key_def split: if_splits)
  next
    case (Inr f)
    with p k(2,5) show ?thesis
      by (auto simp: pubsub_Publish_def store_Publish_def publishAttempt_def Let_def key_def split: if_splits)
  qed
  then consider "\<exists>e. res = Inl e" "c = c0"
    | f where "messageFieldsWithAttempt (st_codec (ps_store svc)) ?m now (rp_MaxDeliver (po_retry ?o)) 1 = Inr f"
        "rpc (rd_xadd rd key f (Some (sp_MaxLen (po_stream ?o), sp_ApproxMaxLen (po_stream ?o)))) c0 = (res, c)"
    by (auto split: sum.splits)
  then show ?thesis
  proof cases
    case 1
    then show ?thesis by auto
  next
    case 2
    let ?cmd = "rd_xadd rd key f (Some (sp_MaxLen (po_stream ?o), sp_ApproxMaxLen (po_stream ?o)))"
    show ?thesis
    proof (cases "\<exists>i. ?cmd (cn_srv c0) = (Inr i, cn_srv c)")
      case False
      obtain sres d1 where s: "?cmd (cn_srv c0) = (sres, d1)" by (rule prod.exhaust)
      have "\<exists>e. res = Inl e" using rpc_ok [of ?cmd c0 _ c] 2(2) False by (cases res) auto
      moreover have "same_data rd (cn_srv c0) (cn_srv c)"
        using rpc_srv [OF 2(2)] s False rd_errors(1) [OF k(1), of key f] by (cases sres) auto
      ultimately show ?thesis by blast
    next
      case True
      then obtain i where x: "?cmd (cn_srv c0) = (Inr i, cn_srv c)" by blast
      from rd_xadd_ok [OF k(1) x] obtain n where n: "i \<noteq> []" "i \<notin> e_ID ` set (rd_entries rd (cn_srv c0) key)"
          "n = 0 \<or> sp_MaxLen (po_stream ?o) \<le> int (length (rd_entries rd (cn_srv c0) key) - n) + 1"
          "rd_entries rd (cn_srv c) = (rd_entries rd (cn_srv c0))(key := drop n (rd_entries rd (cn_srv c0) key) @ [\<lparr>e_ID = i, e_Values = f\<rparr>])"
          "rd_pending rd (cn_srv c) = rd_pending rd (cn_srv c0)" "rd_zset rd (cn_srv c) = rd_zset rd (cn_srv c0)"
        by metis
      have "carries (ps_store svc) sub \<lparr>e_ID = i, e_Values = f\<rparr> (published_body inject msg now)"
        by (rule published_carries [OF ok b 2(1) n(1)])
      with n(2-6) show ?thesis
        by (intro disjI2 exI [of _ n] exI [of _ "\<lparr>e_ID = i, e_Values = f\<rparr>"]) auto
    qed
  qed
qed

subsection \<open>Reading and claiming\<close>

lemma ReadGroup_effect:
  assumes laws: "redis_laws rd" and st: "st_rdb st = Some rd" and r: "ReadGroup st sub consumer c = (res, c')"
  defines "key \<equiv> sub_key st sub"
  shows "rd_entries rd (cn_srv c') = rd_entries rd (cn_srv c) \<and> rd_zset rd (cn_srv c') = rd_zset rd (cn_srv c)
    \<and> rd_pending rd (cn_srv c) key (s_Group sub) \<subseteq> rd_pending rd (cn_srv c') key (s_Group sub)
    \<and> rd_pending rd (cn_srv c') key (s_Group sub)
        \<subseteq> rd_pending rd (cn_srv c) key (s_Group sub) \<union> e_ID ` set (rd_entries rd (cn_srv c) key)
    \<and> (\<forall>es. res = Inr es \<longrightarrow> set es \<subseteq> set (rd_entries rd (cn_srv c) key)
         \<and> e_ID ` set es \<subseteq> rd_pending rd (cn_srv c') key (s_Group sub))"
proof -
  let ?cmd = "rd_xreadgroup rd key (s_Group sub) consumer (sp_ReadCount (po_stream (st_opts st)))
    (sp_Block (po_stream (st_opts st)))"
  have law: "xreadgroup_law rd" using laws by (simp add: redis_laws_def)
  obtain sres d1 where s: "?cmd (cn_srv c) = (sres, d1)" by (rule prod.exhaust)
  obtain r0 where r0: "rpc ?cmd c = (r0, c')" and es: "res = Inr es \<Longrightarrow> es = [] \<or> r0 = Inr es" for es
    using r st unfolding ReadGroup_def key_def by (auto split: prod.splits sum.splits if_splits)
  have ran: "sres = Inr es \<Longrightarrow> set es \<subseteq> set (rd_entries rd (cn_srv c) key) \<and> rd_entries rd d1 = rd_entries rd (cn_srv c)
      \<and> rd_zset rd d1 = rd_zset rd (cn_srv c)
      \<and> rd_pending rd d1 key (s_Group sub) = rd_pending rd (cn_srv c) key (s_Group sub) \<union> e_ID ` set es" for es
    using law s unfolding xreadgroup_law_def by (metis fun_upd_same)
  have kept: "sres = Inl e \<Longrightarrow> same_data rd (cn_srv c) d1" for e
    using law s unfolding xreadgroup_law_def keeps_on_error_def by meson
  have done1: "rd_entries rd d1 = rd_entries rd (cn_srv c) \<and> rd_zset rd d1 = rd_zset rd (cn_srv c)
    \<and> rd_pending rd (cn_srv c) key (s_Group sub) \<subseteq> rd_pending rd d1 key (s_Group sub)
    \<and> rd_pending rd d1 key (s_Group sub)
        \<subseteq> rd_pending rd (cn_srv c) key (s_Group sub) \<union> e_ID ` set (rd_entries rd (cn_srv c) key)"
    using ran kept by (cases sres) (auto simp: same_data_def)
  have got: "res = Inr es \<Longrightarrow> es = [] \<or> (sres = Inr es \<and> cn_srv c' = d1)" for es
    using es rpc_ok [of ?cmd c es c'] r0 s by auto
  have "cn_srv c' = cn_srv c \<or> cn_srv c' = d1" using rpc_srv [OF r0] s by simp
  moreover have "res = Inr es \<Longrightarrow> set es \<subseteq> set (rd_entries rd (cn_srv c) key)
         \<and> e_ID ` set es \<subseteq> rd_pending rd (cn_srv c') key (s_Group sub)" for es
    using got [of es] ran [of es] by auto
  ultimately show ?thesis using done1 by auto
qed

subsection \<open>Handling\<close>

text \<open>A claimed entry is the same message: only its attempt can differ.\<close>

lemma decode_claimed:
  assumes "claimed_of m h" "decodeEntry pc t g consumer m = Inr dl"
  shows "\<exists>att raw. decodeEntry pc t g consumer h = Inr (dl\<lparr>dl_Attempt := att, dl_Raw := raw\<rparr>)"
proof -
  consider "h = m" | n where "n > 0" "in_int64 n" "h = \<lparr>e_ID = e_ID m, e_Values = (e_Values m)(fieldAttempt \<mapsto> Itoa n)\<rparr>"
    using assms(1) unfolding claimed_of_def by (cases h; cases m) auto
  then show ?thesis
  proof cases
    case 1
    with assms(2) show ?thesis by (intro exI [of _ "dl_Attempt dl"] exI [of _ "dl_Raw dl"]) simp
  next
    case 2
    have "field (e_Values h) k = field (e_Values m) k" if "k \<noteq> fieldAttempt" for k using 2 that by simp
    then have "field (e_Values h) k = field (e_Values m) k"
      if "k \<in> {fieldKey, fieldType, fieldData, fieldHeaders, fieldPublishedAt, fieldMaxDeliver}" for k
      using that field_names_distinct by auto
    then have fs: "field (e_Values h) fieldKey = field (e_Values m) fieldKey" "field (e_Values h) fieldType = field (e_Values m) fieldType"
      "field (e_Values h) fieldData = field (e_Values m) fieldData" "field (e_Values h) fieldHeaders = field (e_Values m) fieldHeaders"
      "field (e_Values h) fieldPublishedAt = field (e_Values m) fieldPublishedAt"
      "field (e_Values h) fieldMaxDeliver = field (e_Values m) fieldMaxDeliver" by simp_all
    have att: "decode_attempt (e_Values h) = Some n" "e_ID h = e_ID m" using 2 by (simp_all add: decode_attempt_def)
    from assms(2) have "decodeEntry pc t g consumer h = Inr (dl\<lparr>dl_Attempt := n, dl_Raw := e_Values h\<rparr>)"
      unfolding decodeEntry_def Let_def fs att by (auto split: if_splits option.splits sum.splits)
    then show ?thesis by blast
  qed
qed

lemma carries_claimed: "claimed_of m h \<Longrightarrow> carries st sub m b \<Longrightarrow> carries st sub h b"
  unfolding carries_def by (fastforce dest: decode_claimed simp: body_of_def)

lemma body_of_with_max_deliver [simp]: "body_of (with_max_deliver p dl) = body_of dl"
  by (simp add: body_of_def with_max_deliver_def)

text \<open>What handling leaves alone: it takes the entry it is given from the pending ones, and no other.\<close>

lemma meant_frame:
  assumes m: "same_data rd d d' \<or> meant rd st sub h consumer ent now w d d'" and k: "sub_key st sub \<noteq> sub_dlq st sub"
  shows "rd_entries rd d' (sub_key st sub) = rd_entries rd d (sub_key st sub)
    \<and> set (rd_entries rd d (sub_dlq st sub)) \<subseteq> set (rd_entries rd d' (sub_dlq st sub))
    \<and> rd_pending rd d' (sub_key st sub) (s_Group sub) \<subseteq> rd_pending rd d (sub_key st sub) (s_Group sub)
    \<and> rd_pending rd d (sub_key st sub) (s_Group sub) \<subseteq> insert (e_ID ent) (rd_pending rd d' (sub_key st sub) (s_Group sub))
    \<and> dom (rd_zset rd d (sub_retry st sub)) \<subseteq> dom (rd_zset rd d' (sub_retry st sub))"
proof -
  let ?F = "\<lambda>d'. rd_entries rd d' (sub_key st sub) = rd_entries rd d (sub_key st sub)
    \<and> set (rd_entries rd d (sub_dlq st sub)) \<subseteq> set (rd_entries rd d' (sub_dlq st sub))
    \<and> rd_pending rd d' (sub_key st sub) (s_Group sub) \<subseteq> rd_pending rd d (sub_key st sub) (s_Group sub)
    \<and> rd_pending rd d (sub_key st sub) (s_Group sub) \<subseteq> insert (e_ID ent) (rd_pending rd d' (sub_key st sub) (s_Group sub))
    \<and> dom (rd_zset rd d (sub_retry st sub)) \<subseteq> dom (rd_zset rd d' (sub_retry st sub))"
  have ack: "ack_effect rd (sub_key st sub) (s_Group sub) (e_ID ent) d d' \<Longrightarrow> ?F d'"
    by (auto simp: ack_effect_def acked_def)
  have retry: "retry_effect rd a (sub_key st sub) (s_Group sub) (e_ID ent) (sub_retry st sub) due p d d' \<Longrightarrow> ?F d'" for a due p
    by (auto simp: retry_effect_def acked_def split: if_splits)
  have dlq: "dlq_effect rd a (sub_key st sub) (s_Group sub) (e_ID ent) (sub_dlq st sub) vs d d' \<Longrightarrow> ?F d'" for a vs
    using k by (auto simp: dlq_effect_def acked_def split: if_splits)
  show ?thesis
  proof (cases "same_data rd d d'")
    case True
    then show ?thesis by (simp add: same_data_def subset_insertI)
  next
    case False
    with m have m: "meant rd st sub h consumer ent now w d d'" by simp
    show ?thesis
    proof (cases "decodeEntry (st_codec st) (s_Topic sub) (s_Group sub) consumer ent")
      case (Inl e)
      with m show ?thesis by (intro ack) (simp add: meant_def)
    next
      case (Inr dl0)
      from decodeEntry_ids [OF Inr] have i: "dl_ID dl0 = e_ID ent" by simp
      from m Inr consider "ack_effect rd (sub_key st sub) (s_Group sub) (e_ID ent) d d'"
        | a vs where "dlq_effect rd a (sub_key st sub) (s_Group sub) (e_ID ent) (sub_dlq st sub) vs d d'"
        | a due p where "retry_effect rd a (sub_key st sub) (s_Group sub) (e_ID ent) (sub_retry st sub) due p d d'"
        unfolding meant_def meant_failed_def Let_def by (auto simp: i split: if_splits option.splits)
      then show ?thesis by cases (rule ack dlq retry, assumption)+
    qed
  qed
qed

text \<open>What handling reports where it acknowledges without storing anything.\<close>

lemma handleEntry_result:
  assumes he: "handleEntry st sub consumer ent now (w, c) = (res, (w', c'))" and h: "s_Handler sub = Some h" "leaves_delivery h"
    and d: "decodeEntry (st_codec st) (s_Topic sub) (s_Group sub) consumer ent = Inr dl0"
  defines "dl \<equiv> with_max_deliver (effectiveRetry sub (po_retry (st_opts st))) dl0"
  assumes no: "\<not> (dl_Attempt dl > m_MaxDeliver (dl_Message dl) \<and> dp_Enabled (po_dlq (st_opts st)))"
  shows "(fst (fst (h dl w)) = None \<longrightarrow> (\<exists>e. res = Acked e))
    \<and> (fst (fst (h dl w)) \<noteq> None \<longrightarrow> wrap64 (dl_Attempt dl + 1) > m_MaxDeliver (dl_Message dl) \<longrightarrow>
         \<not> dp_Enabled (po_dlq (st_opts st)) \<longrightarrow> (\<exists>e. res = Dropped e))"
proof -
  obtain out dl1 w1 where o: "h dl w = ((out, dl1), w1)" by (metis prod.exhaust)
  with h(2) have dl1: "dl1 = dl" by (metis fst_conv leaves_delivery_def snd_conv)
  show ?thesis
  proof (cases out)
    case None
    with he d no o h(1) show ?thesis
      by (auto simp: handleEntry_def dl_def [symmetric] Let_def split: prod.splits)
  next
    case (Some e)
    with he d no o h(1) dl1 show ?thesis
      by (auto simp: handleEntry_def handle_failed_def dl_def [symmetric] Let_def split: prod.splits if_splits)
  qed
qed

text \<open>An entry that left the pending ones: its message was handled, dropped, stored again or dead-lettered.\<close>

lemma handle_acked:
  assumes ok: "psys_ok rd svc sub" and c: "carries (ps_store svc) sub ent b"
    and he: "handleEntry (ps_store svc) sub consumer ent now (w, c) = (res, (w', c'))"
    and p: "e_ID ent \<in> rd_pending rd (cn_srv c) (sub_key (ps_store svc) sub) (s_Group sub)"
      "e_ID ent \<notin> rd_pending rd (cn_srv c') (sub_key (ps_store svc) sub) (s_Group sub)"
  shows "(\<exists>b'. bodies (ps_store svc) sub consumer ent = [b'] \<and> became b b')
    \<and> ((\<exists>e. res = Acked e) \<or> (\<exists>e. res = Dropped e)
       \<or> (\<exists>payload due. rd_zset rd (cn_srv c') (sub_retry (ps_store svc) sub) payload = Some due \<and> waits (ps_store svc) sub payload b)
       \<or> (\<exists>e\<in>set (rd_entries rd (cn_srv c') (sub_dlq (ps_store svc) sub)). dead (ps_store svc) e b))"
proof -
  let ?st = "ps_store svc"
  obtain h where h: "s_Handler sub = Some h" "leaves_delivery h" using ok by (auto simp: psys_ok_def)
  note k = psys_okD [OF ok]
  from c obtain dl0 where d: "decodeEntry (st_codec ?st) (s_Topic sub) (s_Group sub) consumer ent = Inr dl0"
      "became b (body_of dl0)" "m_MaxDeliver (dl_Message dl0) < 10 ^ 14" and sb: "sendable b"
    unfolding carries_def by blast
  define dl where "dl = with_max_deliver (effectiveRetry sub (po_retry (st_opts ?st))) dl0"
  have b: "became b (body_of dl)" by (simp add: dl_def d(2))
  have mx: "m_MaxDeliver (dl_Message dl) < 10 ^ 14"
    using d(3) ok by (simp add: dl_def with_max_deliver_def psys_ok_def)
  have ids: "dl_Group dl = s_Group sub" "dl_ID dl = e_ID ent" using decodeEntry_ids [OF d(1)] by (simp_all add: dl_def)
  have "same_data rd (cn_srv c) (cn_srv c') \<or> meant rd ?st sub h consumer ent now w (cn_srv c) (cn_srv c')"
    by (rule handleEntry_meant [OF k(1,2) h he])
  with p have m: "meant rd ?st sub h consumer ent now w (cn_srv c) (cn_srv c')" by (auto simp: same_data_def)
  have stored: "\<exists>e\<in>set (rd_entries rd (cn_srv c') (sub_dlq ?st sub)). dead ?st e b"
    if "dlq_effect rd ack s g i (sub_dlq ?st sub) (dlq_values (st_codec ?st) dl reason) (cn_srv c) (cn_srv c')" for ack s g i reason
    using that b unfolding dlq_effect_def dead_def by force
  have bd: "bodies ?st sub consumer ent = [body_of dl0]" "became b (body_of dl0)" using d(1,2) by (simp_all add: bodies_def)
  show ?thesis
  proof (cases "dl_Attempt dl > m_MaxDeliver (dl_Message dl) \<and> dp_Enabled (po_dlq (st_opts ?st))")
    case True
    with m d(1) show ?thesis unfolding meant_def Let_def by (auto simp: dl_def [symmetric] bd dest: stored)
  next
    case False
    note r = handleEntry_result [OF he h d(1), folded dl_def, OF False]
    show ?thesis
    proof (cases "fst (fst (h dl w))")
      case None
      with r bd show ?thesis by simp
    next
      case (Some e)
      with m d(1) False have f: "meant_failed rd ?st sub dl now (cn_srv c) (cn_srv c')"
        unfolding meant_def Let_def by (auto simp: dl_def [symmetric])
      let ?next = "wrap64 (dl_Attempt dl + 1)"
      consider (retry) "\<not> ?next > m_MaxDeliver (dl_Message dl)"
        | (dead) "?next > m_MaxDeliver (dl_Message dl)" "dp_Enabled (po_dlq (st_opts ?st))"
        | (dropped) "?next > m_MaxDeliver (dl_Message dl)" "\<not> dp_Enabled (po_dlq (st_opts ?st))"
        by blast
      then show ?thesis
      proof cases
        case retry
        with f obtain payload ack due where x: "0 < ?next"
            "pc_marshal_envelope (st_codec ?st) (retry_envelope (s_Topic sub) dl ?next) = Inr payload"
            "rd_zset rd (cn_srv c') (sub_retry ?st sub) payload = Some due"
          unfolding meant_failed_def Let_def retry_effect_def by auto
        have "envelope_ok (retry_envelope (s_Topic sub) dl ?next)"
          using sb retry mx x(1) became_finite [OF b]
          by (simp add: envelope_ok_def retry_envelope_def sendable_def body_of_def)
        with x b sb show ?thesis unfolding waits_def by (auto simp: bd)
      next
        case dead
        with f show ?thesis unfolding meant_failed_def Let_def by (auto simp: bd dest: stored)
      next
        case dropped
        with r Some bd show ?thesis by simp
      qed
    qed
  qed
qed

subsection \<open>Promoting\<close>

text \<open>A retry that was taken is in the stream again, as an entry that no group has had.\<close>

lemma promoted_carries:
  assumes ok: "psys_ok rd svc sub" and w: "waits (ps_store svc) sub p b"
    and v: "promoted_fields (st_codec (ps_store svc)) p = Inr (e_Values e)" "e_ID e \<noteq> []"
  shows "carries (ps_store svc) sub e b"
proof -
  let ?st = "ps_store svc"
  obtain dl n where x: "pc_marshal_envelope (st_codec ?st) (retry_envelope (s_Topic sub) dl n) = Inr p"
      "envelope_ok (retry_envelope (s_Topic sub) dl n)" "0 < n" "became b (body_of dl)" and sb: "sendable b"
    using w unfolding waits_def by blast
  obtain i f where e: "e = \<lparr>e_ID = i, e_Values = f\<rparr>" by (cases e)
  have "decodeEntry (st_codec ?st) (s_Topic sub) (s_Group sub) consumer e =
      Inr \<lparr>dl_ID = e_ID e, dl_Topic = s_Topic sub, dl_Group = s_Group sub, dl_Consumer = consumer, dl_Attempt = n,
        dl_PublishedAt = dl_PublishedAt dl, dl_Message = (clean_message (dl_Message dl))\<lparr>m_ScheduledAt := 0\<rparr>, dl_Raw = e_Values e\<rparr>"
    for consumer
    using retry_decode [OF psys_okD(3) [OF ok] x(2,3)] x(1) v by (auto simp: e)
  moreover have "m_MaxDeliver (dl_Message dl) < 10 ^ 14"
    using x(2) by (simp add: envelope_ok_def retry_envelope_def)
  moreover have "became b ((clean_message (dl_Message dl))\<lparr>m_MaxDeliver := 0, m_ScheduledAt := 0\<rparr>, dl_PublishedAt dl)"
    using became_clean [OF x(4) [unfolded body_of_def]] by (cases "dl_Message dl") (simp add: clean_message_def)
  ultimately show ?thesis using sb unfolding carries_def by (simp add: body_of_def)
qed

lemma promote_taken:
  assumes ok: "psys_ok rd svc sub" and s: "psys_struct rd (ps_store svc) sub s" and f: "ids_fresh rd (ps_store svc) sub s c"
    and m: "moved rd (st_codec (ps_store svc)) (sub_retry (ps_store svc) sub) (sub_key (ps_store svc) sub) gone extra (cn_srv (sy_conn s)) (cn_srv c)"
    and p: "rd_zset rd (cn_srv (sy_conn s)) (sub_retry (ps_store svc) sub) p = Some due" "waits (ps_store svc) sub p b"
  shows "accounted rd (ps_store svc) sub (advance rd (ps_store svc) sub c s) b"
proof (cases "p \<in> set gone")
  case False
  with m p have "rd_zset rd (cn_srv c) (sub_retry (ps_store svc) sub) p = Some due" by (simp add: moved_def)
  with p(2) show ?thesis unfolding accounted_def Let_def by auto
next
  case True
  let ?key = "sub_key (ps_store svc) sub"
  obtain new where n: "rd_entries rd (cn_srv c) ?key = rd_entries rd (cn_srv (sy_conn s)) ?key @ new"
      "map (\<lambda>e. Inr (e_Values e)) new = map (promoted_fields (st_codec (ps_store svc))) (gone @ extra)" "\<forall>e\<in>set new. e_ID e \<noteq> []"
    and pend: "rd_pending rd (cn_srv c) = rd_pending rd (cn_srv (sy_conn s))"
    using m unfolding moved_def by auto
  have "promoted_fields (st_codec (ps_store svc)) p \<in> set (map (\<lambda>e. Inr (e_Values e)) new)"
    using True unfolding n(2) by simp
  then obtain e where e: "e \<in> set new" "promoted_fields (st_codec (ps_store svc)) p = Inr (e_Values e)" by auto
  have c: "carries (ps_store svc) sub e b" by (rule promoted_carries [OF ok p(2) e(2)]) (use n(3) e(1) in blast)
  have "e \<notin> set (rd_entries rd (cn_srv (sy_conn s)) ?key)"
    using f e(1) unfolding ids_fresh_def n(1) by auto
  then have "e_ID e \<notin> sy_ids s" using f e(1) unfolding ids_fresh_def n(1) by auto
  then have "e_ID e \<notin> sy_seen (advance rd (ps_store svc) sub c s)"
    using s unfolding psys_struct_def Let_def advance_simps pend by blast
  with c e(1) show ?thesis unfolding accounted_def Let_def by (auto simp: n(1))
qed

subsection \<open>Every step keeps the invariant\<close>

lemma grows_same: "rd_entries rd d' (sub_key st sub) = rd_entries rd d (sub_key st sub) \<Longrightarrow> grows rd st sub d d'"
  by (rule grows_append [where new = "[]"]) simp

lemma psys_publish:
  assumes ok: "psys_ok rd svc sub" and inv: "psys_inv rd (ps_store svc) sub s"
    and p: "pubsub_Publish inject svc (s_Topic sub) msg now (sy_conn s) = (res, c)"
    and b: "sendable (published_body inject msg now)" "m_MaxDeliver msg < 10 ^ 14"
    and f: "ids_fresh rd (ps_store svc) sub s c"
  shows "psys_inv rd (ps_store svc) sub ((advance rd (ps_store svc) sub c s)
    \<lparr>sy_pub := (case res of Inr _ \<Rightarrow> [published_body inject msg now] | Inl _ \<Rightarrow> []) @ sy_pub s\<rparr>)" (is "psys_inv _ _ _ ?t")
proof -
  let ?st = "ps_store svc"
  let ?d = "cn_srv (sy_conn s)" and ?d' = "cn_srv c" and ?key = "sub_key ?st sub"
  note k = psys_okD [OF ok]
  have s: "psys_struct rd ?st sub s" and a: "\<forall>b\<in>set (sy_pub s). accounted rd ?st sub s b"
    using inv by (simp_all add: psys_inv_def)
  from publish_effect [OF ok p b] have eff: "(same_data rd ?d ?d' \<and> (\<exists>e. res = Inl e))
    \<or> (\<exists>k e. rd_entries rd ?d' = (rd_entries rd ?d)(?key := drop k (rd_entries rd ?d ?key) @ [e])
        \<and> e_ID e \<notin> e_ID ` set (rd_entries rd ?d ?key)
        \<and> (k = 0 \<or> sp_MaxLen (po_stream (st_opts ?st)) \<le> int (length (rd_entries rd ?d' ?key)))
        \<and> rd_pending rd ?d' = rd_pending rd ?d \<and> rd_zset rd ?d' = rd_zset rd ?d
        \<and> carries ?st sub e (published_body inject msg now))" .
  have "grows rd ?st sub ?d ?d'" if "rd_entries rd ?d' = (rd_entries rd ?d)(?key := drop n (rd_entries rd ?d ?key) @ [e])"
      "n = 0 \<or> sp_MaxLen (po_stream (st_opts ?st)) \<le> int (length (rd_entries rd ?d' ?key))" for n e
    using that unfolding grows_def by (intro exI [of _ n] exI [of _ "[e]"]) simp
  with eff have g: "grows rd ?st sub ?d ?d'" by (auto simp: same_data_def intro: grows_same)
  from eff k(4) have keep: "rd_pending rd ?d' = rd_pending rd ?d" "rd_zset rd ?d' = rd_zset rd ?d"
      "rd_entries rd ?d' (sub_dlq ?st sub) = rd_entries rd ?d (sub_dlq ?st sub)"
    by (auto simp: same_data_def)
  have "psys_struct rd ?st sub (advance rd ?st sub c s)"
    by (rule psys_struct_advance [OF s f g]) (use s in \<open>auto simp: keep psys_struct_def Let_def\<close>)
  then have st: "psys_struct rd ?st sub ?t" by (rule psys_struct_frame) simp_all
  have old: "accounted rd ?st sub ?t x" if "accounted rd ?st sub s x" for x
    using that by (rule accounted_step [where c = c]) (auto simp: keep intro: accountedI)
  have new: "accounted rd ?st sub ?t (published_body inject msg now)" if "res = Inr i" for i
  proof -
    from eff that obtain n e where e: "rd_entries rd ?d' = (rd_entries rd ?d)(?key := drop n (rd_entries rd ?d ?key) @ [e])"
        "e_ID e \<notin> e_ID ` set (rd_entries rd ?d ?key)" "carries ?st sub e (published_body inject msg now)" by auto
    have "e \<in> set (rd_entries rd ?d' ?key)" by (simp add: e(1))
    moreover from this e(2) f have "e_ID e \<notin> sy_ids s" unfolding ids_fresh_def by auto
    then have "e_ID e \<notin> sy_seen ?t" using s unfolding psys_struct_def Let_def by (auto simp: keep)
    ultimately show ?thesis using e(3) unfolding accounted_def Let_def by auto
  qed
  show ?thesis using st old new a unfolding psys_inv_def by (auto split: sum.splits)
qed

lemma psys_read:
  assumes ok: "psys_ok rd svc sub" and inv: "psys_inv rd (ps_store svc) sub s"
    and r: "ReadGroup (ps_store svc) sub consumer (sy_conn s) = (res, c)"
  shows "psys_inv rd (ps_store svc) sub ((advance rd (ps_store svc) sub c s)
    \<lparr>sy_hand := (case res of Inr es \<Rightarrow> es | Inl _ \<Rightarrow> []) @ sy_hand s\<rparr>)" (is "psys_inv _ _ _ ?t")
proof -
  let ?st = "ps_store svc"
  let ?d = "cn_srv (sy_conn s)" and ?d' = "cn_srv c" and ?key = "sub_key ?st sub"
  have s: "psys_struct rd ?st sub s" and a: "\<forall>b\<in>set (sy_pub s). accounted rd ?st sub s b"
    using inv by (simp_all add: psys_inv_def)
  note eff = ReadGroup_effect [OF psys_okD(1,2) [OF ok] r]
  have es: "rd_entries rd ?d' = rd_entries rd ?d" "rd_zset rd ?d' = rd_zset rd ?d"
      "rd_pending rd ?d ?key (s_Group sub) \<subseteq> rd_pending rd ?d' ?key (s_Group sub)"
    using eff by blast+
  have pend: "rd_pending rd ?d' ?key (s_Group sub) \<subseteq> sy_seen s \<union> e_ID ` set (rd_entries rd ?d' ?key)"
    using eff s unfolding psys_struct_def Let_def es by blast
  have adv: "psys_struct rd ?st sub (advance rd ?st sub c s)"
    by (rule psys_struct_advance [OF s ids_fresh_same [OF s] _ pend]) (simp_all add: es grows_same)
  have d: "distinct (map e_ID (rd_entries rd ?d' ?key))" using s unfolding psys_struct_def Let_def es by blast
  have got: "e_ID e \<in> rd_pending rd ?d' ?key (s_Group sub) \<and> (\<forall>m\<in>set (rd_entries rd ?d' ?key). e_ID m = e_ID e \<longrightarrow> claimed_of m e)"
    if "res = Inr es0" "e \<in> set es0" for es0 e
  proof -
    have "e \<in> set (rd_entries rd ?d' ?key)" "e_ID e \<in> rd_pending rd ?d' ?key (s_Group sub)" using eff that es(1) by auto
    moreover from this(1) d have "m = e" if "m \<in> set (rd_entries rd ?d' ?key)" "e_ID m = e_ID e" for m
      using that by (auto simp: distinct_map inj_on_def)
    ultimately show ?thesis by (auto simp: claimed_of_def)
  qed
  have "psys_struct rd ?st sub ?t"
    by (rule psys_struct_frame [OF adv]) (use got in \<open>auto split: sum.splits\<close>)
  moreover have "accounted rd ?st sub ?t b" if "accounted rd ?st sub s b" for b
    using that by (rule accounted_step [where c = c]) (use es(3) in \<open>auto simp: es(1,2) intro: accountedI\<close>)
  ultimately show ?thesis using a unfolding psys_inv_def by simp
qed

lemma psys_claim:
  assumes ok: "psys_ok rd svc sub" and inv: "psys_inv rd (ps_store svc) sub s"
    and r: "AutoClaim (ps_store svc) sub consumer start cnt (sy_conn s) = ((es, nx, err), c)"
  shows "psys_inv rd (ps_store svc) sub ((advance rd (ps_store svc) sub c s)\<lparr>sy_hand := es @ sy_hand s\<rparr>)" (is "psys_inv _ _ _ ?t")
proof -
  let ?st = "ps_store svc"
  let ?d = "cn_srv (sy_conn s)" and ?d' = "cn_srv c" and ?key = "sub_key ?st sub"
  have s: "psys_struct rd ?st sub s" and a: "\<forall>b\<in>set (sy_pub s). accounted rd ?st sub s b"
    using inv by (simp_all add: psys_inv_def)
  note eff = AutoClaim_claimed [OF psys_okD(1,2) [OF ok] r]
  then obtain gone where g: "dropped_pending rd ?key (s_Group sub) gone ?d ?d'" by blast
  then have same: "rd_entries rd ?d' = rd_entries rd ?d" "rd_zset rd ?d' = rd_zset rd ?d"
    and p': "rd_pending rd ?d' ?key (s_Group sub) = rd_pending rd ?d ?key (s_Group sub) - gone"
    and out: "gone \<inter> e_ID ` set (rd_entries rd ?d ?key) = {}"
    by (simp_all add: dropped_pending_def)
  have pend: "rd_pending rd ?d' ?key (s_Group sub) \<subseteq> sy_seen s"
    using s unfolding psys_struct_def Let_def p' by blast
  have adv: "psys_struct rd ?st sub (advance rd ?st sub c s)"
    by (rule psys_struct_advance [OF s ids_fresh_same [OF s]]) (use pend in \<open>auto simp: same grows_same\<close>)
  have d: "distinct (map e_ID (rd_entries rd ?d' ?key))" using s unfolding psys_struct_def Let_def same by blast
  have got: "e_ID e \<in> rd_pending rd ?d' ?key (s_Group sub) \<and> (\<forall>m\<in>set (rd_entries rd ?d' ?key). e_ID m = e_ID e \<longrightarrow> claimed_of m e)"
    if "e \<in> set es" for e
  proof -
    from eff that obtain m0 where m0: "m0 \<in> set (rd_entries rd ?d' ?key)" "claimed_of m0 e"
      and p: "e_ID e \<in> rd_pending rd ?d ?key (s_Group sub)"
      unfolding same by (meson claimed_values_of)
    have "m = m0" if "m \<in> set (rd_entries rd ?d' ?key)" "e_ID m = e_ID e" for m
      using that m0 d claimed_of_fields [OF m0(2)] by (auto simp: distinct_map inj_on_def)
    moreover have "e_ID e \<notin> gone" using out m0(1) claimed_of_fields [OF m0(2)] unfolding same by auto
    ultimately show ?thesis using m0 p unfolding p' by blast
  qed
  have "psys_struct rd ?st sub ?t"
    by (rule psys_struct_frame [OF adv]) (use got in auto)
  moreover have "accounted rd ?st sub ?t b" if "accounted rd ?st sub s b" for b
    using that
  proof (rule accounted_step [where c = c])
    fix e assume "e \<in> set (rd_entries rd ?d ?key)" "e_ID e \<in> rd_pending rd ?d ?key (s_Group sub)"
      "e_ID e \<notin> rd_pending rd ?d' ?key (s_Group sub)"
    with out show "accounted rd ?st sub ?t b" unfolding p' by blast
  qed (auto simp: same intro: accountedI)
  ultimately show ?thesis using a unfolding psys_inv_def by simp
qed

lemma psys_handle:
  assumes ok: "psys_ok rd svc sub" and inv: "psys_inv rd (ps_store svc) sub s" and ent: "ent \<in> set (sy_hand s)"
    and he: "handleEntry (ps_store svc) sub consumer ent now (sy_world s, sy_conn s) = (res, (w, c))"
  shows "psys_inv rd (ps_store svc) sub ((advance rd (ps_store svc) sub c s)
    \<lparr>sy_world := w, sy_hand := remove1 ent (sy_hand s),
     sy_ok := (case res of Acked _ \<Rightarrow> bodies (ps_store svc) sub consumer ent | _ \<Rightarrow> []) @ sy_ok s,
     sy_dropped := (case res of Dropped _ \<Rightarrow> bodies (ps_store svc) sub consumer ent | _ \<Rightarrow> []) @ sy_dropped s\<rparr>)" (is "psys_inv _ _ _ ?t")
proof -
  let ?st = "ps_store svc"
  let ?d = "cn_srv (sy_conn s)" and ?d' = "cn_srv c" and ?key = "sub_key ?st sub"
  have s: "psys_struct rd ?st sub s" and a: "\<forall>b\<in>set (sy_pub s). accounted rd ?st sub s b"
    using inv by (simp_all add: psys_inv_def)
  obtain h where h: "s_Handler sub = Some h" "leaves_delivery h" using ok by (auto simp: psys_ok_def)
  have m: "same_data rd ?d ?d' \<or> meant rd ?st sub h consumer ent now (sy_world s) ?d ?d'"
    by (rule handleEntry_meant [OF psys_okD(1,2) [OF ok] h he])
  note fr = meant_frame [OF m psys_okD(4) [OF ok]]
  have es: "rd_entries rd ?d' ?key = rd_entries rd ?d ?key" using fr by blast
  have pend: "rd_pending rd ?d' ?key (s_Group sub) \<subseteq> sy_seen s"
    using fr s unfolding psys_struct_def Let_def by blast
  have "psys_struct rd ?st sub (advance rd ?st sub c s)"
    by (rule psys_struct_advance [OF s ids_fresh_same [OF s]]) (use pend in \<open>auto simp: es grows_same\<close>)
  then have "psys_struct rd ?st sub ?t"
    by (rule psys_struct_frame) (auto dest: notin_set_remove1)
  moreover have "accounted rd ?st sub ?t b" if b: "accounted rd ?st sub s b" for b
  proof (rule accounted_step [OF b, where c = c])
    fix e assume e: "e \<in> set (rd_entries rd ?d ?key)" "carries ?st sub e b"
      and p: "e_ID e \<in> rd_pending rd ?d ?key (s_Group sub)" "e_ID e \<notin> rd_pending rd ?d' ?key (s_Group sub)"
    from p fr have i: "e_ID e = e_ID ent" by blast
    with s ent e(1) have "claimed_of e ent" unfolding psys_struct_def Let_def by blast
    note done1 = handle_acked [OF ok carries_claimed [OF this e(2)] he p [unfolded i]]
    then obtain b' where bd: "bodies ?st sub consumer ent = [b']" "became b b'" by blast
    from done1 consider x where "res = Acked x" | x where "res = Dropped x"
      | payload due where "rd_zset rd ?d' (sub_retry ?st sub) payload = Some due" "waits ?st sub payload b"
      | e where "e \<in> set (rd_entries rd ?d' (sub_dlq ?st sub))" "dead ?st e b"
      by blast
    then show "accounted rd ?st sub ?t b"
      by cases (use bd in \<open>auto intro: accountedI\<close>)
  next
    fix p due assume p: "rd_zset rd ?d (sub_retry ?st sub) p = Some due" "waits ?st sub p b"
    from fr p(1) obtain due' where "rd_zset rd ?d' (sub_retry ?st sub) p = Some due'" by blast
    with p(2) show "accounted rd ?st sub ?t b" by (auto intro: accountedI)
  qed (use fr in auto)
  ultimately show ?thesis using a unfolding psys_inv_def by simp
qed

lemma psys_promote:
  assumes ok: "psys_ok rd svc sub" and inv: "psys_inv rd (ps_store svc) sub s"
    and p: "PromoteDueRetries (ps_store svc) (s_Topic sub) (s_Group sub) limit now (sy_conn s) = (res, c)"
    and f: "ids_fresh rd (ps_store svc) sub s c"
  shows "psys_inv rd (ps_store svc) sub (advance rd (ps_store svc) sub c s)" (is "psys_inv _ _ _ ?t")
proof -
  let ?st = "ps_store svc"
  let ?d = "cn_srv (sy_conn s)" and ?d' = "cn_srv c" and ?key = "sub_key ?st sub"
  have s: "psys_struct rd ?st sub s" and a: "\<forall>b\<in>set (sy_pub s). accounted rd ?st sub s b"
    using inv by (simp_all add: psys_inv_def)
  obtain gone extra where m: "moved rd (st_codec ?st) (sub_retry ?st sub) ?key gone extra ?d ?d'"
    using PromoteDueRetries_moved [OF psys_okD(1,2) [OF ok] p] by blast
  then obtain new where n: "rd_entries rd ?d' = (rd_entries rd ?d)(?key := rd_entries rd ?d ?key @ new)"
      "rd_pending rd ?d' = rd_pending rd ?d" unfolding moved_def by blast
  have "psys_struct rd ?st sub ?t"
    by (rule psys_struct_advance [OF s f grows_append])
       (use s in \<open>auto simp: n psys_struct_def Let_def\<close>)
  moreover have "accounted rd ?st sub ?t b" if b: "accounted rd ?st sub s b" for b
    by (rule accounted_step [OF b, where c = c])
       (use psys_okD(4) [OF ok] promote_taken [OF ok s f m] in \<open>auto simp: n\<close>)
  ultimately show ?thesis using a unfolding psys_inv_def by simp
qed

lemma psys_others:
  assumes inv: "psys_inv rd st sub s" and o: "others_ok rd st sub (cn_srv (sy_conn s)) (cn_srv c)"
    and f: "ids_fresh rd st sub s c"
  shows "psys_inv rd st sub ((advance rd st sub c s)\<lparr>sy_world := w\<rparr>)" (is "psys_inv _ _ _ ?t")
proof -
  let ?d = "cn_srv (sy_conn s)" and ?d' = "cn_srv c"
  have s: "psys_struct rd st sub s" and a: "\<forall>b\<in>set (sy_pub s). accounted rd st sub s b"
    using inv by (simp_all add: psys_inv_def)
  have keep: "rd_pending rd ?d' (sub_key st sub) (s_Group sub) = rd_pending rd ?d (sub_key st sub) (s_Group sub)"
      "rd_zset rd ?d' (sub_retry st sub) = rd_zset rd ?d (sub_retry st sub)"
    and dlq: "set (rd_entries rd ?d (sub_dlq st sub)) \<subseteq> set (rd_entries rd ?d' (sub_dlq st sub))"
    using o unfolding others_ok_def by auto
  have g: "grows rd st sub ?d ?d'" using o unfolding others_ok_def grows_def by blast
  have "psys_struct rd st sub (advance rd st sub c s)"
    by (rule psys_struct_advance [OF s f g]) (use s in \<open>auto simp: keep psys_struct_def Let_def\<close>)
  then have "psys_struct rd st sub ?t" by (rule psys_struct_frame) auto
  moreover have "accounted rd st sub ?t b" if b: "accounted rd st sub s b" for b
    by (rule accounted_step [OF b, where c = c]) (use dlq in \<open>auto simp: keep intro: accountedI\<close>)
  ultimately show ?thesis using a unfolding psys_inv_def by simp
qed

lemma psys_crash:
  "psys_inv rd st sub s \<Longrightarrow> set hand \<subseteq> set (sy_hand s) \<Longrightarrow> psys_inv rd st sub (s\<lparr>sy_hand := hand\<rparr>)"
  unfolding psys_inv_def psys_struct_def accounted_def Let_def by auto

lemma psys_step_inv:
  assumes "psys_step rd inject svc sub s e t" "psys_ok rd svc sub" "psys_inv rd (ps_store svc) sub s"
  shows "psys_inv rd (ps_store svc) sub t"
  using assms(1)
  by cases (blast intro: assms(2,3) psys_publish psys_read psys_claim psys_handle psys_promote psys_crash psys_others)+

interpretation pubsub_run: invariant_steps "psys_step rd inject svc sub" "\<lambda>_. True"
    "\<lambda>s. psys_ok rd svc sub \<and> psys_inv rd (ps_store svc) sub s" for rd inject svc sub
  by unfold_locales (blast intro: psys_step_inv)

lemma psys_init_inv: "psys_init rd st sub s \<Longrightarrow> psys_inv rd st sub s"
  by (simp add: psys_init_def psys_inv_def psys_struct_def Let_def)

text \<open>
  C2: no published message is lost.  After any interleaving of publishing, reading, claiming, handling,
  promoting, of workers that die with entries in hand and of requests or answers that are lost, every message
  whose publication succeeded has been handled with success, or was dropped because its attempts were used
  up with dead letters switched off, or is an entry of the stream that its group has not had yet or has
  pending (and will claim), or waits in the retry set, or is in the dead-letter stream, or was trimmed from
  the stream; and nothing was trimmed while the stream was shorter than its limit.  A message that is not
  valid UTF-8 is there as what JSON makes of its headers or, once retried, of all of it (\<open>became\<close>; the message
  itself when it is valid, \<open>became_valid\<close>).  Claims may take the ids of trimmed entries from the pending
  ones.  The limits of deliveries are below \<open>10\<^sup>1\<^sup>4\<close>, the clock shows instants that RFC 3339 can write, handlers
  leave the delivery they get as it is, and other programs leave the pending entries and retries of the
  group alone and trim the stream to no less than its limit (\<open>psys_ok\<close>, \<open>sendable\<close>, \<open>others_ok\<close>).
\<close>

theorem at_least_once:
  assumes ok: "psys_ok rd svc sub" and init: "psys_init rd (ps_store svc) sub s0"
    and run: "run (psys_step rd inject svc sub) (\<lambda>_. True) s0 s"
  shows "(\<forall>b\<in>set (sy_pub s). let st = ps_store svc; d = cn_srv (sy_conn s); stream = streamKey (st_opts st) (s_Topic sub) in
      (\<exists>b'\<in>set (sy_ok s). became b b') \<or> (\<exists>b'\<in>set (sy_dropped s). became b b')
      \<or> (\<exists>e\<in>set (rd_entries rd d stream). carries st sub e b
           \<and> (e_ID e \<notin> sy_seen s \<or> e_ID e \<in> rd_pending rd d stream (s_Group sub)))
      \<or> (\<exists>payload due. rd_zset rd d (retryKey (st_opts st) (s_Topic sub) (s_Group sub)) payload = Some due
           \<and> waits st sub payload b)
      \<or> (\<exists>e\<in>set (rd_entries rd d (dlqKey (st_opts st) (s_Topic sub))). dead st e b)
      \<or> (\<exists>e\<in>set (sy_cut s). carries st sub e b))
    \<and> (int (sy_high s) < sp_MaxLen (po_stream (st_opts (ps_store svc))) \<longrightarrow> sy_cut s = [])"
proof -
  from pubsub_run.run_inv [OF run] ok psys_init_inv [OF init] have "psys_inv rd (ps_store svc) sub s" by blast
  then have "\<forall>b\<in>set (sy_pub s). accounted rd (ps_store svc) sub s b"
      "int (sy_high s) < sp_MaxLen (po_stream (st_opts (ps_store svc))) \<longrightarrow> sy_cut s = []"
    unfolding psys_inv_def psys_struct_def Let_def by auto
  then show ?thesis unfolding accounted_def Let_def by blast
qed

text \<open>A message is published and read, and the answer of the read is lost.\<close>

definition demo_psys :: "(memredis, nat) psys" where
  "demo_psys = \<lparr>sy_conn = \<lparr>cn_srv = \<lparr>mr_streams = (\<lambda>_. []), mr_pending = [], mr_seen = [], mr_counts = (\<lambda>_. 0), mr_zsets = (\<lambda>_. [])\<rparr>,
       cn_links = [LinkOk, LostAfter (Errs ''i/o timeout'')]\<rparr>, sy_world = 0, sy_hand = [], sy_ids = {}, sy_seen = {},
     sy_pub = [], sy_ok = [], sy_dropped = [], sy_cut = [], sy_high = 0\<rparr>"

lemma demo_psys_ok: "psys_ok mem_redis demo_service demo_sub" "psys_init mem_redis demo_store demo_sub demo_psys"
proof -
  show "psys_ok mem_redis demo_service demo_sub"
    using mem_redis_laws mem_pc_ok pubsub_default_ok demo_sub_handler(2)
    by (simp add: psys_ok_def demo_service_def demo_store_def demo_sub_def pubsub_defaultOptions_def effectiveRetry_def
        merge_retry_def)
  show "psys_init mem_redis demo_store demo_sub demo_psys"
    by (simp add: psys_init_def demo_psys_def mem_redis_def)
qed

lemma demo_sendable: "sendable (published_body (\<lambda>h. h) demo_message second)"
  by (simp add: sendable_def published_body_def demo_message_def cloneHeaders_def finite_headers_def json_time_def second_def)

lemma at_least_once_witness:
  "\<exists>s. run (psys_step mem_redis (\<lambda>h. h) demo_service demo_sub) (\<lambda>_. True) demo_psys s
     \<and> published_body (\<lambda>h. h) demo_message second \<in> set (sy_pub s)
     \<and> accounted mem_redis demo_store demo_sub s (published_body (\<lambda>h. h) demo_message second)"
proof -
  let ?b = "published_body (\<lambda>h. h) demo_message second" and ?rd = mem_redis and ?c0 = "sy_conn demo_psys"
  let ?p = "pubsub_Publish (\<lambda>h. h) demo_service (s_Topic demo_sub) demo_message second ?c0"
  have st: "ps_store demo_service = demo_store" by (simp add: demo_service_def)
  have "normalizeTopic ''t'' \<noteq> []" by code_simp
  then obtain i c where p: "?p = (Inr i, c)"
    using demo_message_ok(1)
    by (simp add: pubsub_Publish_def store_Publish_def publishAttempt_def demo_service_def demo_store_def
        demo_sub_def messageFieldsWithAttempt_def mem_pc_def Let_def message_Validate_def rpc_def demo_psys_def mem_redis_def
        split: if_splits)
  have mx: "m_MaxDeliver demo_message < 10 ^ 14" by (simp add: demo_message_def)
  have empty: "rd_entries ?rd (cn_srv ?c0) k = []" for k by (simp add: demo_psys_def mem_redis_def)
  from publish_effect [OF demo_psys_ok(1) p demo_sendable mx]
  have "length (rd_entries ?rd (cn_srv c) (sub_key demo_store demo_sub)) \<le> 1"
    unfolding st by (auto simp: empty same_data_def)
  then have "distinct (map e_ID (rd_entries ?rd (cn_srv c) (sub_key demo_store demo_sub)))"
    by (cases "rd_entries ?rd (cn_srv c) (sub_key demo_store demo_sub)") auto
  then have f: "ids_fresh ?rd (ps_store demo_service) demo_sub demo_psys c"
    unfolding ids_fresh_def st by (simp add: demo_psys_def)
  note s1 = psys_step.publish [OF p demo_sendable mx f]
  obtain s1 where s1: "psys_step ?rd (\<lambda>h. h) demo_service demo_sub demo_psys SyPublish s1" "?b \<in> set (sy_pub s1)"
    using s1 by fastforce
  obtain res2 c2 where r: "ReadGroup (ps_store demo_service) demo_sub ''c'' (sy_conn s1) = (res2, c2)" by (rule prod.exhaust)
  obtain s2 where s2: "psys_step ?rd (\<lambda>h. h) demo_service demo_sub s1 SyRead s2" "sy_pub s2 = sy_pub s1"
    using psys_step.read [OF r] by fastforce
  have run: "run (psys_step ?rd (\<lambda>h. h) demo_service demo_sub) (\<lambda>_. True) demo_psys s2"
    by (rule run_step [OF run_step [OF run_refl]], rule s1(1), simp, rule s2(1), simp)
  have pub: "?b \<in> set (sy_pub s2)" using s1(2) s2(2) by simp
  note lost = at_least_once [OF demo_psys_ok(1) _ run, unfolded st, OF demo_psys_ok(2), THEN conjunct1]
  have "accounted ?rd demo_store demo_sub s2 ?b"
    unfolding accounted_def using bspec [OF lost pub] by (simp only: Let_def)
  with run pub show ?thesis by blast
qed

end
