(* ===== verification/PubsubMetrics.thy ===== *)
theory PubsubMetrics
  imports PubsubStart Metrics
begin

text \<open>
  The counters of service.go of package \<open>pubsub\<close>, and its remaining operations: \<open>Publish\<close> and
  \<open>handleEntry\<close> with the metrics they count, \<open>Name\<close>, \<open>MustSubscribe\<close> and \<open>Subscriptions\<close>.
\<close>

subsection \<open>Operations\<close>

definition pubsub_Name :: "('r, 'w) pubsub_service \<Rightarrow> string" where
  "pubsub_Name s = po_name (st_opts (ps_store s))"

text \<open>A panic is \<open>Inl\<close> its error.\<close>

definition MustSubscribe ::
  "('r, 'w) pubsub_service \<Rightarrow> 'w handle subscription \<Rightarrow> error + ('r, 'w) pubsub_service" where
  "MustSubscribe s sub = (case Subscribe s sub of (Some err, _) \<Rightarrow> Inl err | (None, s') \<Rightarrow> Inr s')"

definition Subscriptions :: "('r, 'w) pubsub_service \<Rightarrow> string list \<Rightarrow> 'w handle subscription list" where
  "Subscriptions s ks = router_List (ps_router s) ks"

text \<open>A subscription that did not panic is listed, whatever the order of the iteration, until another replaces it.\<close>

lemma MustSubscribe_listed:
  assumes r: "router_ok (ps_router s)" and m: "MustSubscribe s sub = Inr s'" and o: "range_order (rt_subs (ps_router s')) ks"
  shows "added sub \<in> set (Subscriptions s' ks) \<and> \<not> ps_started s'
    \<and> distinct (map (\<lambda>x. (s_Topic x, s_Group x)) (Subscriptions s' ks))"
proof -
  from m have st: "\<not> ps_started s" and s': "s' = s\<lparr>ps_router := snd (Add (ps_router s) sub)\<rparr>" and a: "fst (Add (ps_router s) sub) = None"
    by (auto simp: MustSubscribe_def Subscribe_def split: if_splits prod.splits option.splits)
  have "added sub \<in> ran (rt_subs (snd (Add (ps_router s) sub)))"
    using a by (auto simp: Add_def Let_def ran_def split: if_splits option.splits)
  moreover have "router_ok (ps_router s')" using Add_ok [OF r] by (simp add: s')
  note router_List_distinct [OF this o]
  ultimately show ?thesis using st by (simp add: Subscriptions_def s')
qed

subsection \<open>Counting\<close>

definition published_labels :: "string \<Rightarrow> string \<Rightarrow> labels" where
  "published_labels topic result = [(''topic'', normalizeTopic topic), (''result'', result)]"

definition Publish_counted ::
  "((string \<rightharpoonup> string) \<Rightarrow> (string \<rightharpoonup> string)) \<Rightarrow> ('r, 'w) pubsub_service \<Rightarrow> string \<Rightarrow> message \<Rightarrow> go_time
     \<Rightarrow> 'r conn \<times> registry \<Rightarrow> (error + string) \<times> ('r conn \<times> registry)" where
  "Publish_counted inject s topic msg now st =
     (let (res, c) = pubsub_Publish inject s topic msg now (fst st);
          result = (case res of Inl err \<Rightarrow> ''error'' | Inr i \<Rightarrow> ''success'')
      in (res, (c, if normalizeTopic topic = [] then snd st
                   else Inc ''wego_pubsub_published_total'' (published_labels topic result) (snd st))))"

text \<open>
  Only entries that were given to the handler are counted: not those that cannot be decoded, and
  not those that come with too many attempts.
\<close>

definition delivery_result ::
  "'r store \<Rightarrow> 'w handle subscription \<Rightarrow> string \<Rightarrow> entry \<Rightarrow> handled \<Rightarrow> string option" where
  "delivery_result st sub consumer ent res =
     (case decodeEntry (st_codec st) (s_Topic sub) (s_Group sub) consumer ent of
        Inl _ \<Rightarrow> None
      | Inr dl0 \<Rightarrow>
          (let dl = with_max_deliver (effectiveRetry sub (po_retry (st_opts st))) dl0 in
           if dl_Attempt dl > m_MaxDeliver (dl_Message dl) \<and> dp_Enabled (po_dlq (st_opts st)) then None
           else (case res of
                   NilHandlerPanic \<Rightarrow> None
                 | Acked None \<Rightarrow> Some ''success''
                 | _ \<Rightarrow> Some ''error'')))"

definition delivery_labels :: "'h subscription \<Rightarrow> string \<Rightarrow> labels" where
  "delivery_labels sub result = [(''topic'', s_Topic sub), (''group'', s_Group sub), (''result'', result)]"

definition handleEntry_counted ::
  "'r store \<Rightarrow> 'w handle subscription \<Rightarrow> string \<Rightarrow> entry \<Rightarrow> go_time \<Rightarrow> ('w \<times> 'r conn) \<times> registry
     \<Rightarrow> handled \<times> (('w \<times> 'r conn) \<times> registry)" where
  "handleEntry_counted st sub consumer ent now s =
     (let (res, s1) = handleEntry st sub consumer ent now (fst s)
      in (res, (s1, case delivery_result st sub consumer ent res of
                      None \<Rightarrow> snd s
                    | Some result \<Rightarrow> Inc ''wego_pubsub_deliveries_total'' (delivery_labels sub result) (snd s))))"

fun handle_all_counted ::
  "'r store \<Rightarrow> 'w handle subscription \<Rightarrow> string \<Rightarrow> (nat \<Rightarrow> go_time) \<Rightarrow> entry list \<Rightarrow> ('w \<times> 'r conn) \<times> registry
     \<Rightarrow> string option list \<times> (('w \<times> 'r conn) \<times> registry)" where
  "handle_all_counted st sub consumer clock [] s = ([], s)"
| "handle_all_counted st sub consumer clock (ent # es) s =
     (let (res, s1) = handleEntry_counted st sub consumer ent (clock 0) s;
          (rs, s2) = handle_all_counted st sub consumer (\<lambda>k. clock (Suc k)) es s1
      in (delivery_result st sub consumer ent res # rs, s2))"

text \<open>Counting changes nothing else, and the registry gets one call for each result.\<close>

lemma handle_all_counted_alt:
  "handle_all_counted st sub consumer clock es s = (rs, s') \<Longrightarrow>
     fst s' = handle_all st sub consumer clock es (fst s) \<and> length rs = length es
     \<and> snd s' = Incs (map (\<lambda>r. (''wego_pubsub_deliveries_total'', delivery_labels sub r)) (List.map_filter (\<lambda>r. r) rs)) (snd s)"
proof (induction es arbitrary: clock s rs s')
  case (Cons ent es)
  obtain res s1 where h: "handleEntry_counted st sub consumer ent (clock 0) s = (res, s1)" by (rule prod.exhaust)
  obtain rs1 s2 where t: "handle_all_counted st sub consumer (\<lambda>k. clock (Suc k)) es s1 = (rs1, s2)" by (rule prod.exhaust)
  with Cons.prems h have r: "rs = delivery_result st sub consumer ent res # rs1" "s' = s2" by simp_all
  from h have s1: "fst s1 = snd (handleEntry st sub consumer ent (clock 0) (fst s))"
      "snd s1 = (case delivery_result st sub consumer ent res of None \<Rightarrow> snd s
        | Some result \<Rightarrow> Inc ''wego_pubsub_deliveries_total'' (delivery_labels sub result) (snd s))"
    by (auto simp: handleEntry_counted_def split: prod.splits)
  from Cons.IH [OF t] s1 show ?case
    by (auto simp: r Incs_def List.map_filter_simps split: option.splits)
qed (auto simp: Incs_def List.map_filter_simps)

text \<open>
  The deliveries are counted: after any batch of entries the counter of a topic, a group and a
  result is the number of entries the handler was given and that ended with this result.
\<close>

theorem deliveries_counted:
  assumes h: "handle_all_counted st sub consumer clock es (s, NewRegistry) = (rs, (s', r'))" and n: "int (length es) \<le> 2 ^ 53"
  shows "s' = handle_all st sub consumer clock es s
    \<and> (\<exists>counters. r' = Some counters
         \<and> counter counters (metricKey ''wego_pubsub_deliveries_total'' (delivery_labels sub result)) =
             of_nat (length (filter (\<lambda>x. x = Some result) rs)))"
proof -
  let ?calls = "map (\<lambda>r. (''wego_pubsub_deliveries_total'', delivery_labels sub r)) (List.map_filter (\<lambda>r. r) rs)"
  note alt = handle_all_counted_alt [OF h]
  have plain: "plain_metric ''wego_pubsub_deliveries_total'' (delivery_labels sub r)" for r
    by (simp add: plain_metric_def delivery_labels_def quote_def)
  have "length (List.map_filter (\<lambda>r. r) rs) \<le> length rs" by (simp add: List.map_filter_def)
  with alt n have len: "int (length ?calls) \<le> 2 ^ 53" by simp
  have "\<exists>counters. Incs ?calls NewRegistry = Some counters
      \<and> counter counters (metricKey ''wego_pubsub_deliveries_total'' (delivery_labels sub result)) =
          of_nat (length (filter (same_metric ''wego_pubsub_deliveries_total'' (delivery_labels sub result)) ?calls))"
    by (rule Incs_counter) (use plain len in auto)
  moreover have "same_metric ''wego_pubsub_deliveries_total'' (delivery_labels sub result) (''wego_pubsub_deliveries_total'', delivery_labels sub r)
      \<longleftrightarrow> r = result" for r
    by (auto simp: same_metric_def delivery_labels_def dest: fun_cong [where x = "''result''"])
  then have "length (filter (same_metric ''wego_pubsub_deliveries_total'' (delivery_labels sub result)) ?calls) =
      length (filter (\<lambda>x. x = Some result) rs)"
    by (induction rs) (auto simp: List.map_filter_simps split: option.splits)
  ultimately show ?thesis using alt by auto
qed

end
