(* ===== verification/Hooks.thy ===== *)
theory Hooks
  imports Metrics Prelude
begin

text \<open>
  What the clients and the reminder worker count: the hooks of telemetry/instrumentation.go around
  a query of PostgreSQL and around a command, a pipeline or a connection of Redis, and
  \<open>recordDispatch\<close> of reminder/service.go.  The command itself, with the error it returns and the
  time it takes, is an argument; \<open>sql.ErrNoRows\<close> and \<open>redis.Nil\<close> are arguments too.  A span is its
  name and the error it was given.
\<close>

type_synonym hook_span = "string \<times> error option"

subsection \<open>PostgreSQL\<close>

text \<open>\<open>BeforeQuery\<close> starts the span that \<open>AfterQuery\<close> ends.\<close>

definition BeforeQuery :: "string \<Rightarrow> string" where
  "BeforeQuery operation = ''postgres '' @ ToUpper operation"

definition query_labels :: "error \<Rightarrow> string \<times> error option \<Rightarrow> labels" where
  "query_labels ErrNoRows ev =
     (let (operation, err) = ev;
          result = (if err \<noteq> None \<and> err \<noteq> Some ErrNoRows then ''error'' else ''success'')
      in [(''operation'', ToUpper operation), (''result'', result)])"

definition AfterQuery ::
  "error \<Rightarrow> string \<Rightarrow> string \<Rightarrow> error option \<Rightarrow> rat \<Rightarrow> registry \<Rightarrow> hook_span \<times> registry" where
  "AfterQuery ErrNoRows sp operation err elapsed metrics =
     (let sperr = (if err \<noteq> None \<and> err \<noteq> Some ErrNoRows then err else None);
          labels = query_labels ErrNoRows (operation, err)
      in ((sp, sperr), Observe ''wego_postgres_query_duration_seconds'' labels elapsed
                         (Inc ''wego_postgres_queries_total'' labels metrics)))"

subsection \<open>Redis\<close>

definition redis_labels :: "error \<Rightarrow> string \<times> error option \<Rightarrow> labels" where
  "redis_labels redis_Nil ev =
     (let (operation, err) = ev;
          result = (if err \<noteq> None \<and> err \<noteq> Some redis_Nil then ''error'' else ''success'')
      in [(''operation'', operation), (''result'', result)])"

definition RedisHook_record :: "error \<Rightarrow> string \<Rightarrow> error option \<Rightarrow> rat \<Rightarrow> registry \<Rightarrow> registry" where
  "RedisHook_record redis_Nil operation err elapsed metrics =
     (let labels = redis_labels redis_Nil (operation, err)
      in Observe ''wego_redis_command_duration_seconds'' labels elapsed (Inc ''wego_redis_commands_total'' labels metrics))"

definition DialHook :: "'c \<times> error option \<Rightarrow> ('c \<times> error option) \<times> hook_span" where
  "DialHook dialed = (let (conn, err) = dialed in ((conn, err), (''redis connect'', err)))"

definition ProcessHook ::
  "error \<Rightarrow> string \<Rightarrow> error option \<Rightarrow> rat \<Rightarrow> registry \<Rightarrow> error option \<times> hook_span \<times> registry" where
  "ProcessHook redis_Nil fullName err elapsed metrics =
     (let op1 = ToUpper fullName
      in (err, (''redis '' @ op1, None), RedisHook_record redis_Nil op1 err elapsed metrics))"

definition ProcessPipelineHook ::
  "error \<Rightarrow> error option \<Rightarrow> rat \<Rightarrow> registry \<Rightarrow> error option \<times> hook_span \<times> registry" where
  "ProcessPipelineHook redis_Nil err elapsed metrics =
     (err, (''redis pipeline'', None), RedisHook_record redis_Nil ''PIPELINE'' err elapsed metrics)"

subsection \<open>Reminders\<close>

definition dispatch_labels :: "string \<times> string \<Rightarrow> labels" where
  "dispatch_labels ev = (let (channel, result) = ev in [(''channel'', channel), (''result'', result)])"

definition recordDispatch :: "string \<Rightarrow> string \<Rightarrow> rat \<Rightarrow> registry \<Rightarrow> registry" where
  "recordDispatch channel result elapsed metrics =
     (let labels = dispatch_labels (channel, result)
      in Observe ''wego_reminder_dispatch_duration_seconds'' labels elapsed
           (Inc ''wego_reminder_dispatches_total'' labels metrics))"

subsection \<open>Each is counted once\<close>

interpretation queries: counted_events "''wego_postgres_queries_total''" "''wego_postgres_query_duration_seconds''" "query_labels e" for e
  by unfold_locales (auto simp: query_labels_def plain_metric_def quote_def Let_def split: prod.splits)

interpretation commands: counted_events "''wego_redis_commands_total''" "''wego_redis_command_duration_seconds''" "redis_labels e" for e
  by unfold_locales (auto simp: redis_labels_def plain_metric_def quote_def Let_def split: prod.splits)

interpretation dispatches: counted_events "''wego_reminder_dispatches_total''" "''wego_reminder_dispatch_duration_seconds''" dispatch_labels
  by unfold_locales (auto simp: dispatch_labels_def plain_metric_def quote_def Let_def split: prod.splits)

text \<open>The hooks account for the event with these labels, and \<open>ProcessHook\<close> returns the command's error.\<close>

lemma hooks_account:
  "snd (AfterQuery nr sp operation err v r) =
     account ''wego_postgres_queries_total'' ''wego_postgres_query_duration_seconds'' (query_labels nr (operation, err)) v r"
  "ProcessHook nil fullName err v r =
     (err, (''redis '' @ ToUpper fullName, None),
      account ''wego_redis_commands_total'' ''wego_redis_command_duration_seconds'' (redis_labels nil (ToUpper fullName, err)) v r)"
  "recordDispatch channel result v r =
     account ''wego_reminder_dispatches_total'' ''wego_reminder_dispatch_duration_seconds'' (dispatch_labels (channel, result)) v r"
  by (simp_all add: AfterQuery_def ProcessHook_def RedisHook_record_def recordDispatch_def account_def Let_def)

text \<open>
  The metrics of the reminder worker count the outcomes.  After any sequence of dispatches the
  counter of a channel and a result is the number of dispatches of this channel with this result,
  whatever characters the channel has.
\<close>

theorem dispatches_counted:
  assumes "int (length ds) \<le> 2 ^ 53"
  shows "\<exists>cs. fold (\<lambda>((channel, result), elapsed). recordDispatch channel result elapsed) ds NewRegistry = Some cs
    \<and> counter cs (metricKey ''wego_reminder_dispatches_total'' (dispatch_labels (channel, result))) =
        of_nat (length (filter (\<lambda>d. fst d = (channel, result)) ds))"
proof -
  have f: "(\<lambda>((channel, result), elapsed). recordDispatch channel result elapsed) =
      (\<lambda>(e, v). account ''wego_reminder_dispatches_total'' ''wego_reminder_dispatch_duration_seconds'' (dispatch_labels e) v)"
    by (auto simp: fun_eq_iff hooks_account)
  have m: "map_of (dispatch_labels (channel, result)) = map_of (dispatch_labels e) \<longleftrightarrow> e = (channel, result)" for e
  proof
    assume eq: "map_of (dispatch_labels (channel, result)) = map_of (dispatch_labels e)"
    have "map_of (dispatch_labels (channel, result)) ''channel'' = map_of (dispatch_labels e) ''channel''"
      "map_of (dispatch_labels (channel, result)) ''result'' = map_of (dispatch_labels e) ''result''"
      unfolding eq by simp_all
    then show "e = (channel, result)" by (cases e) (simp add: dispatch_labels_def)
  qed simp
  have p: "(\<lambda>d. fst d = (channel, result)) = (\<lambda>(e, v :: rat). e = (channel, result))" by auto
  show ?thesis
    using dispatches.account_counts [OF dispatches.plain(1) [of "(channel, result)"] assms]
    unfolding f m p .
qed

lemma dispatches_counted_witness:
  "\<exists>cs. fold (\<lambda>((channel, result), elapsed). recordDispatch channel result elapsed)
       [((''mail'', ''sent''), 1), ((''sms'', ''sent''), 1), ((''mail'', ''retry''), 1), ((''mail'', ''sent''), 2)] NewRegistry = Some cs
    \<and> counter cs (metricKey ''wego_reminder_dispatches_total'' (dispatch_labels (''mail'', ''sent''))) = 2"
  using dispatches_counted [of "[((''mail'', ''sent''), 1), ((''sms'', ''sent''), 1), ((''mail'', ''retry''), 1), ((''mail'', ''sent''), 2)]"
      "''mail''" "''sent''"] by simp

end
