(* ===== verification/EtcdClient.thy ===== *)
theory EtcdClient
  imports Prelude
begin

text \<open>
  Package \<open>third_party/etcd\<close>: the options of a client, its construction, locks, and the
  operations that hand on to the library.  The client of
  etcd is a parameter: what \<open>clientv3.New\<close> returns for the settings it is given, whether a session
  can be made, and whether the lock is free.  A session keeps a lease alive until it is closed; the
  number of sessions open is the state.
\<close>

datatype client_conn_type = ClientNonTLS | ClientTLS | ClientTLSAndNonTLS

record client_config =
  ConnectionType :: client_conn_type
  CertAuthority :: bool
  AutoTLS :: bool
  RevokeCerts :: bool

record auth_config =
  ac_Username :: string
  ac_Password :: string

definition auth_Empty :: "auth_config \<Rightarrow> bool" where
  "auth_Empty cfg \<longleftrightarrow> ac_Username cfg = [] \<and> ac_Password cfg = []"

text \<open>The settings of \<open>clientv3.Config\<close>: endpoints, and the user if there is one.\<close>

record etcd_client_config =
  cl_Endpoints :: "string list"
  cl_DialTimeout :: duration
  cl_Username :: string
  cl_Password :: string

record etcd_ctl =
  ct_cfg :: client_config
  ct_endpoints :: "string list"
  ct_authConfig :: auth_config
  ct_client :: ptr

datatype client_option = E_WithAuth string string | E_WithEndpoints "string list"

fun apply_client_option :: "client_option \<Rightarrow> etcd_ctl \<Rightarrow> etcd_ctl" where
  "apply_client_option (E_WithAuth userName password) ctl =
     ctl\<lparr>ct_authConfig := \<lparr>ac_Username = userName, ac_Password = password\<rparr>\<rparr>"
| "apply_client_option (E_WithEndpoints endpoints) ctl = ctl\<lparr>ct_endpoints := endpoints\<rparr>"

definition clientConfig :: "etcd_ctl \<Rightarrow> etcd_client_config" where
  "clientConfig ctl =
     (let cfg = \<lparr>cl_Endpoints = ct_endpoints ctl, cl_DialTimeout = 5 * second, cl_Username = [], cl_Password = []\<rparr>
      in if \<not> auth_Empty (ct_authConfig ctl)
         then cfg\<lparr>cl_Username := ac_Username (ct_authConfig ctl), cl_Password := ac_Password (ct_authConfig ctl)\<rparr>
         else cfg)"

definition NewCtl :: "(etcd_client_config \<Rightarrow> error + nat) \<Rightarrow> client_config \<Rightarrow> client_option list \<Rightarrow> error + etcd_ctl" where
  "NewCtl new_client cfg opts =
     (let ctl = fold apply_client_option opts
                  \<lparr>ct_cfg = cfg, ct_endpoints = [], ct_authConfig = \<lparr>ac_Username = [], ac_Password = []\<rparr>, ct_client = None\<rparr>
      in case new_client (clientConfig ctl) of
           Inl err \<Rightarrow> Inl err
         | Inr client \<Rightarrow> Inr (ctl\<lparr>ct_client := Some client\<rparr>))"

text \<open>The clients that are open.\<close>

definition ctl_Close :: "etcd_ctl \<Rightarrow> nat list \<Rightarrow> nat list" where
  "ctl_Close c clients = (case ct_client c of None \<Rightarrow> clients | Some client \<Rightarrow> removeAll client clients)"

text \<open>\<open>NewLockedMutex\<close>, with the errors of \<open>NewSession\<close> and \<open>TryLock\<close>, on the number of open sessions.\<close>

definition NewLockedMutex :: "error option \<Rightarrow> error option \<Rightarrow> string \<Rightarrow> nat \<Rightarrow> (error + string) \<times> nat" where
  "NewLockedMutex session_err try_err key sessions =
     (case session_err of
        Some err \<Rightarrow> (Inl err, sessions)
      | None \<Rightarrow>
          (case try_err of
             Some err \<Rightarrow> (Inl err, sessions + 1)
           | None \<Rightarrow> (Inr key, sessions + 1)))"

interpretation etcd_opts: option_family apply_client_option "\<lambda>ctl. ct_client ctl = None"
  by unfold_locales (case_tac p; simp)

text \<open>Nothing reads the kind of connection: a client is the same whatever TLS settings it is given.\<close>

lemma tls_ignored:
  "NewCtl new_client cfg opts = Inr ctl \<Longrightarrow> NewCtl new_client cfg' opts = Inr (ctl\<lparr>ct_cfg := cfg'\<rparr>)"
proof -
  have apply_cfg: "apply_client_option o1 (ct\<lparr>ct_cfg := cfg'\<rparr>) = (apply_client_option o1 ct)\<lparr>ct_cfg := cfg'\<rparr>" for o1 ct
    by (cases o1) simp_all
  have "fold apply_client_option opts (ct\<lparr>ct_cfg := cfg'\<rparr>) = (fold apply_client_option opts ct)\<lparr>ct_cfg := cfg'\<rparr>" for ct
    by (induction opts arbitrary: ct) (simp_all add: apply_cfg)
  from this [of "\<lparr>ct_cfg = cfg, ct_endpoints = [], ct_authConfig = \<lparr>ac_Username = [], ac_Password = []\<rparr>, ct_client = None\<rparr>"]
  show "NewCtl new_client cfg opts = Inr ctl \<Longrightarrow> ?thesis"
    by (auto simp: NewCtl_def clientConfig_def Let_def split: sum.splits if_splits)
qed

text \<open>The client is made once, from the last endpoints and the last user given.\<close>

lemma NewCtl_client:
  "NewCtl new_client cfg opts = Inr ctl \<Longrightarrow> \<exists>client. ct_client ctl = Some client \<and> new_client (clientConfig ctl) = Inr client"
  by (auto simp: NewCtl_def clientConfig_def auth_Empty_def Let_def split: sum.splits)

text \<open>Each attempt to take a lock that another holds leaves a session behind, whose lease is kept alive.\<close>

lemma refused_lock_leaks:
  "fold (\<lambda>e n. snd (NewLockedMutex None (Some e) key n)) refusals k = k + length refusals"
  by (induction refusals arbitrary: k) (simp_all add: NewLockedMutex_def)

subsection \<open>Operations that hand on to the library\<close>

text \<open>
  The calls of the library on a client, over the state \<open>'e\<close> of etcd; options are what the caller
  passes, \<open>'o\<close>, and answers are \<open>'a\<close>.  A nil client panics: \<open>None\<close>.
\<close>

record ('e, 'o, 'a) etcd_lib =
  el_Put :: "nat \<Rightarrow> string \<Rightarrow> string \<Rightarrow> 'o list \<Rightarrow> ('e, error, 'a) op"
  el_Get :: "nat \<Rightarrow> string \<Rightarrow> 'o list \<Rightarrow> ('e, error, 'a) op"
  el_Leases :: "nat \<Rightarrow> ('e, error, 'a) op"
  el_Grant :: "nat \<Rightarrow> int \<Rightarrow> ('e, error, 'a) op"
  el_TimeToLive :: "nat \<Rightarrow> int \<Rightarrow> 'o list \<Rightarrow> ('e, error, 'a) op"
  el_KeepAlive :: "nat \<Rightarrow> int \<Rightarrow> ('e, error, 'a) op"
  el_Revoke :: "nat \<Rightarrow> int \<Rightarrow> ('e, error, 'a) op"
  el_Watch :: "nat \<Rightarrow> string \<Rightarrow> 'o list \<Rightarrow> ('e, error, 'a) op"

definition on_client :: "etcd_ctl \<Rightarrow> (nat \<Rightarrow> 'b) \<Rightarrow> 'b option" where
  "on_client c call = (case ct_client c of None \<Rightarrow> None | Some client \<Rightarrow> Some (call client))"

definition ctl_Put :: "('e, 'o, 'a) etcd_lib \<Rightarrow> etcd_ctl \<Rightarrow> string \<Rightarrow> string \<Rightarrow> 'o list \<Rightarrow> ('e, error, 'a) op option" where
  "ctl_Put lib c key val opts = on_client c (\<lambda>client. el_Put lib client key val opts)"

definition ctl_Get :: "('e, 'o, 'a) etcd_lib \<Rightarrow> etcd_ctl \<Rightarrow> string \<Rightarrow> 'o list \<Rightarrow> ('e, error, 'a) op option" where
  "ctl_Get lib c key opts = on_client c (\<lambda>client. el_Get lib client key opts)"

definition ctl_Leases :: "('e, 'o, 'a) etcd_lib \<Rightarrow> etcd_ctl \<Rightarrow> ('e, error, 'a) op option" where
  "ctl_Leases lib c = on_client c (\<lambda>client. el_Leases lib client)"

definition ctl_GrantLease :: "('e, 'o, 'a) etcd_lib \<Rightarrow> etcd_ctl \<Rightarrow> int \<Rightarrow> ('e, error, 'a) op option" where
  "ctl_GrantLease lib c ttl = on_client c (\<lambda>client. el_Grant lib client ttl)"

definition ctl_TimeToLive :: "('e, 'o, 'a) etcd_lib \<Rightarrow> etcd_ctl \<Rightarrow> int \<Rightarrow> 'o list \<Rightarrow> ('e, error, 'a) op option" where
  "ctl_TimeToLive lib c leaseID opts = on_client c (\<lambda>client. el_TimeToLive lib client leaseID opts)"

definition ctl_KeepAlive :: "('e, 'o, 'a) etcd_lib \<Rightarrow> etcd_ctl \<Rightarrow> int \<Rightarrow> ('e, error, 'a) op option" where
  "ctl_KeepAlive lib c leaseID = on_client c (\<lambda>client. el_KeepAlive lib client leaseID)"

definition ctl_Revoke :: "('e, 'o, 'a) etcd_lib \<Rightarrow> etcd_ctl \<Rightarrow> int \<Rightarrow> ('e, error, 'a) op option" where
  "ctl_Revoke lib c leaseID = on_client c (\<lambda>client. el_Revoke lib client leaseID)"

definition ctl_Watch :: "('e, 'o, 'a) etcd_lib \<Rightarrow> etcd_ctl \<Rightarrow> string \<Rightarrow> 'o list \<Rightarrow> ('e, error, 'a) op option" where
  "ctl_Watch lib c key opts = on_client c (\<lambda>client. el_Watch lib client key opts)"

lemmas ctl_forward_defs = ctl_Put_def ctl_Get_def ctl_Leases_def ctl_GrantLease_def ctl_TimeToLive_def ctl_KeepAlive_def
  ctl_Revoke_def ctl_Watch_def on_client_def

text \<open>A control that \<open>NewCtl\<close> has made never panics: every operation runs on the client it connected.\<close>

lemma NewCtl_forwards:
  assumes "NewCtl new_client cfg opts = Inr c"
  shows "\<exists>client. new_client (clientConfig c) = Inr client
    \<and> ctl_Put lib c key val os = Some (el_Put lib client key val os) \<and> ctl_Get lib c key os = Some (el_Get lib client key os)
    \<and> ctl_Leases lib c = Some (el_Leases lib client) \<and> ctl_GrantLease lib c ttl = Some (el_Grant lib client ttl)
    \<and> ctl_TimeToLive lib c i os = Some (el_TimeToLive lib client i os) \<and> ctl_KeepAlive lib c i = Some (el_KeepAlive lib client i)
    \<and> ctl_Revoke lib c i = Some (el_Revoke lib client i) \<and> ctl_Watch lib c key os = Some (el_Watch lib client key os)"
  using NewCtl_client [OF assms] by (auto simp: ctl_forward_defs)

end
