(* ===== verification/HealthRoutes.thy ===== *)
theory HealthRoutes
  imports Middleware MesaHealth
begin

text \<open>
  \<open>registerHealthRoutes\<close> of mesa.go: the routes \<open>/livez\<close>, \<open>/readyz\<close> and \<open>/metrics\<close> of the HTTP
  server of a runtime.  The handlers read the runtime when a request comes: its state and what the
  pings of its clients return at the time of the request are arguments.  The three paths begin with
  a slash and are clean, so gin registers them as they are.
\<close>

record health_source =
  hz_state :: "go_time \<Rightarrow> runtime_state"
  hz_db :: "go_time \<Rightarrow> error option option"
  hz_redis :: "go_time \<Rightarrow> error option option"
  hz_etcd :: "go_time \<Rightarrow> error option option"

text \<open>\<open>c.JSON\<close> sets the status and writes the header; \<open>gin.WrapH\<close> of a handler that only writes answers 200.\<close>

definition JSON :: "int \<Rightarrow> gctx \<Rightarrow> gctx" where
  "JSON code c = c\<lparr>gx_status := (if gx_written c then gx_status c else code), gx_written := True\<rparr>"

definition livez :: "health_source \<Rightarrow> handler_fun" where
  "livez m c =
     (let status = Liveness (hz_state m (gx_now c));
          code = (if \<not> hs_OK status then 503 else 200)
      in (JSON code c, None))"

definition readyz :: "health_source \<Rightarrow> handler_fun" where
  "readyz m c =
     (let t = gx_now c;
          status = Readiness (hz_state m t) (hz_db m t) (hz_redis m t) (hz_etcd m t);
          code = (if \<not> hs_OK status then 503 else 200)
      in (JSON code c, None))"

definition metrics_route :: handler_fun where
  "metrics_route c = (c\<lparr>gx_written := True\<rparr>, None)"

definition registerHealthRoutes :: "health_source \<Rightarrow> http_server_state \<Rightarrow> http_server_state" where
  "registerHealthRoutes m s =
     s\<lparr>sv_routes := sv_routes s @ [(''GET'', ''/livez'', livez m), (''GET'', ''/readyz'', readyz m), (''GET'', ''/metrics'', metrics_route)]\<rparr>"

lemma health_handlers: "\<not> gx_written c \<Longrightarrow> gx_status (fst (livez m c)) = int (health_code (Liveness (hz_state m (gx_now c))))"
  "\<not> gx_written c \<Longrightarrow> gx_status (fst (readyz m c)) = int (health_code (Readiness (hz_state m (gx_now c))
     (hz_db m (gx_now c)) (hz_redis m (gx_now c)) (hz_etcd m (gx_now c))))"
  by (simp_all add: livez_def readyz_def JSON_def health_code_def Let_def)

text \<open>
  The health routes stay open whatever authentication and whatever routes are added later, and answer
  with the status of the check, behind the five middlewares.
\<close>

definition health_routes :: "health_source \<Rightarrow> http_server_state \<Rightarrow> bool" where
  "health_routes m s \<longleftrightarrow> (\<exists>more. sv_routes s =
     [(''GET'', ''/livez'', livez m), (''GET'', ''/readyz'', readyz m), (''GET'', ''/metrics'', metrics_route)] @ more)"

lemma health_routes_new: "health_routes m (registerHealthRoutes m (http_server_new opts))"
  by (simp add: health_routes_def registerHealthRoutes_def http_server_new_def)

lemma health_routes_kept:
  "health_routes m s \<Longrightarrow> health_routes m (SetAuthMiddleware auth s)"
  "health_routes m s \<Longrightarrow> RegisterRoute fullPath conflict method path h s = Some s' \<Longrightarrow> health_routes m s'"
  by (auto simp: health_routes_def SetAuthMiddleware_def RegisterRoute_def Let_def split: if_splits)

lemma health_served:
  assumes "health_routes m s" "sv_opts s = NewHTTPServer opts" "\<not> gx_written c"
    and "match (map (\<lambda>(m, p, _). (m, p)) (sv_routes s)) (gx_Method c) (gx_Path c) = Some i" "i < 2"
  shows "gx_status (fst (ServeHTTP match s c)) =
    (if i = 0 then int (health_code (Liveness (hz_state m (gx_now c))))
     else int (health_code (Readiness (hz_state m (gx_now c)) (hz_db m (gx_now c)) (hz_redis m (gx_now c)) (hz_etcd m (gx_now c)))))"
proof -
  obtain path h where r: "sv_routes s ! i = (''GET'', path, h)" "h = (if i = 0 then livez m else readyz m)"
    using assms(1,5) unfolding health_routes_def by (auto simp: less_2_cases_iff)
  have ok: "http_limits_ok (sv_opts s)" unfolding assms(2) by (rule NewHTTPServer_ok)
  let ?c = "c\<lparr>gx_FullPath := path\<rparr>"
  let ?e = "http_enter (sv_opts s) ?c"
  have "snd (h ?e) = None" by (simp add: r(2) livez_def readyz_def Let_def)
  then have "gx_status (http_leave (sv_opts s) ?c (h ?e)) = gx_status (fst (h ?e))"
    by (cases "h ?e") (simp add: http_leave_def Let_def)
  moreover have "ServeHTTP match s c = (http_leave (sv_opts s) ?c (h ?e), None)"
    using http_chain [OF ok, of h ?c] by (simp add: ServeHTTP_def assms(4) r(1))
  ultimately show ?thesis
    using health_handlers [of ?e m] assms(3) by (simp add: r(2))
qed

end
