(* ===== verification/ExampleServer.thy ===== *)
theory ExampleServer
  imports HealthRoutes MesaNew
begin

text \<open>
  The example program examples/http-server/main.go: the port it reads from its environment, the
  configuration of its server, and \<open>main\<close>, over \<open>New\<close> of the library.
\<close>

text \<open>The text that \<open>%q\<close> makes of the variable is an argument.\<close>

definition httpPort :: "(string \<Rightarrow> string) \<Rightarrow> string \<Rightarrow> error + int" where
  "httpPort quoted raw =
     (if raw = [] then Inr 8080
      else
        (case Atoi raw of
           None \<Rightarrow> Inl (Errs (''invalid WEGO_HTTP_PORT '' @ quoted raw @ '': must be an integer from 1 to 65535''))
         | Some port \<Rightarrow>
             (if port < 1 \<or> port > 65535
              then Inl (Errs (''invalid WEGO_HTTP_PORT '' @ quoted raw @ '': must be an integer from 1 to 65535''))
              else Inr port)))"

definition example_http_config :: "int \<Rightarrow> http_config" where
  "example_http_config port =
     \<lparr>hc_Port = port, hc_ReadHeaderTimeout = 5 * second, hc_ReadTimeout = 15 * second, hc_WriteTimeout = 30 * second,
      hc_IdleTimeout = 60 * second, hc_MaxHeaderBytes = 1048576, hc_MaxBodyBytes = 1048576, hc_RequestTimeout = 10 * second\<rparr>"

lemma httpPort_Inr: "httpPort quoted raw = Inr port \<Longrightarrow> 1 \<le> port \<and> port \<le> 65535"
  by (auto simp: httpPort_def split: if_splits option.splits)

text \<open>Every port the variable can name is taken as it is written.\<close>

lemma httpPort_Itoa: "1 \<le> port \<Longrightarrow> port \<le> 65535 \<Longrightarrow> httpPort quoted (Itoa port) = Inr port"
proof -
  assume p: "1 \<le> port" "port \<le> 65535"
  then have "in_int64 port" by (simp add: in_int64_def min_int64_def max_int64_def)
  with p show ?thesis by (simp add: httpPort_def)
qed

text \<open>The server of the example listens on that port with the limits it names.\<close>

lemma example_server:
  assumes "httpPort quoted raw = Inr port"
  shows "case http_server (apply_mesa_option (WithHTTPConfig (example_http_config port)) zero_options) of
      HTTPServer ho \<Rightarrow> http_Addr ho = '':'' @ Itoa port \<and> ho_MaxBodyBytes ho = 1048576 \<and> ho_RequestTimeout ho = 10 * second
    | _ \<Rightarrow> False"
  using httpPort_Inr [OF assms] by (simp add: http_server_def NewHTTPServer_def http_Addr_def example_http_config_def Let_def)

subsection \<open>main\<close>

definition hello :: handler_fun where
  "hello c = (JSON 200 c, None)"

text \<open>
  What \<open>main\<close> exits with (the error it logs as fatal, what a panic prints, or none) and the server it built.  The result
  of \<open>mesa.Run\<close> until the signal is the argument \<open>serve\<close>; \<open>hs\<close> is what the health checks of the
  runtime see.
\<close>

definition example_main ::
  "(string \<Rightarrow> string) \<Rightarrow> ('d, 'r) mesa_env \<Rightarrow> health_source \<Rightarrow> (http_server_state \<Rightarrow> error option) \<Rightarrow> string
     \<Rightarrow> ('d, 'r, 'h) process \<Rightarrow> error option \<times> http_server_state option" where
  "example_main quoted env hs serve raw p =
     (case httpPort quoted raw of
        Inl err \<Rightarrow> (Some err, None)
      | Inr port \<Rightarrow>
          (case fst (New env [WithHTTPConfig (example_http_config port)] p) of
             Inl (Fails err) \<Rightarrow> (Some err, None)
           | Inl (Panics msg) \<Rightarrow> (Some (Errs (''panic: '' @ msg)), None)
           | Inr mesa \<Rightarrow>
               (case GetServerByType HTTP mesa of
                  Some (HTTPServer ho) \<Rightarrow>
                    (let s0 = registerHealthRoutes hs \<lparr>sv_opts = ho, sv_auth = None, sv_routes = [], sv_listener = None\<rparr>;
                         s1 = s0\<lparr>sv_routes := sv_routes s0 @ [(''GET'', ''/hello'', hello)]\<rparr>
                     in (serve s1, Some s1))
                | _ \<Rightarrow> (Some (Errs ''HTTP server is not configured''), None))))"

lemma connect_nothing:
  assumes "mo_dsn mo = []" "rc_Addr (mo_RedisConfig mo) = []" "ec_Endpoints (mo_EtcdConfig mo) = []" "0 < mo_HttpPort mo"
    "ss_Name (mo_serviceScheme mo) = []" "mo_Servers mo = []"
  shows "connect_all env (initial_mesa mo tr) op1 = (None, (initial_mesa mo tr)\<lparr>m_servers := [http_server mo]\<rparr>, op1)"
  using assms
  by (simp add: connect_all_def then_phase_def connect_db_def connect_redis_def connect_etcd_def make_servers_def
      initial_mesa_def Let_def)

text \<open>\<open>New\<close> with nothing but an HTTP server opens no connection and registers no component.\<close>

lemma New_http_only:
  assumes "0 < port"
  shows "\<exists>m. fst (New env [WithHTTPConfig (example_http_config port)] p) = Inr m
    \<and> m_servers m = [http_server (apply_mesa_option (WithHTTPConfig (example_http_config port)) zero_options)]
    \<and> m_DB m = None \<and> m_Redis m = None \<and> \<not> m_etcdCtl m \<and> m_components m = []"
proof -
  define mo where "mo = apply_mesa_option (WithHTTPConfig (example_http_config port)) zero_options"
  have f: "mo_dsn mo = []" "rc_Addr (mo_RedisConfig mo) = []" "ec_Endpoints (mo_EtcdConfig mo) = []" "0 < mo_HttpPort mo"
      "ss_Name (mo_serviceScheme mo) = []" "mo_Servers mo = []" "mo_components mo = zero_components"
      "\<not> tc_Enabled (mo_Telemetry mo)"
    using assms by (simp_all add: mo_def zero_defs example_http_config_def)
  then have nt: "settings [WithHTTPConfig (example_http_config port)] = mo" "named_telemetry mo = mo"
    by (simp_all add: settings_def named_telemetry_def mo_def)
  have tel: "telemetry_New x y (mo_Telemetry mo) op1 =
      (Inr \<lparr>tr_tracerProvider = False, tr_ratio = tc_TraceSampleRatio (mo_Telemetry mo)\<rparr>, op1)" for x y op1
    by (simp add: telemetry_New_def f(8))
  have reg: "registerDefaultComponents env m lg = (None, m, lg)" if "m_opts m = mo" for m :: "('a, 'b, 'c) mesa" and lg
    by (simp add: registerDefaultComponents_def that f(7) zero_components_def zero_pubsub_def zero_reminder_def Let_def)
  have "fst (New env [WithHTTPConfig (example_http_config port)] p) =
      Inr ((initial_mesa mo \<lparr>tr_tracerProvider = False, tr_ratio = tc_TraceSampleRatio (mo_Telemetry mo)\<rparr>)\<lparr>m_servers := [http_server mo]\<rparr>)"
    unfolding New_def nt Let_def tel case_prod_conv sum.case connect_nothing [OF f(1-6)]
    by (simp add: reg initial_mesa_def)
  then show ?thesis unfolding mo_def [symmetric] by (simp add: initial_mesa_def)
qed

text \<open>
  \<open>main\<close> fails before it serves only when the variable is no port: otherwise it serves, on that port
  and behind the limits it names, the three routes of the runtime and the greeting, and its result is
  the one of \<open>Run\<close>.
\<close>

theorem example_main_serves:
  "case httpPort quoted raw of
     Inl err \<Rightarrow> example_main quoted env hs serve raw p = (Some err, None)
   | Inr port \<Rightarrow> \<exists>s. example_main quoted env hs serve raw p = (serve s, Some s)
       \<and> http_Addr (sv_opts s) = '':'' @ Itoa port \<and> http_limits_ok (sv_opts s)
       \<and> ho_MaxBodyBytes (sv_opts s) = 1048576 \<and> ho_RequestTimeout (sv_opts s) = 10 * second
       \<and> health_routes hs s \<and> map (\<lambda>(m, p, _). (m, p)) (sv_routes s) =
           [(''GET'', ''/livez''), (''GET'', ''/readyz''), (''GET'', ''/metrics''), (''GET'', ''/hello'')]"
proof (cases "httpPort quoted raw")
  case (Inl err)
  then show ?thesis by (simp add: example_main_def)
next
  case (Inr port)
  let ?mo = "apply_mesa_option (WithHTTPConfig (example_http_config port)) zero_options"
  have pos: "0 < port" using httpPort_Inr [OF Inr] by simp
  obtain m where m: "fst (New env [WithHTTPConfig (example_http_config port)] p) = Inr m" "m_servers m = [http_server ?mo]"
    using New_http_only [OF pos] by blast
  obtain ho where ho: "http_server ?mo = HTTPServer ho" by (simp add: http_server_def Let_def)
  have lim: "http_limits_ok ho" using ho NewHTTPServer_ok by (auto simp: http_server_def Let_def)
  have tp: "ho_Type ho = HTTP" using ho by (auto simp: http_server_def NewHTTPServer_def Let_def)
  have "GetServerByType HTTP m = Some (HTTPServer ho)" unfolding GetServerByType_def m(2) ho by (simp add: tp)
  with m(1) Inr example_server [OF Inr, unfolded ho] lim show ?thesis
    by (auto simp: example_main_def Let_def registerHealthRoutes_def health_routes_def)
qed

end
