(* ===== verification/PostgresExample.thy ===== *)
theory PostgresExample
  imports GoStrings
begin

text \<open>
  The example program third_party/postgres/main.go: a user is inserted into a table and its mail
  address updated.  The database is a parameter \<open>ud\<close>: the two statements, and what can be observed
  of the table, its rows by primary key.
\<close>

record user =
  us_ID :: int
  us_Name :: string
  us_Email :: string
  us_CreatedAt :: go_time

text \<open>An insertion returns the key the database has given, a statement that fails changes nothing.\<close>

record 'd user_db =
  ud_rows :: "'d \<Rightarrow> int \<rightharpoonup> user"
  ud_insert :: "user \<Rightarrow> ('d, error, int) op"
  ud_update :: "user \<Rightarrow> string \<Rightarrow> ('d, error, unit) op"

definition user_laws :: "'d user_db \<Rightarrow> bool" where
  "user_laws ud \<longleftrightarrow>
     (\<forall>u d e d'. ud_insert ud u d = (Inl e, d') \<longrightarrow> ud_rows ud d' = ud_rows ud d)
     \<and> (\<forall>u d i d'. ud_insert ud u d = (Inr i, d') \<longrightarrow>
          ud_rows ud d i = None \<and> ud_rows ud d' = (ud_rows ud d)(i \<mapsto> u\<lparr>us_ID := i\<rparr>))
     \<and> (\<forall>u col d e d'. ud_update ud u col d = (Inl e, d') \<longrightarrow> ud_rows ud d' = ud_rows ud d)
     \<and> (\<forall>u d d'. ud_update ud u ''email'' d = (Inr (), d') \<longrightarrow>
          ud_rows ud d' = (ud_rows ud d)(us_ID u := map_option (\<lambda>r. r\<lparr>us_Email := us_Email u\<rparr>) (ud_rows ud d (us_ID u))))"

text \<open>\<open>Create\<close> writes the new key into the user it is given.\<close>

definition User_Create :: "'d user_db \<Rightarrow> user \<Rightarrow> 'd \<Rightarrow> error option \<times> user \<times> 'd" where
  "User_Create ud user d =
     (case ud_insert ud user d of
        (Inl err, d') \<Rightarrow> (Some err, user, d')
      | (Inr i, d') \<Rightarrow> (None, user\<lparr>us_ID := i\<rparr>, d'))"

definition User_Update :: "'d user_db \<Rightarrow> user \<Rightarrow> string \<Rightarrow> 'd \<Rightarrow> error option \<times> 'd" where
  "User_Update ud user column d =
     (case ud_update ud user column d of (Inl err, d') \<Rightarrow> (Some err, d') | (Inr _, d') \<Rightarrow> (None, d'))"

text \<open>\<open>main\<close>: the lines it prints and the error it panics with, if any.\<close>

definition postgres_main :: "'d user_db \<Rightarrow> go_time \<Rightarrow> 'd \<Rightarrow> (string list \<times> error option) \<times> 'd" where
  "postgres_main ud now d =
     (let user = \<lparr>us_ID = 0, us_Name = ''alice'', us_Email = ''alice@example.com'', us_CreatedAt = now\<rparr> in
      case User_Create ud user d of
        (Some err, _, d1) \<Rightarrow> (([], Some err), d1)
      | (None, user1, d1) \<Rightarrow>
          (let line = ''inserted ID: '' @ Itoa (us_ID user1);
               user2 = user1\<lparr>us_Email := ''alice2@example.com''\<rparr>
           in case User_Update ud user2 ''email'' d1 of
                (Some err, d2) \<Rightarrow> (([line], Some err), d2)
              | (None, d2) \<Rightarrow> (([line, ''updated''], None), d2)))"

text \<open>
  The two statements are no transaction: a run that panics between them leaves the row as inserted.
  A run that ends well adds exactly one row, under a key that was free, with the second address.
\<close>

theorem postgres_main_rows:
  assumes laws: "user_laws ud" and m: "postgres_main ud now d = ((lines, err), d')"
  defines "alice i mail \<equiv> \<lparr>us_ID = i, us_Name = ''alice'', us_Email = mail, us_CreatedAt = now\<rparr>"
  shows "case lines of
      [] \<Rightarrow> err \<noteq> None \<and> ud_rows ud d' = ud_rows ud d
    | _ \<Rightarrow> \<exists>i. hd lines = ''inserted ID: '' @ Itoa i \<and> ud_rows ud d i = None
        \<and> (err = None \<longleftrightarrow> tl lines = [''updated''])
        \<and> ud_rows ud d' = (ud_rows ud d)
            (i \<mapsto> alice i (if err = None then ''alice2@example.com'' else ''alice@example.com''))"
proof -
  let ?u = "\<lparr>us_ID = 0, us_Name = ''alice'', us_Email = ''alice@example.com'', us_CreatedAt = now\<rparr>"
  obtain res d1 where i: "ud_insert ud ?u d = (res, d1)" by (rule prod.exhaust)
  show ?thesis
  proof (cases res)
    case (Inl e)
    with laws i have "ud_rows ud d1 = ud_rows ud d" unfolding user_laws_def by blast
    moreover have "postgres_main ud now d = (([], Some e), d1)"
      by (simp add: postgres_main_def User_Create_def i Inl Let_def)
    ultimately show ?thesis using m by simp
  next
    case (Inr k)
    with laws i have r1: "ud_rows ud d k = None" "ud_rows ud d1 = (ud_rows ud d)(k \<mapsto> ?u\<lparr>us_ID := k\<rparr>)"
      unfolding user_laws_def by blast+
    let ?u2 = "\<lparr>us_ID = k, us_Name = ''alice'', us_Email = ''alice2@example.com'', us_CreatedAt = now\<rparr>"
    obtain res2 d2 where u: "ud_update ud ?u2 ''email'' d1 = (res2, d2)" by (rule prod.exhaust)
    show ?thesis
    proof (cases res2)
      case (Inl e)
      with laws u have "ud_rows ud d2 = ud_rows ud d1" unfolding user_laws_def by blast
      moreover have "postgres_main ud now d = (([''inserted ID: '' @ Itoa k], Some e), d2)"
        by (simp add: postgres_main_def User_Create_def User_Update_def i \<open>res = Inr k\<close> u Inl Let_def)
      ultimately have l: "lines = [''inserted ID: '' @ Itoa k]" "err = Some e" and d: "ud_rows ud d' = ud_rows ud d2" "ud_rows ud d2 = ud_rows ud d1"
        using m by simp_all
      show ?thesis unfolding l d r1(2) alice_def list.case list.sel
        by (intro exI [of _ k]) (simp add: r1(1))
    next
      case (Inr x)
      with u have u': "ud_update ud ?u2 ''email'' d1 = (Inr (), d2)" by simp
      have "ud_rows ud d2 = (ud_rows ud d1)(us_ID ?u2 := map_option (\<lambda>r. r\<lparr>us_Email := us_Email ?u2\<rparr>) (ud_rows ud d1 (us_ID ?u2)))"
        by (rule laws [unfolded user_laws_def, THEN conjunct2, THEN conjunct2, THEN conjunct2, rule_format, OF u'])
      moreover have "postgres_main ud now d = (([''inserted ID: '' @ Itoa k, ''updated''], None), d2)"
        by (simp add: postgres_main_def User_Create_def User_Update_def i \<open>res = Inr k\<close> u Inr Let_def)
      ultimately have l: "lines = [''inserted ID: '' @ Itoa k, ''updated'']" "err = None" and d: "ud_rows ud d' = ud_rows ud d2" "ud_rows ud d2 = (ud_rows ud d1)(us_ID ?u2 := map_option (\<lambda>r. r\<lparr>us_Email := us_Email ?u2\<rparr>) (ud_rows ud d1 (us_ID ?u2)))"
        using m by simp_all
      show ?thesis unfolding l d r1(2) alice_def list.case list.sel
        by (intro exI [of _ k]) (simp add: r1(1))
    qed
  qed
qed

text \<open>A table in memory.\<close>

definition mem_users :: "(int \<times> user) list user_db" where
  "mem_users =
     \<lparr>ud_rows = map_of,
      ud_insert = (\<lambda>u d. let i = 1 + Max (insert 0 (fst ` set d)) in (Inr i, (i, u\<lparr>us_ID := i\<rparr>) # d)),
      ud_update = (\<lambda>u col d. if col = ''email''
        then (Inr (), map (\<lambda>(k, r). (k, if k = us_ID u then r\<lparr>us_Email := us_Email u\<rparr> else r)) d)
        else (Inl (Errs ''no such column''), d))\<rparr>"

lemma mem_users_laws: "user_laws mem_users"
proof -
  have fresh: "map_of d (1 + Max (insert 0 (fst ` set d))) = None" for d :: "(int \<times> user) list"
  proof -
    have "1 + Max (insert 0 (fst ` set d)) \<notin> fst ` set d"
    proof
      assume a: "1 + Max (insert 0 (fst ` set d)) \<in> fst ` set d"
      have "1 + Max (insert 0 (fst ` set d)) \<le> Max (insert 0 (fst ` set d))"
        by (rule Max_ge) (use a in auto)
      then show False by simp
    qed
    then show ?thesis by (simp add: map_of_eq_None_iff)
  qed
  have upd: "map_of (map (\<lambda>(k, r). (k, if k = i then f r else r)) d) = (map_of d)(i := map_option f (map_of d i))"
    for d :: "(int \<times> user) list" and i f
    by (induction d) auto
  show ?thesis
    using fresh upd by (auto simp: user_laws_def mem_users_def Let_def)
qed

lemma postgres_main_rows_witness:
  "case postgres_main mem_users 5 [] of ((lines, err), d') \<Rightarrow> lines = [''inserted ID: 1'', ''updated''] \<and> err = None
     \<and> ud_rows mem_users d' 1 = Some \<lparr>us_ID = 1, us_Name = ''alice'', us_Email = ''alice2@example.com'', us_CreatedAt = 5\<rparr>"
proof -
  have i: "Itoa 1 = ''1''" by code_simp
  obtain lines err d' where m: "postgres_main mem_users 5 [] = ((lines, err), d')" by (metis prod.exhaust)
  then have l: "lines = [''inserted ID: 1'', ''updated'']" "err = None"
    by (auto simp: postgres_main_def User_Create_def User_Update_def mem_users_def i Let_def)
  from postgres_main_rows [OF mem_users_laws m, unfolded l]
  obtain k where k: "''inserted ID: 1'' = ''inserted ID: '' @ Itoa k"
    "ud_rows mem_users d' = (ud_rows mem_users [])(k \<mapsto>
       \<lparr>us_ID = k, us_Name = ''alice'', us_Email = ''alice2@example.com'', us_CreatedAt = 5\<rparr>)" by auto
  have "d' = [(1, \<lparr>us_ID = 1, us_Name = ''alice'', us_Email = ''alice2@example.com'', us_CreatedAt = 5\<rparr>)]"
    using m by (auto simp: postgres_main_def User_Create_def User_Update_def mem_users_def i Let_def)
  then show ?thesis using l m by (simp add: mem_users_def)
qed

end
