(* ===== verification/Spec2Isabelle.thy ===== *)
theory Spec2Isabelle
  imports ReminderProps ReminderPages PubsubStart MesaAccepted MesaLifecycleMore MesaHealth
    MicroSelectorState RateBound HttpProps TcpProps
    ReminderApi PubsubPoison PubsubSystem PubsubMetrics Hooks EtcdClient ExampleServer PostgresExample HealthRoutes
begin

text \<open>
  A verification library for wego, a Go kit for services: a runtime that connects to PostgreSQL,
  Redis and etcd, starts servers and background components, and stops them; a component for
  messages over Redis streams; a component for reminders in a PostgreSQL table; servers for HTTP,
  TCP and go-micro; middleware, loggers and counters.

  The parts and how they interact.  \<open>New\<close> (mesa.go) opens the clients of the configured services,
  makes the servers and registers the default components; \<open>Run\<close> starts the components, then the
  servers, waits, and stops everything; \<open>Shutdown\<close> can be called by any goroutine.  The pub/sub
  component publishes to a stream for each topic; its workers read entries of consumer groups, call
  handlers, acknowledge, put failed entries aside in a sorted set of retries or in a stream of dead
  letters, and promote due retries, with Lua scripts where two changes belong together.  The
  reminder component keeps rows in a table: callers create, list, cancel and reschedule them;
  workers claim due rows, call a notifier and record the outcome.  HTTP requests pass a fixed chain
  of middlewares, then the authentication of the route and its handler, and are counted in the
  registry that \<open>/metrics\<close> shows.

  Theories and the code they model (paths are under src/):

  \<^item> \<open>Prelude\<close>: Go's errors with \<open>errors.Is\<close> and \<open>errors.Join\<close>, 64-bit wrap-around, time; the
    interfaces \<open>normaliser\<close>, \<open>option_family\<close>, \<open>invariant_steps\<close> (with \<open>run\<close>, the runs of a step
    relation) and \<open>backoff\<close>.  \<open>GoStrings\<close>: \<open>TrimSpace\<close> on UTF-8 bytes, letter case, \<open>Itoa\<close>,
    \<open>Atoi\<close>, joins and prefixes.  \<open>GoCodec\<close>: valid UTF-8, the replacement of other
    bytes, and an encoding for witnesses.
    \<open>Float64\<close>: \<open>float64\<close> arithmetic as rounding to 53 binary digits, with the interface
    \<open>rounding\<close>, and \<open>Duration.Seconds\<close>.
  \<^item> \<open>ReminderModel\<close>, \<open>ReminderStore\<close>: reminder/model.go and reminder/store.go, each statement on a
    table, over a database \<open>pg\<close>.  \<open>ReminderInv\<close>: every statement keeps the table well formed.
    \<open>ReminderSpec\<close>: an abstract store of reminders by key, and that the operations refine it.
    \<open>ReminderPages\<close>: pagination.  \<open>ReminderService\<close>: reminder/options.go and reminder/service.go.
    \<open>ReminderSystem\<close>: API callers and workers interleaved, one statement a step.
    \<open>ReminderBound\<close>: how often a notifier is called.  \<open>ReminderDispatcher\<close>:
    reminder/dispatcher.go.  \<open>ReminderMigrate\<close>: reminder/migrate.go, over a database and a file
    system.  \<open>ReminderApi\<close>: the operations of the service that hand on to the store.
    \<open>ReminderProps\<close>: the properties of the package.
  \<^item> \<open>PubsubRedis\<close>: the commands of Redis the code sends, as a parameter \<open>rd\<close> with laws, and a
    link that can fail before or after a request is carried out.  \<open>PubsubMessage\<close>: pubsub/message.go
    and pubsub/errors.go.  \<open>PubsubRouter\<close>: pubsub/options.go and pubsub/router.go.
    \<open>PubsubStore\<close>: pubsub/store.go with its three scripts.  \<open>PubsubService\<close>: pubsub/service.go.
    \<open>PubsubEffects\<close>, \<open>PubsubProps\<close>, \<open>PubsubPromote\<close>, \<open>PubsubStart\<close>: what the operations do to
    the server whatever fails, and the properties.  \<open>PubsubPoison\<close>: a message that is always refused,
    followed from the worker through the retry set and the promotion to its end.
    \<open>PubsubSystem\<close>: a topic and a group as a step relation of publishers, workers, claimers,
    promoters, workers that die and others on the server, with the invariant that accounts for every
    published message.  \<open>PubsubMetrics\<close>: the counters of the service and its small operations.
  \<^item> \<open>Logger\<close>: logger/log.go.  \<open>Telemetry\<close>: telemetry/runtime.go.  \<open>Metrics\<close>:
    telemetry/metrics.go, with the interface \<open>counted_events\<close>.  \<open>Hooks\<close>:
    telemetry/instrumentation.go and \<open>recordDispatch\<close> of reminder/service.go.
  \<^item> \<open>TransportHttp\<close>: transport/types.go and transport/http/options.go.  \<open>GinContext\<close>: what handlers
    read and write, and the interface \<open>gate\<close> of a middleware that passes a request on or answers
    it.  \<open>HttpServer\<close>: transport/http/http.go.  \<open>Middleware\<close>: middleware/auth.go and
    middleware/production.go.  \<open>RateBound\<close>, \<open>HttpProps\<close>: their properties.
  \<^item> \<open>TcpServer\<close>: transport/tcp, its goroutines as a step relation.  \<open>TcpProps\<close>: who owns its
    sockets and what a shutdown closes.  \<open>MicroService\<close>, \<open>MicroSelector\<close>,
    \<open>MicroSelectorState\<close>: transport/micro.
  \<^item> \<open>MesaConfig\<close>, \<open>MesaValidate\<close>: options.go and config.go.  \<open>MesaRuntime\<close>, \<open>MesaNew\<close>,
    \<open>MesaNewProps\<close>, \<open>MesaAccepted\<close>: the registry of component.go, default_components.go and \<open>New\<close>
    in its phases, on the multiset of open resources, with the etcd client of the micro server's
    registry; a phase that does not go on returns an error or panics (\<open>stop\<close>).  \<open>MesaLifecycle\<close>, \<open>MesaLifecycleProps\<close>,
    \<open>MesaLifecycleMore\<close>: \<open>Run\<close> and \<open>Shutdown\<close> of any number of goroutines as a step relation.
    \<open>MesaHealth\<close>, \<open>HealthRoutes\<close>: the health checks and their routes on the HTTP server.
  \<^item> \<open>EtcdClient\<close>: third_party/etcd.  \<open>ExampleServer\<close>: examples/http-server/main.go, whose
    \<open>main\<close> is run on the model of \<open>New\<close>.  \<open>PostgresExample\<close>: third_party/postgres/main.go.

  How the state of the code appears.  A struct is a record with a prefix for its fields, an enum or
  a kind of error a datatype; an operation that changes state returns the state it leaves; an error
  is the left part of a sum or an option.  Goroutines that share state are events of a step relation
  whose steps are the stretches between two points where others can run: a statement of the
  database, a command to Redis, a section under a mutex.  What loops do each turn is a function of
  its own (\<open>consume_turn\<close>, \<open>claim_turn\<close>, \<open>retry_turn\<close>, \<open>loop_tick\<close>), since the loops run until a
  context ends.

  Parameters and their laws.  Code that is not in the repository is an argument, with laws that are
  named hypotheses and that witnesses satisfy with concrete servers: \<open>pg_laws\<close> for PostgreSQL
  (what an insert, a select, a select for update, an update and a transaction do, and the precision
  of its times; a statement whose answer is an error has changed nothing, or has been carried out
  and lost its answer), \<open>migration_laws\<close> for the same database seen by the migrations,
  \<open>redis_laws\<close> for Redis, \<open>codec_ok\<close> for JSON and the format of times, \<open>user_laws\<close> for the table of
  the PostgreSQL example.  For Redis the laws fix entries, retries, pending ids and counts of
  deliveries; \<open>XAUTOCLAIM\<close> counts a delivery of each claimed entry and may drop pending ids of
  entries that are gone, as the server does since version 7.  JSON replaces bytes that are not
  UTF-8 (\<open>utf8_clean\<close>), so what becomes of a message of other bytes is stated with
  \<open>clean_message\<close>.  In \<open>PubsubSystem\<close> Redis also gives no id of a
  stream twice (\<open>ids_fresh\<close>), and other programs on the server leave the pending entries and the
  retries of the group alone (\<open>others_ok\<close>).  Notifiers, handlers, authenticators, the matching of routes and what gin makes of a
  path when it registers it, \<open>net.SplitHostPort\<close>, the
  order in which Go ranges over a map, and what a client answers when it is opened or closed are
  arguments without laws.

  Bounds.  The walk through the pages of \<open>List\<close> has the number of rows plus one as its fuel; each
  page but the last takes a row, so it suffices (\<open>List_pages_complete\<close> states the result for it).
  With k servers and components each call of \<open>Run\<close> or \<open>Shutdown\<close> makes at most 3k + 12 steps
  (\<open>lifecycle_terminates\<close>).  The
  shutdown of a TCP server makes at most the number of tracked connections plus four steps
  (\<open>shutdown_progress\<close>).  Everything else recurses structurally.

  Interfaces.  \<open>normaliser\<close> is interpreted by the names of loggers, components, topics, groups and
  dispatch keys; \<open>option_family\<close> by the options of each component; \<open>backoff\<close> by the two retry tables;
  \<open>invariant_steps\<close> by every step relation; \<open>config_merge\<close> by the merging of component options;
  \<open>releasing_phase\<close>, with \<open>two_phases\<close> for phases in a row, by the phases of \<open>New\<close>;
  \<open>rounding\<close> by \<open>float64\<close>; \<open>counted_events\<close> by HTTP requests, database queries, Redis commands and
  dispatches; \<open>gate\<close>, with \<open>two_gates\<close>, by the middlewares that can refuse a request.

  Simplifications.  \<open>ToLower\<close> and \<open>ToUpper\<close> change ASCII letters only.  Integers of 64 bits are
  \<open>int\<close>, with \<open>wrap64\<close> where the code adds to a value it has not bounded; the hash of the selector
  is computed in 64-bit words.  \<open>float64\<close> has no infinities in arithmetic and an unbounded exponent:
  the values computed with are far from both; each
  operation rounds on its own, where some processors let Go fuse the product and the sum of the
  rate limit (\<open>take_token\<close>) into one rounding.  Pointers that are only passed on or compared with
  nil are optional numbers; loggers, sockets and go-micro services, which are shared, are positions
  of a heap.  Clock readings are arguments, or a field of the request; a request is handled without
  others between its steps, since what requests share is under mutexes.

  Not modelled: spans of the pub/sub and reminder packages and log lines outside the logger and the
  HTTP chain, whose only effect is output; the pool sizes and time limits of the clients; the
  bodies of the health routes.  The values of \<open>TraceSampleRatio\<close>
  have the order of \<open>float64\<close> with NaN and infinities (the instance of \<open>ord\<close> in \<open>Telemetry\<close>).

  What the properties found in the code is listed with the manifest: for instance that a \<open>Shutdown\<close>
  during the start can make \<open>Run\<close> panic (\<open>early_shutdown_panics\<close>), that panicking requests are not
  counted (\<open>http_request_accounted\<close>), that a backlog longer than the limit of a stream loses published
  messages (\<open>at_least_once\<close>), and that a restarted TCP server cannot be stopped
  (\<open>start_after_stop\<close>).
\<close>

end
